(* ===== verification/Prelude.thy ===== *)
theory Prelude
  imports Main "HOL-Library.Word" "HOL-Library.State_Monad"
begin

section \<open>Prelude: the Go base the program's text rests on\<close>

text \<open>
  Shared by every theory of the development: fixed-width integers and their decimal text
  (\<^verbatim>\<open>%d\<close>), quoted text (\<^verbatim>\<open>%q\<close>), Go's maps with their \<^verbatim>\<open>nil\<close> value, Go's error values with
  wrapping (\<^verbatim>\<open>fmt.Errorf\<close> with \<^verbatim>\<open>%w\<close>), durations in nanoseconds, and the generic lemmas on
  lists and numbers that several components use. The collections \<open>run_defs\<close> and
  \<open>run_rules\<close> gather the equations and rules that evaluate and reason about effects.
\<close>

named_theorems run_defs "definitions unfolded to run a small operation symbolically"
named_theorems run_rules "what a whole operation guarantees about the calls it makes"
named_theorems name_defs "definitions of the name builders"

subsection \<open>Integers\<close>

type_synonym int32 = "32 word"

text \<open>Go's \<^verbatim>\<open>time.Duration\<close> counts nanoseconds.\<close>

type_synonym duration = int

definition second :: duration where
  "second = 1000000000"

definition minute :: duration where
  "minute = 60 * second"

definition hour :: duration where
  "hour = 60 * minute"

lemma second_pos [simp]: "0 < second"
  by (simp add: second_def)

text \<open>The decimal text of a number, as \<^verbatim>\<open>%d\<close> prints it.\<close>

definition digitChar :: "nat \<Rightarrow> char" where
  "digitChar d = char_of (48 + d)"

fun showNat :: "nat \<Rightarrow> string" where
  "showNat n = (if n < 10 then [digitChar n] else showNat (n div 10) @ [digitChar (n mod 10)])"

declare showNat.simps [simp del]

definition showInt :: "int \<Rightarrow> string" where
  "showInt i = (if i < 0 then CHR ''-'' # showNat (nat (- i)) else showNat (nat i))"

definition showInt32 :: "int32 \<Rightarrow> string" where
  "showInt32 w = showInt (sint w)"

text \<open>Reading the digits back shows that the text determines the number.\<close>

definition readDigits :: "string \<Rightarrow> nat" where
  "readDigits s = foldl (\<lambda>a c. a * 10 + (of_char c - 48)) 0 s"

lemma of_digitChar: "d < 10 \<Longrightarrow> of_char (digitChar d) = (48 + d :: nat)"
  by (simp add: digitChar_def)

lemma readDigits_snoc: "readDigits (s @ [c]) = readDigits s * 10 + (of_char c - 48)"
  by (simp add: readDigits_def)

lemma readDigits_showNat: "readDigits (showNat n) = n"
proof (induction n rule: showNat.induct)
  case (1 n)
  show ?case
  proof (cases "n < 10")
    case True
    then show ?thesis
      by (simp add: showNat.simps [of n] readDigits_def of_digitChar)
  next
    case False
    with 1 show ?thesis
      by (simp add: showNat.simps [of n] readDigits_snoc of_digitChar)
  qed
qed

lemma showNat_inject [simp]: "showNat m = showNat n \<longleftrightarrow> m = n"
  by (metis readDigits_showNat)

lemma showNat_digits: "c \<in> set (showNat n) \<Longrightarrow> 48 \<le> (of_char c :: nat) \<and> (of_char c :: nat) < 58"
proof (induction n rule: showNat.induct)
  case (1 n)
  show ?case
  proof (cases "n < 10")
    case True
    with "1.prems" show ?thesis
      by (simp add: showNat.simps [of n] of_digitChar)
  next
    case False
    with "1.prems" have "c \<in> set (showNat (n div 10)) \<or> c = digitChar (n mod 10)"
      by (auto simp: showNat.simps [of n])
    then show ?thesis
      using "1.IH" False by (auto simp: of_digitChar)
  qed
qed

lemma showNat_nonempty [simp]: "showNat n \<noteq> []"
  by (simp add: showNat.simps [of n])

lemma showNat_not_dash: "CHR ''-'' \<notin> set (showNat n)"
  using showNat_digits [of "CHR ''-''" n] by auto

lemma showInt_inject [simp]: "showInt i = showInt j \<longleftrightarrow> i = j"
proof -
  have dash: "CHR ''-'' # s \<noteq> showNat n" for s n
    using showNat_not_dash [of n] by (metis list.set_intros(1))
  then have "showNat n \<noteq> CHR ''-'' # s" for s n
    by metis
  then show ?thesis
    using dash by (auto simp: showInt_def)
qed

lemma showInt_nonempty [simp]: "showInt i \<noteq> []"
  by (simp add: showInt_def)

lemma last_showInt: "48 \<le> (of_char (last (showInt i)) :: nat) \<and> (of_char (last (showInt i)) :: nat) < 58"
proof -
  have "48 \<le> (of_char (last (showNat n)) :: nat) \<and> (of_char (last (showNat n)) :: nat) < 58" for n
    by (rule showNat_digits [of _ n]) (simp add: last_in_set)
  then show ?thesis
    by (simp add: showInt_def)
qed

lemma showInt32_inject [simp]: "showInt32 v = showInt32 w \<longleftrightarrow> v = w"
  by (auto simp: showInt32_def intro: signed_word_eqI)

lemma showInt32_nonempty [simp]: "showInt32 w \<noteq> []"
  by (simp add: showInt32_def)

subsection \<open>Quoted text\<close>

text \<open>
  \<^verbatim>\<open>%q\<close> (\<^verbatim>\<open>strconv.Quote\<close>) on ASCII text: quotes and backslashes are escaped, the
  named control characters get their letter, the other ones two hexadecimal digits. Bytes
  from 128 on are passed through, which is what Go does with printable Unicode text.
\<close>

definition hexChar :: "nat \<Rightarrow> char" where
  "hexChar d = (if d < 10 then digitChar d else char_of (87 + d))"

definition quoteChar :: "char \<Rightarrow> string" where
  "quoteChar c =
     (let n = (of_char c :: nat) in
      if n = 34 then [char_of (92::nat), c]
      else if n = 92 then [char_of (92::nat), c]
      else if n = 7 then [char_of (92::nat), CHR ''a'']
      else if n = 8 then [char_of (92::nat), CHR ''b'']
      else if n = 9 then [char_of (92::nat), CHR ''t'']
      else if n = 10 then [char_of (92::nat), CHR ''n'']
      else if n = 11 then [char_of (92::nat), CHR ''v'']
      else if n = 12 then [char_of (92::nat), CHR ''f'']
      else if n = 13 then [char_of (92::nat), CHR ''r'']
      else if n < 32 \<or> n = 127
           then [char_of (92::nat), CHR ''x'', hexChar (n div 16), hexChar (n mod 16)]
      else [c])"

definition goQuote :: "string \<Rightarrow> string" where
  "goQuote s = [char_of (34::nat)] @ concat (map quoteChar s) @ [char_of (34::nat)]"

subsection \<open>Maps with nil\<close>

text \<open>
  A Go map is \<^verbatim>\<open>nil\<close> (\<open>None\<close>) or a table. Reading a nil map finds nothing; writing to it
  panics, so the operations that write keep the two cases apart.
\<close>

type_synonym ('k, 'v) go_map = "('k \<rightharpoonup> 'v) option"

definition goLookup :: "('k, 'v) go_map \<Rightarrow> 'k \<rightharpoonup> 'v" where
  "goLookup m k = (case m of None \<Rightarrow> None | Some t \<Rightarrow> t k)"

text \<open>Indexing a map of strings gives the zero value, the empty string, for a missing key.\<close>

definition goIndex :: "('k, string) go_map \<Rightarrow> 'k \<Rightarrow> string" where
  "goIndex m k = (case goLookup m k of None \<Rightarrow> '''' | Some v \<Rightarrow> v)"

definition goDelete :: "('k, 'v) go_map \<Rightarrow> 'k \<Rightarrow> ('k, 'v) go_map" where
  "goDelete m k = map_option (\<lambda>t. t(k := None)) m"

lemma goLookup_simps [simp]:
  "goLookup None k = None"
  "goLookup (Some t) k = t k"
  by (simp_all add: goLookup_def)

lemma goLookup_goDelete [simp]:
  "goLookup (goDelete m k) k' = (if k' = k then None else goLookup m k')"
  by (cases m) (auto simp: goDelete_def)

subsection \<open>Errors\<close>

text \<open>
  A Go error is its text and what the API machinery's predicates report of it. Wrapping with
  \<^verbatim>\<open>%w\<close> puts a prefix before the text and keeps the reason (\<^verbatim>\<open>apierrors\<close> looks through wrapped
  errors); an error made from text alone has no API reason.
\<close>

datatype status_reason = ReasonNotFound | ReasonAlreadyExists | ReasonConflict | ReasonUnknown

datatype go_error = GoError (errReason: status_reason) (errText: string)

definition wrapf :: "string \<Rightarrow> go_error \<Rightarrow> go_error" where
  "wrapf prefix e = GoError (errReason e) (prefix @ '': '' @ errText e)"

definition errorf :: "string \<Rightarrow> go_error" where
  "errorf s = GoError ReasonUnknown s"

definition IsNotFound :: "go_error \<Rightarrow> bool" where
  "IsNotFound e \<longleftrightarrow> errReason e = ReasonNotFound"

definition IsAlreadyExists :: "go_error \<Rightarrow> bool" where
  "IsAlreadyExists e \<longleftrightarrow> errReason e = ReasonAlreadyExists"

text \<open>
  The test \<^verbatim>\<open>err != nil && !apierrors.IsNotFound(err)\<close> that follows every delete: the error it
  lets through, if any.
\<close>

definition unlessNotFound :: "go_error option \<Rightarrow> go_error option" where
  "unlessNotFound err =
     (case err of None \<Rightarrow> None | Some e \<Rightarrow> if IsNotFound e then None else Some e)"

lemma IsNotFound_wrapf [simp]: "IsNotFound (wrapf s e) = IsNotFound e"
  by (simp add: IsNotFound_def wrapf_def)

lemma IsAlreadyExists_wrapf [simp]: "IsAlreadyExists (wrapf s e) = IsAlreadyExists e"
  by (simp add: IsAlreadyExists_def wrapf_def)

lemma IsNotFound_errorf [simp]: "\<not> IsNotFound (errorf s)"
  by (simp add: IsNotFound_def errorf_def)

subsection \<open>Lists\<close>

lemma append_last_neq:
  "xs \<noteq> [] \<Longrightarrow> ys \<noteq> [] \<Longrightarrow> last xs \<noteq> last ys \<Longrightarrow> us @ xs \<noteq> vs @ ys"
  by (metis last_appendR)

lemma distinct_nth_unique:
  "distinct (map f xs) \<Longrightarrow> i < length xs \<Longrightarrow> j < length xs \<Longrightarrow> f (xs ! i) = f (xs ! j) \<Longrightarrow> i = j"
  by (metis (no_types, lifting) distinct_conv_nth length_map nth_map)

end
