(* ===== verification/Api.thy ===== *)
theory Api
  imports Prelude
begin

section \<open>The VolumeResize resource and the controller's constants\<close>

text \<open>
  The custom resource of \<^verbatim>\<open>api/v1alpha1/volumeresize_types.go\<close> (spec, per-volume status,
  status, the object itself) and the constants of \<^verbatim>\<open>internal/controller/constants.go\<close>.
  A pointer field is an \<open>option\<close>, a slice a list, an \<^verbatim>\<open>int32\<close> a 32-bit word, a
  \<^verbatim>\<open>metav1.Time\<close> a number of nanoseconds. A \<^verbatim>\<open>resource.Quantity\<close> is the text it has on
  the wire; what the code learns about it (comparison, printing) comes from the library
  functions that the model takes as parameters (theory Client).
\<close>

type_synonym quantity = string
type_synonym labels = "(string, string) go_map"

subsection \<open>Object metadata\<close>

text \<open>
  The part of \<^verbatim>\<open>metav1.ObjectMeta\<close> that the program reads, writes or clears. A nil
  deletion timestamp is \<open>None\<close>; \<^verbatim>\<open>IsZero\<close> holds of exactly that.
\<close>

record ObjectMeta =
  om_name :: string
  om_namespace :: string
  om_labels :: labels
  om_annotations :: labels
  om_finalizers :: "string list"
  om_deletionTimestamp :: "int option"
  om_creationTimestamp :: "int option"
  om_resourceVersion :: string
  om_uid :: string
  om_generation :: int
  om_managedFields :: "string list"

text \<open>The zero value, from which a composite literal starts.\<close>

definition zeroMeta :: ObjectMeta where
  "zeroMeta = \<lparr>om_name = '''', om_namespace = '''', om_labels = None, om_annotations = None,
     om_finalizers = [], om_deletionTimestamp = None, om_creationTimestamp = None,
     om_resourceVersion = '''', om_uid = '''', om_generation = 0, om_managedFields = []\<rparr>"

subsection \<open>VolumeResize\<close>

record VolumeResizeTarget =
  vt_name :: string
  vt_newSize :: quantity
  vt_storageClass :: "string option"

record VolumeResizeSpec =
  spec_statefulSetName :: string
  spec_volumes :: "VolumeResizeTarget list"

record VolumeStatus =
  vs_volumeName :: string
  vs_replica :: int32
  vs_phase :: string
  vs_oldPVCName :: string
  vs_newPVCName :: string
  vs_oldPVName :: string
  vs_message :: string

record Condition =
  cond_type :: string
  cond_status :: string
  cond_reason :: string
  cond_message :: string

record VolumeResizeStatus =
  st_phase :: string
  st_conditions :: "Condition list"
  st_volumeStatuses :: "VolumeStatus list"
  st_currentReplica :: "int32 option"
  st_currentVolume :: string
  st_message :: string
  st_startTime :: "int option"
  st_completionTime :: "int option"
  st_backupConfigMapName :: string

record VolumeResize =
  vr_meta :: ObjectMeta
  vr_spec :: VolumeResizeSpec
  vr_status :: VolumeResizeStatus

definition zeroStatus :: VolumeResizeStatus where
  "zeroStatus = \<lparr>st_phase = '''', st_conditions = [], st_volumeStatuses = [],
     st_currentReplica = None, st_currentVolume = '''', st_message = '''',
     st_startTime = None, st_completionTime = None, st_backupConfigMapName = ''''\<rparr>"

text \<open>The fields read most often, by the names Go's embedding gives them.\<close>

abbreviation vrName :: "VolumeResize \<Rightarrow> string" where
  "vrName v \<equiv> om_name (vr_meta v)"

abbreviation vrNamespace :: "VolumeResize \<Rightarrow> string" where
  "vrNamespace v \<equiv> om_namespace (vr_meta v)"

abbreviation vrVolumes :: "VolumeResize \<Rightarrow> VolumeResizeTarget list" where
  "vrVolumes v \<equiv> spec_volumes (vr_spec v)"

abbreviation vrSTS :: "VolumeResize \<Rightarrow> string" where
  "vrSTS v \<equiv> spec_statefulSetName (vr_spec v)"

abbreviation vrPhase :: "VolumeResize \<Rightarrow> string" where
  "vrPhase v \<equiv> st_phase (vr_status v)"

text \<open>Assigning through the pointer: one field of the status, or of the metadata.\<close>

definition withStatus :: "(VolumeResizeStatus \<Rightarrow> VolumeResizeStatus) \<Rightarrow> VolumeResize \<Rightarrow> VolumeResize" where
  "withStatus f v = v\<lparr>vr_status := f (vr_status v)\<rparr>"

definition withMeta :: "(ObjectMeta \<Rightarrow> ObjectMeta) \<Rightarrow> VolumeResize \<Rightarrow> VolumeResize" where
  "withMeta f v = v\<lparr>vr_meta := f (vr_meta v)\<rparr>"

lemma withStatus_simps [simp]:
  "vr_meta (withStatus f v) = vr_meta v"
  "vr_spec (withStatus f v) = vr_spec v"
  "vr_status (withStatus f v) = f (vr_status v)"
  by (simp_all add: withStatus_def)

lemma withMeta_simps [simp]:
  "vr_meta (withMeta f v) = f (vr_meta v)"
  "vr_spec (withMeta f v) = vr_spec v"
  "vr_status (withMeta f v) = vr_status v"
  by (simp_all add: withMeta_def)

subsection \<open>Phases\<close>

definition PhasePending :: string where "PhasePending = ''Pending''"
definition PhaseValidating :: string where "PhaseValidating = ''Validating''"
definition PhaseSyncing :: string where "PhaseSyncing = ''Syncing''"
definition PhaseReplacing :: string where "PhaseReplacing = ''Replacing''"
definition PhaseCompleted :: string where "PhaseCompleted = ''Completed''"
definition PhaseFailed :: string where "PhaseFailed = ''Failed''"

lemmas phase_defs = PhasePending_def PhaseValidating_def PhaseSyncing_def PhaseReplacing_def
  PhaseCompleted_def PhaseFailed_def

definition VolumeStatusPending :: string where "VolumeStatusPending = ''Pending''"
definition VolumeStatusSyncing :: string where "VolumeStatusSyncing = ''Syncing''"
definition VolumeStatusSynced :: string where "VolumeStatusSynced = ''Synced''"
definition VolumeStatusReplacing :: string where "VolumeStatusReplacing = ''Replacing''"
definition VolumeStatusCompleted :: string where "VolumeStatusCompleted = ''Completed''"
definition VolumeStatusFailed :: string where "VolumeStatusFailed = ''Failed''"

definition ConditionTypeReady :: string where "ConditionTypeReady = ''Ready''"
definition ConditionTypeValidated :: string where "ConditionTypeValidated = ''Validated''"
definition ConditionTypeProgressing :: string where "ConditionTypeProgressing = ''Progressing''"

lemmas volume_status_defs = VolumeStatusPending_def VolumeStatusSyncing_def
  VolumeStatusSynced_def VolumeStatusReplacing_def VolumeStatusCompleted_def
  VolumeStatusFailed_def

subsection \<open>Annotation, label and key names, defaults\<close>

definition AnnotationOldPVName :: string where
  "AnnotationOldPVName = ''storage.maurice.fr/old-pv-name''"
definition AnnotationManagedBy :: string where
  "AnnotationManagedBy = ''storage.maurice.fr/managed-by''"
definition AnnotationSTSDeleted :: string where
  "AnnotationSTSDeleted = ''storage.maurice.fr/sts-deleted''"
definition AnnotationSTSBackup :: string where
  "AnnotationSTSBackup = ''storage.maurice.fr/sts-backup-cm''"
definition ConfigMapKeySTSSpec :: string where
  "ConfigMapKeySTSSpec = ''statefulset.json''"
definition LabelMigrationName :: string where
  "LabelMigrationName = ''storage.maurice.fr/migration-name''"
definition LabelReplica :: string where
  "LabelReplica = ''storage.maurice.fr/replica''"
definition LabelVolumeName :: string where
  "LabelVolumeName = ''storage.maurice.fr/volume-name''"
definition FinalizerName :: string where
  "FinalizerName = ''storage.maurice.fr/finalizer''"
definition DefaultMigratorImage :: string where
  "DefaultMigratorImage = ''mauricethomas/migcontroller-migrator:latest''"
definition MessageMigrationCompleted :: string where
  "MessageMigrationCompleted = ''Migration completed successfully''"

lemma annotation_keys_distinct [simp]:
  "AnnotationSTSBackup \<noteq> AnnotationSTSDeleted"
  "AnnotationSTSDeleted \<noteq> AnnotationSTSBackup"
  by (simp_all add: AnnotationSTSBackup_def AnnotationSTSDeleted_def)

lemma phases_distinct [simp]:
  "PhaseValidating \<noteq> PhasePending" "PhaseSyncing \<noteq> PhasePending"
  "PhaseReplacing \<noteq> PhasePending" "PhaseCompleted \<noteq> PhasePending"
  "PhaseFailed \<noteq> PhasePending" "PhaseSyncing \<noteq> PhaseValidating"
  "PhaseReplacing \<noteq> PhaseValidating" "PhaseCompleted \<noteq> PhaseValidating"
  "PhaseFailed \<noteq> PhaseValidating" "PhaseReplacing \<noteq> PhaseSyncing"
  "PhaseCompleted \<noteq> PhaseSyncing" "PhaseFailed \<noteq> PhaseSyncing"
  "PhaseCompleted \<noteq> PhaseReplacing" "PhaseFailed \<noteq> PhaseReplacing"
  "PhaseFailed \<noteq> PhaseCompleted"
  by (simp_all add: phase_defs)

lemmas phases_distinct_sym [simp] = phases_distinct [symmetric]

lemma phases_nonempty [simp]:
  "PhasePending \<noteq> []" "PhaseValidating \<noteq> []" "PhaseSyncing \<noteq> []" "PhaseReplacing \<noteq> []"
  "PhaseCompleted \<noteq> []" "PhaseFailed \<noteq> []"
  by (simp_all add: phase_defs)

lemma volume_phases_distinct [simp]:
  "VolumeStatusPending \<noteq> VolumeStatusCompleted" "VolumeStatusSyncing \<noteq> VolumeStatusCompleted"
  "VolumeStatusSynced \<noteq> VolumeStatusCompleted"
  by (simp_all add: volume_status_defs)

end
