(* ===== verification/Client.thy ===== *)
theory Client
  imports Api
begin

section \<open>The cluster as the program sees it: objects, calls, histories\<close>

text \<open>
  The Kubernetes API server, the other controllers and the client library are not part of the
  repository. They enter the model as one parameter, a \<open>client\<close>: for every call the
  program makes, a function from the history of the run so far (every earlier call with its
  response) and the call's arguments to the response. Nothing else is fixed about it, so a
  theorem over all clients covers every cluster state, every concurrent actor and every failure.
  A run records each call with its response as an \<open>event\<close>; effects live in
  \<open>'a io\<close>, the state monad over the history.

  Objects of \<^verbatim>\<open>k8s.io/api\<close> are records of the fields the program reads or writes; the fields
  it only carries along are one opaque text (\<open>_rest\<close>, empty for the zero value).
  The client also carries the pure library functions the program calls: comparing and printing
  quantities, label selectors, finalizer lists, JSON for StatefulSets.
\<close>

subsection \<open>Objects\<close>

record PersistentVolumeClaim =
  pvc_meta :: ObjectMeta
  pvc_accessModes :: "string list"
  pvc_storageClassName :: "string option"
  pvc_volumeName :: string
  pvc_requests :: "(string, quantity) go_map"
  pvc_phase :: string
  pvc_rest :: string

record PersistentVolume =
  pv_meta :: ObjectMeta
  pv_reclaimPolicy :: string
  pv_claimRef :: "string option"
  pv_rest :: string

record EnvVar =
  env_name :: string
  env_value :: string

record VolumeMount =
  vm_name :: string
  vm_mountPath :: string

record Container =
  ctr_name :: string
  ctr_image :: string
  ctr_imagePullPolicy :: string
  ctr_env :: "EnvVar list"
  ctr_volumeMounts :: "VolumeMount list"

record PodVolume =
  pvol_name :: string
  pvol_claimName :: string

record Pod =
  pod_meta :: ObjectMeta
  pod_restartPolicy :: string
  pod_runAsUser :: "int option"
  pod_runAsGroup :: "int option"
  pod_containers :: "Container list"
  pod_volumes :: "PodVolume list"
  pod_phase :: string

record StatefulSet =
  sts_meta :: ObjectMeta
  sts_replicas :: "int32 option"
  sts_templateLabels :: labels
  sts_volumeClaimTemplates :: "PersistentVolumeClaim list"
  sts_specRest :: string
  sts_statusRest :: string

record LabelSelector =
  ls_matchLabels :: labels
  ls_matchExpressions :: "string list"

record PodDisruptionBudget =
  pdb_meta :: ObjectMeta
  pdb_selector :: "LabelSelector option"
  pdb_disruptionsAllowed :: int32

record StorageClass =
  sc_meta :: ObjectMeta
  sc_volumeBindingMode :: "string option"

record ConfigMap =
  cm_meta :: ObjectMeta
  cm_data :: "(string, string) go_map"

text \<open>Values of the Kubernetes API that the program compares with or writes.\<close>

definition ResourceStorage :: string where "ResourceStorage = ''storage''"
definition ClaimBound :: string where "ClaimBound = ''Bound''"
definition ReclaimRetain :: string where "ReclaimRetain = ''Retain''"
definition PodPending :: string where "PodPending = ''Pending''"
definition PodRunning :: string where "PodRunning = ''Running''"
definition PodSucceeded :: string where "PodSucceeded = ''Succeeded''"
definition PodFailed :: string where "PodFailed = ''Failed''"
definition BindingWaitForFirstConsumer :: string where
  "BindingWaitForFirstConsumer = ''WaitForFirstConsumer''"
definition DeletePropagationOrphan :: string where "DeletePropagationOrphan = ''Orphan''"
definition RestartPolicyNever :: string where "RestartPolicyNever = ''Never''"
definition PullIfNotPresent :: string where "PullIfNotPresent = ''IfNotPresent''"

lemmas pod_phase_defs = PodPending_def PodRunning_def PodSucceeded_def PodFailed_def

lemma pod_phases_distinct [simp]:
  "PodSucceeded \<noteq> PodFailed" "PodFailed \<noteq> PodSucceeded" "PodSucceeded \<noteq> PodRunning"
  "PodRunning \<noteq> PodSucceeded" "PodSucceeded \<noteq> PodPending" "PodPending \<noteq> PodSucceeded"
  "PodRunning \<noteq> PodFailed" "PodFailed \<noteq> PodRunning" "PodPending \<noteq> PodFailed"
  "PodFailed \<noteq> PodPending"
  by (simp_all add: pod_phase_defs)

subsection \<open>Events and histories\<close>

text \<open>
  One constructor per call, with its arguments and its response. A call that only reports
  success has an \<open>option\<close>: \<open>None\<close> is \<^verbatim>\<open>nil\<close>, \<open>Some e\<close> the error. The last
  group belongs to the command line tool.
\<close>

datatype event =
    EvNow int
  | EvSleep duration
  | EvWaitOrCancel duration bool
  | EvGetVR string string "go_error + VolumeResize"
  | EvUpdateVR VolumeResize "go_error + VolumeResize"
  | EvStatusVR VolumeResize "go_error + VolumeResize"
  | EvGetSTS string string "go_error + StatefulSet"
  | EvCreateSTS StatefulSet "go_error option"
  | EvDeleteSTS string string string "go_error option"
  | EvGetPVC string string "go_error + PersistentVolumeClaim"
  | EvCreatePVC PersistentVolumeClaim "go_error + PersistentVolumeClaim"
  | EvDeletePVC string string "go_error option"
  | EvListPVC string string string "go_error + PersistentVolumeClaim list"
  | EvGetPV string "go_error + PersistentVolume"
  | EvUpdatePV PersistentVolume "go_error + PersistentVolume"
  | EvGetPod string string "go_error + Pod"
  | EvCreatePod Pod "go_error + Pod"
  | EvDeletePod string string "go_error option"
  | EvListPods string string string "go_error + Pod list"
  | EvGetCM string string "go_error + ConfigMap"
  | EvCreateCM ConfigMap "go_error option"
  | EvGetSC string "go_error + StorageClass"
  | EvListPDB string "go_error + PodDisruptionBudget list"
  | EvCreateVR VolumeResize "go_error + VolumeResize"
  | EvDeleteVR string string "go_error option"
  | EvListVR "string option" "go_error + VolumeResize list"
  | EvPrint string
  | EvPrintErr string

type_synonym history = "event list"

type_synonym 'a io = "(history, 'a) state"

text \<open>
  The clock reads nanoseconds since the epoch of 1970. Go's clock is monotonic: sleeping moves it on
  by at least the time slept, and a reading moves it on by whatever the client says has passed.
\<close>

fun elapsed :: "event \<Rightarrow> int \<Rightarrow> int" where
  "elapsed (EvNow t) now = t"
| "elapsed (EvSleep d) now = now + max 0 d"
| "elapsed (EvWaitOrCancel d cancelled) now = (if cancelled then now else now + max 0 d)"
| "elapsed _ now = now"

definition clock :: "history \<Rightarrow> int" where
  "clock h = fold elapsed h 0"

subsection \<open>The client: everything outside the repository\<close>

record client =
  c_drift :: "history \<Rightarrow> nat"
  c_cancelled :: "history \<Rightarrow> bool"
  c_ctxErr :: go_error
  c_getVR :: "history \<Rightarrow> string \<Rightarrow> string \<Rightarrow> go_error + VolumeResize"
  c_updateVR :: "history \<Rightarrow> VolumeResize \<Rightarrow> go_error + VolumeResize"
  c_statusVR :: "history \<Rightarrow> VolumeResize \<Rightarrow> go_error + VolumeResize"
  c_getSTS :: "history \<Rightarrow> string \<Rightarrow> string \<Rightarrow> go_error + StatefulSet"
  c_createSTS :: "history \<Rightarrow> StatefulSet \<Rightarrow> go_error option"
  c_deleteSTS :: "history \<Rightarrow> string \<Rightarrow> string \<Rightarrow> string \<Rightarrow> go_error option"
  c_getPVC :: "history \<Rightarrow> string \<Rightarrow> string \<Rightarrow> go_error + PersistentVolumeClaim"
  c_createPVC :: "history \<Rightarrow> PersistentVolumeClaim \<Rightarrow> go_error + PersistentVolumeClaim"
  c_deletePVC :: "history \<Rightarrow> string \<Rightarrow> string \<Rightarrow> go_error option"
  c_listPVC :: "history \<Rightarrow> string \<Rightarrow> string \<Rightarrow> string \<Rightarrow> go_error + PersistentVolumeClaim list"
  c_getPV :: "history \<Rightarrow> string \<Rightarrow> go_error + PersistentVolume"
  c_updatePV :: "history \<Rightarrow> PersistentVolume \<Rightarrow> go_error + PersistentVolume"
  c_getPod :: "history \<Rightarrow> string \<Rightarrow> string \<Rightarrow> go_error + Pod"
  c_createPod :: "history \<Rightarrow> Pod \<Rightarrow> go_error + Pod"
  c_deletePod :: "history \<Rightarrow> string \<Rightarrow> string \<Rightarrow> go_error option"
  c_listPods :: "history \<Rightarrow> string \<Rightarrow> string \<Rightarrow> string \<Rightarrow> go_error + Pod list"
  c_getCM :: "history \<Rightarrow> string \<Rightarrow> string \<Rightarrow> go_error + ConfigMap"
  c_createCM :: "history \<Rightarrow> ConfigMap \<Rightarrow> go_error option"
  c_getSC :: "history \<Rightarrow> string \<Rightarrow> go_error + StorageClass"
  c_listPDB :: "history \<Rightarrow> string \<Rightarrow> go_error + PodDisruptionBudget list"
  c_inClusterConfig :: "go_error + string"
  c_buildConfig :: "string \<Rightarrow> go_error + string"
  c_newClient :: "string \<Rightarrow> go_error option"
  c_createVR :: "history \<Rightarrow> VolumeResize \<Rightarrow> go_error + VolumeResize"
  c_deleteVR :: "history \<Rightarrow> string \<Rightarrow> string \<Rightarrow> go_error option"
  c_listVR :: "history \<Rightarrow> string option \<Rightarrow> go_error + VolumeResize list"
  l_quantityCmp :: "quantity \<Rightarrow> quantity \<Rightarrow> int"
  l_quantityString :: "quantity \<Rightarrow> string"
  l_parseQuantity :: "string \<Rightarrow> go_error + quantity"
  l_storageRequest :: "(string, quantity) go_map \<Rightarrow> quantity option"
  l_selectorFromSet :: "labels \<Rightarrow> go_error + (labels \<Rightarrow> bool)"
  l_containsFinalizer :: "string list \<Rightarrow> string \<Rightarrow> bool"
  l_addFinalizer :: "string list \<Rightarrow> string \<Rightarrow> string list"
  l_removeFinalizer :: "string list \<Rightarrow> string \<Rightarrow> string list"
  l_marshalSTS :: "StatefulSet \<Rightarrow> go_error + string"
  l_unmarshalSTS :: "string \<Rightarrow> go_error + StatefulSet"
  l_formatTime :: "string \<Rightarrow> int \<Rightarrow> string"

subsection \<open>Calls\<close>

text \<open>A call asks the client for the response at the current history and records both.\<close>

definition perform :: "(history \<Rightarrow> 'r) \<Rightarrow> ('r \<Rightarrow> event) \<Rightarrow> 'r io" where
  "perform ask ev = State (\<lambda>h. (ask h, h @ [ev (ask h)]))"

definition ret :: "'a \<Rightarrow> 'a io" where
  "ret x = State_Monad.return x"

definition Now :: "client \<Rightarrow> int io" where
  "Now c = perform (\<lambda>h. clock h + int (c_drift c h)) EvNow"

definition Sleep :: "duration \<Rightarrow> unit io" where
  "Sleep d = perform (\<lambda>_. ()) (\<lambda>_. EvSleep d)"

text \<open>
  \<^verbatim>\<open>select\<close> between \<^verbatim>\<open><-ctx.Done()\<close> and \<^verbatim>\<open><-time.After(d)\<close>: true when the context was
  cancelled first.
\<close>

definition WaitOrCancel :: "client \<Rightarrow> duration \<Rightarrow> bool io" where
  "WaitOrCancel c d = perform (c_cancelled c) (EvWaitOrCancel d)"

definition GetVR :: "client \<Rightarrow> string \<Rightarrow> string \<Rightarrow> (go_error + VolumeResize) io" where
  "GetVR c ns n = perform (\<lambda>h. c_getVR c h ns n) (EvGetVR ns n)"

definition UpdateVR :: "client \<Rightarrow> VolumeResize \<Rightarrow> (go_error + VolumeResize) io" where
  "UpdateVR c v = perform (\<lambda>h. c_updateVR c h v) (EvUpdateVR v)"

definition StatusUpdateVR :: "client \<Rightarrow> VolumeResize \<Rightarrow> (go_error + VolumeResize) io" where
  "StatusUpdateVR c v = perform (\<lambda>h. c_statusVR c h v) (EvStatusVR v)"

definition GetSTS :: "client \<Rightarrow> string \<Rightarrow> string \<Rightarrow> (go_error + StatefulSet) io" where
  "GetSTS c ns n = perform (\<lambda>h. c_getSTS c h ns n) (EvGetSTS ns n)"

definition CreateSTS :: "client \<Rightarrow> StatefulSet \<Rightarrow> go_error option io" where
  "CreateSTS c s = perform (\<lambda>h. c_createSTS c h s) (EvCreateSTS s)"

definition DeleteSTS :: "client \<Rightarrow> string \<Rightarrow> string \<Rightarrow> string \<Rightarrow> go_error option io" where
  "DeleteSTS c ns n policy = perform (\<lambda>h. c_deleteSTS c h ns n policy) (EvDeleteSTS ns n policy)"

definition GetPVC :: "client \<Rightarrow> string \<Rightarrow> string \<Rightarrow> (go_error + PersistentVolumeClaim) io" where
  "GetPVC c ns n = perform (\<lambda>h. c_getPVC c h ns n) (EvGetPVC ns n)"

definition CreatePVC :: "client \<Rightarrow> PersistentVolumeClaim \<Rightarrow> (go_error + PersistentVolumeClaim) io" where
  "CreatePVC c p = perform (\<lambda>h. c_createPVC c h p) (EvCreatePVC p)"

definition DeletePVC :: "client \<Rightarrow> string \<Rightarrow> string \<Rightarrow> go_error option io" where
  "DeletePVC c ns n = perform (\<lambda>h. c_deletePVC c h ns n) (EvDeletePVC ns n)"

definition ListPVC :: "client \<Rightarrow> string \<Rightarrow> string \<Rightarrow> string \<Rightarrow> (go_error + PersistentVolumeClaim list) io" where
  "ListPVC c ns key val = perform (\<lambda>h. c_listPVC c h ns key val) (EvListPVC ns key val)"

definition GetPV :: "client \<Rightarrow> string \<Rightarrow> (go_error + PersistentVolume) io" where
  "GetPV c n = perform (\<lambda>h. c_getPV c h n) (EvGetPV n)"

definition UpdatePV :: "client \<Rightarrow> PersistentVolume \<Rightarrow> (go_error + PersistentVolume) io" where
  "UpdatePV c p = perform (\<lambda>h. c_updatePV c h p) (EvUpdatePV p)"

definition GetPod :: "client \<Rightarrow> string \<Rightarrow> string \<Rightarrow> (go_error + Pod) io" where
  "GetPod c ns n = perform (\<lambda>h. c_getPod c h ns n) (EvGetPod ns n)"

definition CreatePod :: "client \<Rightarrow> Pod \<Rightarrow> (go_error + Pod) io" where
  "CreatePod c p = perform (\<lambda>h. c_createPod c h p) (EvCreatePod p)"

definition DeletePod :: "client \<Rightarrow> string \<Rightarrow> string \<Rightarrow> go_error option io" where
  "DeletePod c ns n = perform (\<lambda>h. c_deletePod c h ns n) (EvDeletePod ns n)"

definition ListPods :: "client \<Rightarrow> string \<Rightarrow> string \<Rightarrow> string \<Rightarrow> (go_error + Pod list) io" where
  "ListPods c ns key val = perform (\<lambda>h. c_listPods c h ns key val) (EvListPods ns key val)"

definition GetCM :: "client \<Rightarrow> string \<Rightarrow> string \<Rightarrow> (go_error + ConfigMap) io" where
  "GetCM c ns n = perform (\<lambda>h. c_getCM c h ns n) (EvGetCM ns n)"

definition CreateCM :: "client \<Rightarrow> ConfigMap \<Rightarrow> go_error option io" where
  "CreateCM c m = perform (\<lambda>h. c_createCM c h m) (EvCreateCM m)"

definition GetSC :: "client \<Rightarrow> string \<Rightarrow> (go_error + StorageClass) io" where
  "GetSC c n = perform (\<lambda>h. c_getSC c h n) (EvGetSC n)"

definition ListPDB :: "client \<Rightarrow> string \<Rightarrow> (go_error + PodDisruptionBudget list) io" where
  "ListPDB c ns = perform (\<lambda>h. c_listPDB c h ns) (EvListPDB ns)"

definition CreateVR :: "client \<Rightarrow> VolumeResize \<Rightarrow> (go_error + VolumeResize) io" where
  "CreateVR c v = perform (\<lambda>h. c_createVR c h v) (EvCreateVR v)"

definition DeleteVR :: "client \<Rightarrow> string \<Rightarrow> string \<Rightarrow> go_error option io" where
  "DeleteVR c ns n = perform (\<lambda>h. c_deleteVR c h ns n) (EvDeleteVR ns n)"

definition ListVR :: "client \<Rightarrow> string option \<Rightarrow> (go_error + VolumeResize list) io" where
  "ListVR c ns = perform (\<lambda>h. c_listVR c h ns) (EvListVR ns)"

text \<open>Writing to the two streams of a terminal; successive writes to one may be one event.\<close>

definition Print :: "string \<Rightarrow> unit io" where
  "Print s = perform (\<lambda>_. ()) (\<lambda>_. EvPrint s)"

definition PrintErr :: "string \<Rightarrow> unit io" where
  "PrintErr s = perform (\<lambda>_. ()) (\<lambda>_. EvPrintErr s)"

lemmas call_defs [run_defs] = Now_def Sleep_def WaitOrCancel_def GetVR_def UpdateVR_def
  StatusUpdateVR_def GetSTS_def CreateSTS_def DeleteSTS_def GetPVC_def CreatePVC_def
  DeletePVC_def ListPVC_def GetPV_def UpdatePV_def GetPod_def CreatePod_def DeletePod_def
  ListPods_def GetCM_def CreateCM_def GetSC_def ListPDB_def CreateVR_def DeleteVR_def ListVR_def
  Print_def PrintErr_def

lemma clock_append [simp]: "clock (h @ [e]) = elapsed e (clock h)"
  by (simp add: clock_def)

end
