(* ===== verification/Trace_Logic.thy ===== *)
theory Trace_Logic
  imports Client
begin

section \<open>Reasoning about runs\<close>

text \<open>
  \<open>wp m Q h\<close> says that running \<open>m\<close> at history \<open>h\<close> ends with a result and a
  history that satisfy \<open>Q\<close>; its equations run an operation symbolically. A \<^emph>\<open>policy\<close>
  says which events are justified by which past; a history is \<open>compliant\<close> with it when every
  event is justified by the events before it. The locales below prove once, for every policy that
  leaves some events free, that the operations made of those events only keep a history compliant.
\<close>

subsection \<open>Weakest preconditions\<close>

definition wp :: "'a io \<Rightarrow> ('a \<Rightarrow> history \<Rightarrow> bool) \<Rightarrow> history \<Rightarrow> bool" where
  "wp m Q h = (case run_state m h of (a, h') \<Rightarrow> Q a h')"

definition result :: "'a io \<Rightarrow> history \<Rightarrow> 'a" where
  "result m h = fst (run_state m h)"

definition trace :: "'a io \<Rightarrow> history \<Rightarrow> history" where
  "trace m h = snd (run_state m h)"

lemma wp_iff: "wp m Q h \<longleftrightarrow> Q (result m h) (trace m h)"
  by (simp add: wp_def result_def trace_def split: prod.split)

lemma wp_bind [simp]: "wp (State_Monad.bind m f) Q = wp m (\<lambda>a. wp (f a) Q)"
  by (rule ext) (simp add: wp_def split: prod.split)

lemma wp_ret [simp]: "wp (ret x) Q = Q x"
  by (rule ext) (simp add: wp_def ret_def)

lemma wp_return [simp]: "wp (State_Monad.return x) Q = Q x"
  by (rule ext) (simp add: wp_def)

text \<open>
  \<open>snoc\<close> is appending one event, kept folded so that a symbolic run reads as the sequence of
  its calls.
\<close>

definition snoc :: "history \<Rightarrow> event \<Rightarrow> history" where
  "snoc h e = h @ [e]"

lemma set_snoc [simp]: "set (snoc h e) = insert e (set h)"
  by (auto simp: snoc_def)

text \<open>What a later history still contains.\<close>

definition grows :: "history \<Rightarrow> history \<Rightarrow> bool" where
  "grows h h' \<longleftrightarrow> set h \<subseteq> set h'"

lemma grows_refl [simp]: "grows h h"
  by (simp add: grows_def)

lemma grows_trans [trans]: "grows h h' \<Longrightarrow> grows h' h'' \<Longrightarrow> grows h h''"
  by (auto simp: grows_def)

lemma grows_snoc [simp]: "grows h h' \<Longrightarrow> grows h (snoc h' e)"
  by (auto simp: grows_def)

lemma snoc_grows [simp]: "grows (snoc h e) h' \<longleftrightarrow> grows h h' \<and> e \<in> set h'"
  by (auto simp: grows_def)

lemma growsD: "grows h h' \<Longrightarrow> e \<in> set h \<Longrightarrow> e \<in> set h'"
  by (auto simp: grows_def)

lemma wp_perform: "wp (perform ask ev) Q h = Q (ask h) (snoc h (ev (ask h)))"
  by (simp add: wp_def perform_def snoc_def)

text \<open>The rule for a call whose response may be anything.\<close>

lemma wp_call [run_rules]: "(\<And>r. Q r (snoc h (ev r))) \<Longrightarrow> wp (perform ask ev) Q h"
  by (simp add: wp_perform)

lemma wp_mono: "wp m Q h \<Longrightarrow> (\<And>a h'. Q a h' \<Longrightarrow> R a h') \<Longrightarrow> wp m R h"
  by (simp add: wp_iff)

lemma wp_conj: "wp m Q h \<Longrightarrow> wp m R h \<Longrightarrow> wp m (\<lambda>a h'. Q a h' \<and> R a h') h"
  by (simp add: wp_iff)

lemma wp_if: "wp (if b then m else n) Q h = (if b then wp m Q h else wp n Q h)"
  by simp

lemma wp_case_sum:
  "wp (case x of Inl a \<Rightarrow> f a | Inr b \<Rightarrow> g b) Q h = (case x of Inl a \<Rightarrow> wp (f a) Q h | Inr b \<Rightarrow> wp (g b) Q h)"
  by (simp split: sum.split)

lemma wp_case_option:
  "wp (case x of None \<Rightarrow> m | Some b \<Rightarrow> g b) Q h = (case x of None \<Rightarrow> wp m Q h | Some b \<Rightarrow> wp (g b) Q h)"
  by (simp split: option.split)

lemmas wp_cases [run_defs] = wp_if wp_case_sum wp_case_option

subsection \<open>Policies and compliance\<close>

type_synonym policy = "history \<Rightarrow> event \<Rightarrow> bool"

definition compliant :: "policy \<Rightarrow> history \<Rightarrow> bool" where
  "compliant G h \<longleftrightarrow> (\<forall>i<length h. G (take i h) (h ! i))"

lemma compliant_Nil [simp]: "compliant G []"
  by (simp add: compliant_def)

lemma compliant_snoc [simp]: "compliant G (h @ [e]) \<longleftrightarrow> compliant G h \<and> G h e"
  by (auto simp: compliant_def nth_append less_Suc_eq)

lemma compliant_log [simp]: "compliant G (snoc h e) \<longleftrightarrow> compliant G h \<and> G h e"
  by (simp add: snoc_def)

lemma compliant_prefix: "compliant G (h @ t) \<Longrightarrow> compliant G h"
proof (induction t rule: rev_induct)
  case Nil
  then show ?case by simp
next
  case (snoc e t)
  then have "compliant G ((h @ t) @ [e])" by simp
  then show ?case using snoc.IH by (simp only: compliant_snoc)
qed

lemma compliant_event: "compliant G (pre @ e # post) \<Longrightarrow> G pre e"
  using compliant_prefix [of G "pre @ [e]" post] by simp

lemma compliant_mono: "compliant G h \<Longrightarrow> (\<And>p e. G p e \<Longrightarrow> F p e) \<Longrightarrow> compliant F h"
  by (simp add: compliant_def)

lemma compliant_conj:
  "compliant (\<lambda>p e. G p e \<and> F p e) h \<longleftrightarrow> compliant G h \<and> compliant F h"
  by (auto simp: compliant_def)

subsection \<open>What every run does: it only appends\<close>

definition appends :: "'a io \<Rightarrow> bool" where
  "appends m \<longleftrightarrow> (\<forall>h. \<exists>t. trace m h = h @ t)"

lemma trace_ret [simp]: "trace (ret x) h = h"
  by (simp add: trace_def ret_def)

lemma trace_perform [simp]: "trace (perform ask ev) h = h @ [ev (ask h)]"
  by (simp add: trace_def perform_def)

lemma result_ret [simp]: "result (ret x) h = x"
  by (simp add: result_def ret_def)

lemma result_perform [simp]: "result (perform ask ev) h = ask h"
  by (simp add: result_def perform_def)

lemma trace_bind [simp]: "trace (State_Monad.bind m f) h = trace (f (result m h)) (trace m h)"
  by (simp add: trace_def result_def split: prod.split)

lemma result_bind [simp]: "result (State_Monad.bind m f) h = result (f (result m h)) (trace m h)"
  by (simp add: trace_def result_def split: prod.split)

lemma appendsE: "appends m \<Longrightarrow> (\<And>t. trace m h = h @ t \<Longrightarrow> P) \<Longrightarrow> P"
  by (auto simp: appends_def)

subsection \<open>Kinds of events\<close>

text \<open>Reads and time change nothing in the cluster.\<close>

fun is_read :: "event \<Rightarrow> bool" where
  "is_read (EvNow _) = True"
| "is_read (EvSleep _) = True"
| "is_read (EvWaitOrCancel _ _) = True"
| "is_read (EvGetVR _ _ _) = True"
| "is_read (EvGetSTS _ _ _) = True"
| "is_read (EvGetPVC _ _ _) = True"
| "is_read (EvListPVC _ _ _ _) = True"
| "is_read (EvGetPV _ _) = True"
| "is_read (EvGetPod _ _ _) = True"
| "is_read (EvListPods _ _ _ _) = True"
| "is_read (EvGetCM _ _ _) = True"
| "is_read (EvGetSC _ _) = True"
| "is_read (EvListPDB _ _) = True"
| "is_read (EvListVR _ _) = True"
| "is_read _ = False"

text \<open>Events that read or write the VolumeResize object itself.\<close>

fun touches_vr :: "event \<Rightarrow> bool" where
  "touches_vr (EvGetVR _ _ _) = True"
| "touches_vr (EvUpdateVR _ _) = True"
| "touches_vr (EvStatusVR _ _) = True"
| "touches_vr (EvCreateVR _ _) = True"
| "touches_vr (EvDeleteVR _ _ _) = True"
| "touches_vr (EvListVR _ _) = True"
| "touches_vr _ = False"

text \<open>Reads that leave the VolumeResize alone.\<close>

definition quiet :: "event \<Rightarrow> bool" where
  "quiet e \<longleftrightarrow> is_read e \<and> \<not> touches_vr e"

lemma quiet_simps [simp]:
  "quiet (EvNow t)" "quiet (EvSleep d)" "quiet (EvWaitOrCancel d b)" "quiet (EvGetSTS ns n res)"
  "quiet (EvGetPVC ns n res')" "quiet (EvGetPV n res'')" "quiet (EvGetPod ns n p)"
  "quiet (EvGetCM ns n m)" "quiet (EvGetSC n sc)" "quiet (EvListPDB ns l)"
  by (simp_all add: quiet_def)

text \<open>
  The VolumeResize as the API server last answered with it: the version that is stored, as far as
  the run can know.
\<close>

fun answered :: "event \<Rightarrow> VolumeResize option" where
  "answered (EvGetVR _ _ (Inr v)) = Some v"
| "answered (EvUpdateVR _ (Inr v)) = Some v"
| "answered (EvStatusVR _ (Inr v)) = Some v"
| "answered (EvCreateVR _ (Inr v)) = Some v"
| "answered _ = None"

definition latest :: "history \<Rightarrow> VolumeResize option" where
  "latest h = fold (\<lambda>e v. case answered e of None \<Rightarrow> v | Some w \<Rightarrow> Some w) h None"

lemma latest_Nil [simp]: "latest [] = None"
  by (simp add: latest_def)

lemma latest_append [simp]: "latest (h @ [e]) = (case answered e of None \<Rightarrow> latest h | Some w \<Rightarrow> Some w)"
  by (cases "answered e") (simp_all add: latest_def)

lemma latest_snoc [simp]: "latest (snoc h e) = (case answered e of None \<Rightarrow> latest h | Some w \<Rightarrow> Some w)"
  by (simp add: snoc_def)

lemma untouched_answer: "\<not> touches_vr e \<Longrightarrow> answered e = None"
  by (cases e) simp_all

lemma latest_untouched: "list_all (\<lambda>e. \<not> touches_vr e) t \<Longrightarrow> latest (h @ t) = latest h"
  by (induction t rule: rev_induct)
    (simp_all add: untouched_answer append_assoc [symmetric] del: append_assoc)

text \<open>
  \<open>only K m\<close>: every event \<open>m\<close> appends, from any history and any client behaviour, is of
  kind \<open>K\<close>. It composes without preconditions, so it is proved once per operation.
\<close>

definition only :: "(event \<Rightarrow> bool) \<Rightarrow> 'a io \<Rightarrow> bool" where
  "only K m \<longleftrightarrow> (\<forall>h. \<exists>t. trace m h = h @ t \<and> list_all K t)"

lemma only_ret [simp]: "only K (ret x)"
  by (simp add: only_def)

lemma only_perform [simp]: "(\<And>r. K (ev r)) \<Longrightarrow> only K (perform ask ev)"
  by (auto simp: only_def)

lemma only_bind [intro]:
  assumes "only K m" and "\<And>a. only K (f a)"
  shows "only K (State_Monad.bind m f)"
  unfolding only_def
proof
  fix h
  obtain t where t: "trace m h = h @ t" "list_all K t"
    using assms(1) by (auto simp: only_def)
  obtain u where u: "trace (f (result m h)) (h @ t) = (h @ t) @ u" "list_all K u"
    using assms(2) unfolding only_def by blast
  have "trace (State_Monad.bind m f) h = h @ (t @ u) \<and> list_all K (t @ u)"
    using t u by simp
  then show "\<exists>v. trace (State_Monad.bind m f) h = h @ v \<and> list_all K v"
    by blast
qed

lemma only_mono: "only K m \<Longrightarrow> (\<And>e. K e \<Longrightarrow> L e) \<Longrightarrow> only L m"
  unfolding only_def by (metis list.pred_mono_strong)

lemma only_appends: "only K m \<Longrightarrow> appends m"
  by (auto simp: only_def appends_def)

lemma only_sum [intro]:
  "(\<And>a. only K (f a)) \<Longrightarrow> (\<And>b. only K (g b)) \<Longrightarrow> only K (case x of Inl a \<Rightarrow> f a | Inr b \<Rightarrow> g b)"
  by (cases x) simp_all

lemma only_option [intro]:
  "only K m \<Longrightarrow> (\<And>b. only K (g b)) \<Longrightarrow> only K (case x of None \<Rightarrow> m | Some b \<Rightarrow> g b)"
  by (cases x) simp_all

lemma only_if [simp]: "only K m \<Longrightarrow> only K n \<Longrightarrow> only K (if b then m else n)"
  by simp

subsection \<open>Policies that leave a kind of event free\<close>

text \<open>
  The interface between a policy and the operations: \<open>K\<close>-events are free of obligations. Then
  any operation that only makes \<open>K\<close>-events keeps the history compliant, whatever it returns.
\<close>

locale policy_free =
  fixes G :: policy and K :: "event \<Rightarrow> bool"
  assumes free: "K e \<Longrightarrow> G h e"
begin

lemma compliant_extend: "compliant G h \<Longrightarrow> list_all K t \<Longrightarrow> compliant G (h @ t)"
proof (induction t rule: rev_induct)
  case Nil
  then show ?case by simp
next
  case (snoc e t)
  then have "compliant G (h @ t)" and "G (h @ t) e" by (simp_all add: free)
  then show ?case
    by (simp only: append_assoc [symmetric] compliant_snoc)
qed

lemma only_compliant: "only K m \<Longrightarrow> compliant G h \<Longrightarrow> compliant G (trace m h)"
  unfolding only_def by (metis compliant_extend)

lemma wp_only:
  assumes "only K m" and "compliant G h"
    and "\<And>a h'. compliant G h' \<Longrightarrow> grows h h' \<Longrightarrow> Q a h'"
  shows "wp m Q h"
proof -
  obtain t where t: "trace m h = h @ t" "list_all K t"
    using assms(1) by (auto simp: only_def)
  then have "compliant G (h @ t)"
    using assms(2) by (simp add: compliant_extend)
  with t show ?thesis
    by (simp add: wp_iff assms(3) grows_def)
qed

end

end
