(* ===== verification/Naming.thy ===== *)
theory Naming
  imports Trace_Logic
begin

section \<open>Names per replica\<close>

text \<open>
  The controller finds objects by names built from the replica number: pods, original and
  temporary claims, migrator pods. All of these builders share one law, that two replicas never
  share a name, and two of them share another, that they never meet. The locales state the laws
  and what the controller gains from them; the theories that declare the builders interpret them.
\<close>

locale replica_naming =
  fixes nm :: "'k \<Rightarrow> int32 \<Rightarrow> string"
  assumes per_replica: "nm k i = nm k j \<Longrightarrow> i = j"
begin

lemma name_eq_iff: "nm k i = nm k j \<longleftrightarrow> i = j"
  using per_replica by blast

lemma names_distinct: "distinct (map (nm k) rs) \<longleftrightarrow> distinct rs"
  by (auto simp: distinct_map inj_on_def dest: per_replica)

lemma name_in_iff: "nm k i \<in> nm k ` R \<longleftrightarrow> i \<in> R"
  by (auto dest: per_replica)

end

locale separate_namings = replica_naming nm for nm :: "'k \<Rightarrow> int32 \<Rightarrow> string" +
  fixes nm' :: "'k \<Rightarrow> int32 \<Rightarrow> string"
  assumes per_replica': "nm' k i = nm' k j \<Longrightarrow> i = j"
    and separate: "nm k i \<noteq> nm' k' j"
begin

lemma all_distinct: "distinct rs \<Longrightarrow> distinct ss \<Longrightarrow> distinct (map (nm k) rs @ map (nm' k) ss)"
proof -
  assume "distinct rs" "distinct ss"
  then have "distinct (map (nm k) rs)" "distinct (map (nm' k) ss)"
    by (auto simp: distinct_map inj_on_def dest: per_replica per_replica')
  moreover have "set (map (nm k) rs) \<inter> set (map (nm' k) ss) = {}"
    using separate by auto
  ultimately show ?thesis by simp
qed

end

text \<open>A name whose last part is a dash and the replica number determines the replica.\<close>

lemma dash_number_inject [name_defs]: "p @ ''-'' @ showInt32 i = p @ ''-'' @ showInt32 j \<longleftrightarrow> i = j"
  by simp

end
