(* ===== verification/Idempotent.thy ===== *)
theory Idempotent
  imports Trace_Logic
begin

section \<open>Looking before creating\<close>

text \<open>
  The reconciler may be called again at any moment, so what it creates it looks for first: the
  temporary claim and the migrator pod are created by operations of one shape. The locale states
  the shape and proves what makes a second call harmless: an object that is there is returned and
  nothing is written.
\<close>

locale get_or_create =
  fixes op :: "(go_error + 'a) io"
    and look :: "(go_error + 'a) io"
    and make :: "(go_error + 'a) io"
    and on_look :: "go_error \<Rightarrow> go_error" and on_make :: "go_error \<Rightarrow> go_error"
  assumes op_eq: "op = do {
      r \<leftarrow> look;
      case r of
        Inr x \<Rightarrow> ret (Inr x)
      | Inl err \<Rightarrow>
          if \<not> IsNotFound err then ret (Inl (on_look err))
          else do {
            m \<leftarrow> make;
            case m of Inl err \<Rightarrow> ret (Inl (on_make err)) | Inr x \<Rightarrow> ret (Inr x)
          }
    }"
begin

lemma op_existing: "result look h = Inr x \<Longrightarrow> result op h = Inr x \<and> trace op h = trace look h"
  by (simp add: op_eq)

lemma op_failing: "result look h = Inl err \<Longrightarrow> \<not> IsNotFound err \<Longrightarrow>
  result op h = Inl (on_look err) \<and> trace op h = trace look h"
  by (simp add: op_eq)

lemma op_missing: "result look h = Inl err \<Longrightarrow> IsNotFound err \<Longrightarrow>
  trace op h = trace make (trace look h) \<and>
  result op h = (case result make (trace look h) of Inl e \<Rightarrow> Inl (on_make e) | Inr x \<Rightarrow> Inr x)"
  by (simp add: op_eq split: sum.split)

text \<open>What a successful call returns is either what was there or what was made.\<close>

lemma op_success:
  assumes "result op h = Inr x"
  shows "result look h = Inr x \<and> trace op h = trace look h \<or>
    (\<exists>err. result look h = Inl err \<and> IsNotFound err \<and> result make (trace look h) = Inr x \<and>
       trace op h = trace make (trace look h))"
  using assms by (auto simp: op_eq split: sum.splits if_splits)

end

end
