(* ===== verification/Pvc.thy ===== *)
theory Pvc
  imports Naming Idempotent
begin

section \<open>Claims and volumes (internal/controller/pvc.go)\<close>

text \<open>
  The names of the original and the temporary claim of a replica, the creation of the temporary
  claim, the retain policy of a volume, and \<open>replacePVC\<close>, which puts a claim with the original
  name on the new volume. An operation that returns \<^verbatim>\<open>(x, error)\<close> returns a sum, one that
  returns only an \<^verbatim>\<open>error\<close> an option.
\<close>

subsection \<open>Names\<close>

definition getOriginalPVCName :: "string \<Rightarrow> string \<Rightarrow> int32 \<Rightarrow> string" where
  "getOriginalPVCName volumeName stsName replica =
     volumeName @ ''-'' @ stsName @ ''-'' @ showInt32 replica"

definition getTempPVCName :: "string \<Rightarrow> string \<Rightarrow> int32 \<Rightarrow> string" where
  "getTempPVCName volumeName stsName replica =
     volumeName @ ''-'' @ stsName @ ''-'' @ showInt32 replica @ ''-new''"

subsection \<open>Operations\<close>

definition getPVC :: "client \<Rightarrow> string \<Rightarrow> string \<Rightarrow> (go_error + PersistentVolumeClaim) io" where
  "getPVC c namespace name = do {
     r \<leftarrow> GetPVC c namespace name;
     case r of
       Inl err \<Rightarrow> ret (Inl err)
     | Inr pvc \<Rightarrow> ret (Inr pvc)
   }"

text \<open>The composite literal of lines 75-97.\<close>

definition tempPVCFor :: "VolumeResize \<Rightarrow> VolumeResizeTarget \<Rightarrow> PersistentVolumeClaim \<Rightarrow> int32 \<Rightarrow> PersistentVolumeClaim" where
  "tempPVCFor vr vol originalPVC replica =
     \<lparr>pvc_meta = zeroMeta\<lparr>
        om_name := getTempPVCName (vt_name vol) (vrSTS vr) replica,
        om_namespace := vrNamespace vr,
        om_labels := Some [LabelMigrationName \<mapsto> vrName vr,
                           LabelReplica \<mapsto> showInt32 replica,
                           LabelVolumeName \<mapsto> vt_name vol],
        om_annotations := Some [AnnotationManagedBy \<mapsto> ''volume-resize-operator'']\<rparr>,
      pvc_accessModes = pvc_accessModes originalPVC,
      pvc_storageClassName =
        (if vt_storageClass vol \<noteq> None then vt_storageClass vol
         else pvc_storageClassName originalPVC),
      pvc_volumeName = '''',
      pvc_requests = Some [ResourceStorage \<mapsto> vt_newSize vol],
      pvc_phase = '''',
      pvc_rest = ''''\<rparr>"

definition createTempPVC :: "client \<Rightarrow> VolumeResize \<Rightarrow> VolumeResizeTarget \<Rightarrow> PersistentVolumeClaim \<Rightarrow> int32 \<Rightarrow> (go_error + PersistentVolumeClaim) io" where
  "createTempPVC c vr vol originalPVC replica = do {
     existingPVC \<leftarrow> getPVC c (vrNamespace vr) (getTempPVCName (vt_name vol) (vrSTS vr) replica);
     case existingPVC of
       Inr p \<Rightarrow> ret (Inr p)
     | Inl err \<Rightarrow>
         if \<not> IsNotFound err
         then ret (Inl (wrapf ''failed to check for existing temp PVC'' err))
         else do {
           created \<leftarrow> CreatePVC c (tempPVCFor vr vol originalPVC replica);
           case created of
             Inl err \<Rightarrow> ret (Inl (wrapf ''failed to create temp PVC'' err))
           | Inr tempPVC \<Rightarrow> ret (Inr tempPVC)
         }
   }"

definition setRetainOnPV :: "client \<Rightarrow> string \<Rightarrow> go_error option io" where
  "setRetainOnPV c pvName = do {
     r \<leftarrow> GetPV c pvName;
     case r of
       Inl err \<Rightarrow> ret (Some (wrapf (''failed to get PV '' @ pvName) err))
     | Inr pv \<Rightarrow>
         if pv_reclaimPolicy pv = ReclaimRetain then ret None
         else do {
           u \<leftarrow> UpdatePV c (pv\<lparr>pv_reclaimPolicy := ReclaimRetain\<rparr>);
           case u of
             Inl err \<Rightarrow> ret (Some (wrapf (''failed to update PV '' @ pvName @ '' reclaim policy'') err))
           | Inr _ \<Rightarrow> ret None
         }
   }"

text \<open>
  The polling loops of \<open>replacePVC\<close>, \<^verbatim>\<open>for range 60\<close>: leave the loop when the claim is gone
  (\<open>None\<close>), fail on another error or a cancelled context, and go on after the last round
  whether or not the claim is gone.
\<close>

fun awaitPVCDeletion :: "client \<Rightarrow> string \<Rightarrow> string \<Rightarrow> string \<Rightarrow> nat \<Rightarrow> go_error option io" where
  "awaitPVCDeletion c namespace name prefix 0 = ret None"
| "awaitPVCDeletion c namespace name prefix (Suc rounds) = do {
     r \<leftarrow> getPVC c namespace name;
     case r of
       Inl err \<Rightarrow> if IsNotFound err then ret None else ret (Some (wrapf prefix err))
     | Inr _ \<Rightarrow> do {
         cancelled \<leftarrow> WaitOrCancel c second;
         if cancelled then ret (Some (c_ctxErr c))
         else awaitPVCDeletion c namespace name prefix rounds
       }
   }"

definition deletionRounds :: nat where
  "deletionRounds = 60"

text \<open>The composite literal of lines 212-228.\<close>

definition replacementPVC :: "VolumeResize \<Rightarrow> VolumeResizeTarget \<Rightarrow> int32 \<Rightarrow> labels \<Rightarrow> PersistentVolumeClaim \<Rightarrow> string \<Rightarrow> PersistentVolumeClaim" where
  "replacementPVC vr vol replica originalLabels tempPVC newPVName =
     \<lparr>pvc_meta = zeroMeta\<lparr>
        om_name := getOriginalPVCName (vt_name vol) (vrSTS vr) replica,
        om_namespace := vrNamespace vr,
        om_labels := originalLabels\<rparr>,
      pvc_accessModes = pvc_accessModes tempPVC,
      pvc_storageClassName = pvc_storageClassName tempPVC,
      pvc_volumeName = newPVName,
      pvc_requests = Some [ResourceStorage \<mapsto> vt_newSize vol],
      pvc_phase = '''',
      pvc_rest = ''''\<rparr>"

text \<open>
  \<open>replacePVC\<close>, in the pieces its comments mark, each going on to the next: the new volume is
  found and retained (lines 131-158), the temporary claim deleted and the volume released
  (160-188), the original claim deleted (190-209), the claim created again (211-234).
\<close>

definition createReplacement :: "client \<Rightarrow> VolumeResize \<Rightarrow> VolumeResizeTarget \<Rightarrow> int32 \<Rightarrow> labels \<Rightarrow> PersistentVolumeClaim \<Rightarrow> string \<Rightarrow> go_error option io" where
  "createReplacement c vr vol replica originalLabels tempPVC newPVName = do {
     r \<leftarrow> CreatePVC c (replacementPVC vr vol replica originalLabels tempPVC newPVName);
     case r of
       Inl err \<Rightarrow> ret (Some (wrapf ''failed to create new PVC with original name'' err))
     | Inr _ \<Rightarrow> ret None
   }"

definition replaceOriginal :: "client \<Rightarrow> VolumeResize \<Rightarrow> VolumeResizeTarget \<Rightarrow> int32 \<Rightarrow> PersistentVolumeClaim \<Rightarrow> PersistentVolumeClaim \<Rightarrow> string \<Rightarrow> go_error option io" where
  "replaceOriginal c vr vol replica originalPVC tempPVC newPVName = do {
     d \<leftarrow> DeletePVC c (om_namespace (pvc_meta originalPVC)) (om_name (pvc_meta originalPVC));
     case unlessNotFound d of
       Some err \<Rightarrow> ret (Some (wrapf ''failed to delete original PVC'' err))
     | None \<Rightarrow> do {
         w \<leftarrow> awaitPVCDeletion c (vrNamespace vr)
                (getOriginalPVCName (vt_name vol) (vrSTS vr) replica)
                ''error checking PVC deletion'' deletionRounds;
         case w of
           Some err \<Rightarrow> ret (Some err)
         | None \<Rightarrow>
             createReplacement c vr vol replica (om_labels (pvc_meta originalPVC)) tempPVC newPVName
       }
   }"

definition releaseNewPV :: "client \<Rightarrow> VolumeResize \<Rightarrow> VolumeResizeTarget \<Rightarrow> int32 \<Rightarrow> PersistentVolumeClaim \<Rightarrow> PersistentVolumeClaim \<Rightarrow> string \<Rightarrow> go_error option io" where
  "releaseNewPV c vr vol replica originalPVC tempPVC newPVName = do {
     d \<leftarrow> DeletePVC c (om_namespace (pvc_meta tempPVC)) (om_name (pvc_meta tempPVC));
     case unlessNotFound d of
       Some err \<Rightarrow> ret (Some (wrapf ''failed to delete temp PVC'' err))
     | None \<Rightarrow> do {
         w \<leftarrow> awaitPVCDeletion c (vrNamespace vr)
                (getTempPVCName (vt_name vol) (vrSTS vr) replica)
                ''error checking temp PVC deletion'' deletionRounds;
         case w of
           Some err \<Rightarrow> ret (Some err)
         | None \<Rightarrow> do {
             g \<leftarrow> GetPV c newPVName;
             case g of
               Inl err \<Rightarrow> ret (Some (wrapf ''failed to get new PV after temp PVC deletion'' err))
             | Inr newPV \<Rightarrow> do {
                 u \<leftarrow> UpdatePV c (newPV\<lparr>pv_claimRef := None\<rparr>);
                 case u of
                   Inl err \<Rightarrow> ret (Some (wrapf ''failed to clear claimRef on new PV'' err))
                 | Inr _ \<Rightarrow> replaceOriginal c vr vol replica originalPVC tempPVC newPVName
               }
           }
       }
   }"

definition replacePVC :: "client \<Rightarrow> VolumeResize \<Rightarrow> VolumeResizeTarget \<Rightarrow> int32 \<Rightarrow> go_error option io" where
  "replacePVC c vr vol replica =
     (let originalPVCName = getOriginalPVCName (vt_name vol) (vrSTS vr) replica;
          tempPVCName = getTempPVCName (vt_name vol) (vrSTS vr) replica
      in do {
        t \<leftarrow> getPVC c (vrNamespace vr) tempPVCName;
        case t of
          Inl err \<Rightarrow> ret (Some (wrapf ''failed to get temp PVC'' err))
        | Inr tempPVC \<Rightarrow>
            let newPVName = pvc_volumeName tempPVC in
            if newPVName = ''''
            then ret (Some (errorf (''temp PVC '' @ tempPVCName @ '' is not bound to a PV'')))
            else do {
              original \<leftarrow> getPVC c (vrNamespace vr) originalPVCName;
              case original of
                Inl err \<Rightarrow> ret (Some (wrapf ''failed to get original PVC'' err))
              | Inr originalPVC \<Rightarrow> do {
                  g \<leftarrow> GetPV c newPVName;
                  case g of
                    Inl err \<Rightarrow> ret (Some (wrapf ''failed to get new PV'' err))
                  | Inr newPV \<Rightarrow> do {
                      u \<leftarrow> UpdatePV c (newPV\<lparr>pv_reclaimPolicy := ReclaimRetain\<rparr>);
                      case u of
                        Inl err \<Rightarrow> ret (Some (wrapf ''failed to set retain policy on new PV'' err))
                      | Inr _ \<Rightarrow> releaseNewPV c vr vol replica originalPVC tempPVC newPVName
                    }
                }
            }
      })"

subsection \<open>Names never collide across replicas\<close>

interpretation original_names: replica_naming "\<lambda>(volumeName, stsName). getOriginalPVCName volumeName stsName"
  by unfold_locales (auto simp: getOriginalPVCName_def)

lemma getOriginalPVCName_last:
  "48 \<le> (of_char (last (getOriginalPVCName v s r)) :: nat) \<and> (of_char (last (getOriginalPVCName v s r)) :: nat) < 58"
  using last_showInt [of "sint r"] by (simp add: getOriginalPVCName_def showInt32_def)

lemma getTempPVCName_last: "last (getTempPVCName v s r) = CHR ''w''"
  by (simp add: getTempPVCName_def)

lemma original_not_temp: "getOriginalPVCName v s i \<noteq> getTempPVCName v' s' j"
proof
  assume "getOriginalPVCName v s i = getTempPVCName v' s' j"
  then have "last (getOriginalPVCName v s i) = CHR ''w''"
    by (simp add: getTempPVCName_last)
  then show False
    using getOriginalPVCName_last [of v s i] by simp
qed

lemma getTempPVCName_inject: "getTempPVCName v s i = getTempPVCName v s j \<longleftrightarrow> i = j"
  by (simp add: getTempPVCName_def)

interpretation claim_names: separate_namings
  "\<lambda>(volumeName, stsName). getOriginalPVCName volumeName stsName"
  "\<lambda>(volumeName, stsName). getTempPVCName volumeName stsName"
  by unfold_locales (auto simp: getTempPVCName_inject original_not_temp)

subsection \<open>The calls the operations make\<close>

text \<open>Events of this component: reads, and writes of claims and volumes.\<close>

fun claim_event :: "event \<Rightarrow> bool" where
  "claim_event (EvCreatePVC _ _) = True"
| "claim_event (EvDeletePVC _ _ _) = True"
| "claim_event (EvUpdatePV _ _) = True"
| "claim_event (EvGetPVC _ _ _) = True"
| "claim_event (EvGetPV _ _) = True"
| "claim_event (EvWaitOrCancel _ _) = True"
| "claim_event _ = False"

lemma getPVC_eq [run_defs]: "getPVC c ns n = GetPVC c ns n"
proof -
  have "(case r of Inl err \<Rightarrow> ret (Inl err) | Inr pvc \<Rightarrow> ret (Inr pvc)) = State_Monad.return r"
    for r :: "go_error + PersistentVolumeClaim"
    by (simp add: ret_def split: sum.split)
  then show ?thesis
    by (simp add: getPVC_def)
qed

lemma awaitPVCDeletion_only: "only claim_event (awaitPVCDeletion c ns n p k)"
  by (induction k) (auto simp: run_defs intro!: only_bind only_sum)

lemma createTempPVC_only: "only claim_event (createTempPVC c vr vol p r)"
  by (auto simp: createTempPVC_def run_defs intro!: only_bind only_sum)

lemma setRetainOnPV_only: "only claim_event (setRetainOnPV c n)"
  by (auto simp: setRetainOnPV_def run_defs intro!: only_bind only_sum)

lemma createReplacement_only: "only claim_event (createReplacement c vr vol r l t n)"
  by (auto simp: createReplacement_def run_defs intro!: only_bind only_sum)

lemma replaceOriginal_only: "only claim_event (replaceOriginal c vr vol r p t n)"
  by (auto simp: replaceOriginal_def run_defs
      intro!: only_bind only_option awaitPVCDeletion_only createReplacement_only)

lemma releaseNewPV_only: "only claim_event (releaseNewPV c vr vol r p t n)"
  by (auto simp: releaseNewPV_def run_defs
      intro!: only_bind only_option only_sum awaitPVCDeletion_only replaceOriginal_only)

lemma replacePVC_only: "only claim_event (replacePVC c vr vol r)"
  by (auto simp: replacePVC_def run_defs Let_def intro!: only_bind only_sum releaseNewPV_only)


subsection \<open>Creation is idempotent\<close>

interpretation temp_claim: get_or_create "createTempPVC c vr vol p r"
  "GetPVC c (vrNamespace vr) (getTempPVCName (vt_name vol) (vrSTS vr) r)"
  "CreatePVC c (tempPVCFor vr vol p r)"
  "wrapf ''failed to check for existing temp PVC''" "wrapf ''failed to create temp PVC''" for c vr vol p r
  by unfold_locales (simp add: createTempPVC_def getPVC_eq cong: sum.case_cong)

section \<open>Properties\<close>

text \<open>
  The claims the controller works with never get in each other's way: for any replicas, the
  names of the original and of the temporary claims of a volume are all different, and no original
  claim of any volume and StatefulSet has the name of a temporary one.
\<close>

theorem claim_names_distinct:
  "(distinct (map (getOriginalPVCName v s) rs @ map (getTempPVCName v s) rs) \<longleftrightarrow> distinct rs) \<and>
   getOriginalPVCName v s i \<noteq> getTempPVCName v' s' j"
proof -
  have "distinct (map (getOriginalPVCName v s) rs @ map (getTempPVCName v s) rs)" if "distinct rs"
    using claim_names.all_distinct [of rs rs "(v, s)"] that by simp
  moreover have "distinct rs" if "distinct (map (getOriginalPVCName v s) rs)"
    using that original_names.names_distinct [of "(v, s)" rs] by simp
  ultimately show ?thesis
    using original_not_temp by auto
qed

end
