(* ===== verification/Validation.thy ===== *)
theory Validation
  imports Pvc
begin

section \<open>Validation (internal/controller/validation.go)\<close>

text \<open>
  The four checks that run before any change is made. Two of them scan a list and report the first
  offender; the locale \<open>first_failure\<close> states that contract once. A pointer that may be nil
  next to a result is an option.
\<close>

subsection \<open>Operations\<close>

record ValidationResult =
  vres_valid :: bool
  vres_message :: string

abbreviation valid :: ValidationResult where
  "valid \<equiv> \<lparr>vres_valid = True, vres_message = ''''\<rparr>"

abbreviation invalid :: "string \<Rightarrow> ValidationResult" where
  "invalid m \<equiv> \<lparr>vres_valid = False, vres_message = m\<rparr>"

definition validateStatefulSetExists :: "client \<Rightarrow> string \<Rightarrow> string \<Rightarrow> (StatefulSet option \<times> ValidationResult) io" where
  "validateStatefulSetExists c namespace name = do {
     r \<leftarrow> GetSTS c namespace name;
     case r of
       Inl err \<Rightarrow> ret (None, invalid (''StatefulSet '' @ name @ '' not found: '' @ errText err))
     | Inr sts \<Rightarrow> ret (Some sts, valid)
   }"

text \<open>The map \<^verbatim>\<open>templateNames\<close>: a missing key reads as false.\<close>

definition templateNames :: "StatefulSet \<Rightarrow> string \<Rightarrow> bool" where
  "templateNames sts = fold (\<lambda>vct m. m(om_name (pvc_meta vct) := True)) (sts_volumeClaimTemplates sts) (\<lambda>_. False)"

definition targetMissing :: "string \<Rightarrow> string" where
  "targetMissing name =
     ''volume '' @ goQuote name @ '' not found in StatefulSet volumeClaimTemplates''"

fun checkTargets :: "(string \<Rightarrow> bool) \<Rightarrow> VolumeResizeTarget list \<Rightarrow> ValidationResult" where
  "checkTargets names [] = valid"
| "checkTargets names (vol # vols) =
     (if \<not> names (vt_name vol) then invalid (targetMissing (vt_name vol))
      else checkTargets names vols)"

definition validateVolumeTargets :: "StatefulSet \<Rightarrow> VolumeResizeTarget list \<Rightarrow> ValidationResult" where
  "validateVolumeTargets sts volumes = checkTargets (templateNames sts) volumes"

definition validateSizeReduction :: "client \<Rightarrow> string \<Rightarrow> string \<Rightarrow> VolumeResizeTarget \<Rightarrow> ValidationResult io" where
  "validateSizeReduction c namespace stsName vol =
     (let pvcName = getOriginalPVCName (vt_name vol) stsName 0 in do {
        r \<leftarrow> getPVC c namespace pvcName;
        case r of
          Inl err \<Rightarrow> ret (invalid (''failed to get PVC '' @ pvcName @ '': '' @ errText err))
        | Inr pvc \<Rightarrow>
            (case l_storageRequest c (pvc_requests pvc) of
               None \<Rightarrow> ret (invalid (''PVC '' @ pvcName @ '' has no storage request''))
             | Some currentSize \<Rightarrow>
                 if l_quantityCmp c (vt_newSize vol) currentSize \<ge> 0
                 then ret (invalid (''newSize ('' @ l_quantityString c (vt_newSize vol) @
                        '') must be smaller than current size ('' @ l_quantityString c currentSize @
                        '') for volume '' @ vt_name vol))
                 else ret valid)
      })"

definition disruptionBlocked :: "PodDisruptionBudget \<Rightarrow> string" where
  "disruptionBlocked pdb =
     ''PodDisruptionBudget '' @ om_name (pdb_meta pdb) @
     '' does not allow disruptions (disruptionsAllowed='' @
     showInt32 (pdb_disruptionsAllowed pdb) @ '')''"

text \<open>
  One round of the loop over the budgets: the message of the failure it returns, or \<open>None\<close> for
  \<^verbatim>\<open>continue\<close> and for a budget that lets the loop go on.
\<close>

definition checkPDB :: "client \<Rightarrow> labels \<Rightarrow> PodDisruptionBudget \<Rightarrow> string option" where
  "checkPDB c podLabels pdb =
     (case pdb_selector pdb of
        None \<Rightarrow> None
      | Some sel \<Rightarrow>
          (case l_selectorFromSet c (ls_matchLabels sel) of
             Inl err \<Rightarrow> None
           | Inr matches \<Rightarrow>
               if matches podLabels
               then (if pdb_disruptionsAllowed pdb <s 1 then Some (disruptionBlocked pdb) else None)
               else None))"

fun checkPDBs :: "client \<Rightarrow> labels \<Rightarrow> PodDisruptionBudget list \<Rightarrow> ValidationResult" where
  "checkPDBs c podLabels [] = valid"
| "checkPDBs c podLabels (pdb # pdbs) =
     (case checkPDB c podLabels pdb of
        Some m \<Rightarrow> invalid m
      | None \<Rightarrow> checkPDBs c podLabels pdbs)"

definition validatePDBAllowsDisruption :: "client \<Rightarrow> StatefulSet \<Rightarrow> ValidationResult io" where
  "validatePDBAllowsDisruption c sts = do {
     r \<leftarrow> ListPDB c (om_namespace (sts_meta sts));
     case r of
       Inl err \<Rightarrow> ret (invalid (''failed to list PodDisruptionBudgets: '' @ errText err))
     | Inr items \<Rightarrow> ret (checkPDBs c (sts_templateLabels sts) items)
   }"

subsection \<open>Scans that stop at the first failure\<close>

locale first_failure =
  fixes scan :: "'a list \<Rightarrow> ValidationResult"
    and bad :: "'a \<Rightarrow> string option"
  assumes scan_Nil: "scan [] = valid"
    and scan_Cons: "scan (x # xs) = (case bad x of Some m \<Rightarrow> invalid m | None \<Rightarrow> scan xs)"
begin

lemma scan_valid_iff: "vres_valid (scan xs) \<longleftrightarrow> (\<forall>x \<in> set xs. bad x = None)"
  by (induction xs) (auto simp: scan_Nil scan_Cons split: option.split)

lemma scan_result: "scan xs = (case List.map_filter bad xs of [] \<Rightarrow> valid | m # _ \<Rightarrow> invalid m)"
  by (induction xs) (auto simp: scan_Nil scan_Cons map_filter_simps split: option.split)

lemma scan_append: "scan (xs @ ys) = (if vres_valid (scan xs) then scan ys else scan xs)"
  by (induction xs) (auto simp: scan_Nil scan_Cons split: option.split)

end

interpretation targets: first_failure "checkTargets names"
  "\<lambda>vol. if names (vt_name vol) then None else Some (targetMissing (vt_name vol))" for names
  by unfold_locales simp_all

interpretation pdbs: first_failure "checkPDBs c podLabels" "checkPDB c podLabels" for c podLabels
  by unfold_locales simp_all

subsection \<open>What the checks decide\<close>

lemma fold_templateNames:
  "fold (\<lambda>vct m. m(om_name (pvc_meta vct) := True)) vcts m n \<longleftrightarrow>
     m n \<or> n \<in> (\<lambda>vct. om_name (pvc_meta vct)) ` set vcts"
  by (induction vcts arbitrary: m) auto

lemma templateNames_iff:
  "templateNames sts n \<longleftrightarrow> n \<in> (\<lambda>vct. om_name (pvc_meta vct)) ` set (sts_volumeClaimTemplates sts)"
  by (simp add: templateNames_def fold_templateNames)

lemma validateVolumeTargets_iff:
  "vres_valid (validateVolumeTargets sts vols) \<longleftrightarrow>
     vt_name ` set vols \<subseteq> (\<lambda>vct. om_name (pvc_meta vct)) ` set (sts_volumeClaimTemplates sts)"
  by (auto simp: validateVolumeTargets_def targets.scan_valid_iff templateNames_iff split: if_splits)

lemma signed_less_one: "w <s 1 \<longleftrightarrow> sint (w :: int32) < 1"
  by (simp add: word_sless_alt)

lemma checkPDB_None:
  "checkPDB c podLabels pdb = None \<longleftrightarrow>
     (\<forall>sel matches. pdb_selector pdb = Some sel \<longrightarrow>
        l_selectorFromSet c (ls_matchLabels sel) = Inr matches \<longrightarrow> matches podLabels \<longrightarrow>
        1 \<le> sint (pdb_disruptionsAllowed pdb))"
  by (auto simp: checkPDB_def signed_less_one split: option.split sum.split)

text \<open>The checks read the cluster and change nothing in it; none touches the VolumeResize.\<close>

lemma validateStatefulSetExists_only:
  "only quiet (validateStatefulSetExists c ns n)"
  by (auto simp: validateStatefulSetExists_def run_defs intro!: only_bind only_sum)

lemma validateSizeReduction_only:
  "only quiet (validateSizeReduction c ns s vol)"
  by (auto simp: validateSizeReduction_def run_defs Let_def intro!: only_bind only_sum only_option)

lemma validatePDBAllowsDisruption_only:
  "only quiet (validatePDBAllowsDisruption c s)"
  by (auto simp: validatePDBAllowsDisruption_def run_defs intro!: only_bind only_sum)

section \<open>Properties\<close>

text \<open>
  The targets are valid exactly when each of them is the name of a claim template of the
  StatefulSet; otherwise the message names the first one that is not.
\<close>

theorem validateVolumeTargets_spec:
  "validateVolumeTargets sts vols =
     (case filter (\<lambda>n. n \<notin> (\<lambda>t. om_name (pvc_meta t)) ` set (sts_volumeClaimTemplates sts)) (map vt_name vols) of
        [] \<Rightarrow> valid
      | n # _ \<Rightarrow> invalid (targetMissing n))"
proof -
  have "checkTargets names vols = (case filter (\<lambda>n. \<not> names n) (map vt_name vols) of [] \<Rightarrow> valid | n # _ \<Rightarrow> invalid (targetMissing n))" for names
    by (induction vols) simp_all
  then show ?thesis
    by (simp add: validateVolumeTargets_def templateNames_iff)
qed

text \<open>
  A new size passes exactly when the claim of replica 0 can be read, has a storage request, and
  the new size compares below it: growing a volume, or leaving it as it is, is refused.
\<close>

theorem validateSizeReduction_spec:
  "vres_valid (result (validateSizeReduction c ns s vol) h) \<longleftrightarrow>
     (\<exists>p cur. c_getPVC c h ns (getOriginalPVCName (vt_name vol) s 0) = Inr p \<and>
        l_storageRequest c (pvc_requests p) = Some cur \<and> l_quantityCmp c (vt_newSize vol) cur < 0)"
  by (auto simp: validateSizeReduction_def run_defs Let_def split: sum.split option.split)

text \<open>A budget blocks when its selector matches the pod's labels and it allows less than one disruption.\<close>

definition blocks :: "client \<Rightarrow> labels \<Rightarrow> PodDisruptionBudget \<Rightarrow> bool" where
  "blocks c podLabels pdb \<longleftrightarrow>
     (case pdb_selector pdb of
        None \<Rightarrow> False
      | Some sel \<Rightarrow>
          (case l_selectorFromSet c (ls_matchLabels sel) of
             Inl err \<Rightarrow> False
           | Inr matches \<Rightarrow> matches podLabels \<and> sint (pdb_disruptionsAllowed pdb) \<le> 0))"

lemma checkPDB_eq: "checkPDB c l pdb = (if blocks c l pdb then Some (disruptionBlocked pdb) else None)"
  by (auto simp: checkPDB_def blocks_def signed_less_one split: option.split sum.split)

text \<open>
  A disruption is allowed exactly when the budgets of the namespace can be listed and none of
  them blocks; otherwise the message is about the first that does.
\<close>

theorem validatePDBAllowsDisruption_spec:
  "result (validatePDBAllowsDisruption c sts) h =
     (case c_listPDB c h (om_namespace (sts_meta sts)) of
        Inl err \<Rightarrow> invalid (''failed to list PodDisruptionBudgets: '' @ errText err)
      | Inr items \<Rightarrow>
          (case filter (blocks c (sts_templateLabels sts)) items of
             [] \<Rightarrow> valid
           | pdb # _ \<Rightarrow> invalid (disruptionBlocked pdb)))"
proof -
  have "checkPDBs c l items = (case filter (blocks c l) items of [] \<Rightarrow> valid | pdb # _ \<Rightarrow> invalid (disruptionBlocked pdb))" for l items
    by (induction items) (simp_all add: checkPDB_eq)
  then show ?thesis
    by (simp add: validatePDBAllowsDisruption_def run_defs split: sum.split)
qed

text \<open>
  Only the labels of a budget's selector are looked at, never its expressions: a budget that
  selects by expressions alone is taken for one that selects by no label, and since the empty label
  set selects everything, it blocks a StatefulSet whose pods it does not cover.
\<close>

theorem expressions_ignored:
  assumes "l_selectorFromSet c None = Inr (\<lambda>_. True)" and "sint (pdb_disruptionsAllowed pdb) \<le> 0"
    and "pdb_selector pdb = Some \<lparr>ls_matchLabels = None, ls_matchExpressions = exprs\<rparr>"
    and "c_listPDB c h (om_namespace (sts_meta sts)) = Inr [pdb]"
  shows "result (validatePDBAllowsDisruption c sts) h = invalid (disruptionBlocked pdb)"
  using assms by (simp add: validatePDBAllowsDisruption_def run_defs checkPDB_def signed_less_one)

end
