(* ===== verification/Polling.thy ===== *)
theory Polling
  imports Trace_Logic
begin

section \<open>Polling against a deadline\<close>

text \<open>
  \<^verbatim>\<open>waitForPodTermination\<close> and \<^verbatim>\<open>waitForMigrationComplete\<close> have the same shape: while the clock
  is before the deadline, probe; return if the probe decides; otherwise sleep and try again. The
  model counts rounds so that the recursion is structural, and the locale proves that the count
  never decides: each round sleeps for the period, so after timeout/period rounds the deadline has
  passed, and more rounds give the same run.
\<close>

definition timeless :: "event \<Rightarrow> bool" where
  "timeless e \<longleftrightarrow> (\<forall>t. elapsed e t = t)"

lemma clock_timeless: "list_all timeless t \<Longrightarrow> clock (h @ t) = clock h"
  by (induction t rule: rev_induct)
    (simp_all add: timeless_def append_assoc [symmetric] del: append_assoc)

text \<open>Rounds for a timeout: one for each period that fits, one more to see the deadline pass.\<close>

definition pollRounds :: "duration \<Rightarrow> duration \<Rightarrow> nat" where
  "pollRounds timeout period = nat ((timeout + period - 1) div period) + 1"

locale polling =
  fixes c :: client
    and poll :: "int \<Rightarrow> nat \<Rightarrow> 'a io"
    and probe :: "'a option io"
    and period :: duration
    and expired :: 'a
  assumes poll_0: "poll deadline 0 = ret expired"
    and poll_Suc: "poll deadline (Suc k) = do {
          t \<leftarrow> Now c;
          if t < deadline then do {
            r \<leftarrow> probe;
            case r of
              Some x \<Rightarrow> ret x
            | None \<Rightarrow> do { _ \<leftarrow> Sleep period; poll deadline k }
          }
          else ret expired
        }"
    and probe_only: "only (\<lambda>e. timeless e \<and> quiet e) probe"
    and period_pos: "0 < period"
begin

lemma probe_trace: obtains t where "trace probe h = h @ t" "clock (trace probe h) = clock h"
proof -
  obtain t where t: "trace probe h = h @ t" "list_all (\<lambda>e. timeless e \<and> quiet e) t"
    using probe_only by (auto simp: only_def)
  then have "clock (trace probe h) = clock h"
    by (simp add: clock_timeless list_all_iff)
  with t(1) show ?thesis by (rule that)
qed

lemma poll_only: "only quiet (poll deadline k)"
proof (induction k)
  case 0
  then show ?case by (simp add: poll_0)
next
  case (Suc k)
  have "only quiet probe"
    using probe_only by (rule only_mono) simp
  then show ?case
    using Suc by (auto simp: poll_Suc Now_def Sleep_def intro!: only_bind only_option)
qed

text \<open>Once the remaining rounds cover the time left, extra rounds change nothing.\<close>

lemma enough_rounds:
  assumes "deadline \<le> clock h + int k * period"
  shows "run_state (poll deadline (Suc k + j)) h = run_state (poll deadline (Suc k)) h"
  using assms
proof (induction k arbitrary: h)
  case 0
  then show ?case by (simp add: poll_Suc Now_def perform_def ret_def)
next
  case (Suc k)
  let ?h = "h @ [EvNow (clock h + int (c_drift c h))]"
  obtain t where t: "trace probe ?h = ?h @ t" "clock (trace probe ?h) = clock ?h"
    by (rule probe_trace)
  have more: "deadline \<le> clock (trace probe ?h @ [EvSleep period]) + int k * period"
    using Suc.prems period_pos t(2) by (simp add: algebra_simps)
  have step: "run_state (poll deadline (Suc k + j)) (trace probe ?h @ [EvSleep period]) =
      run_state (poll deadline (Suc k)) (trace probe ?h @ [EvSleep period])"
    by (rule Suc.IH [OF more])
  have "run_state (do { _ \<leftarrow> Sleep period; poll deadline (Suc k + j) }) (trace probe ?h) =
      run_state (do { _ \<leftarrow> Sleep period; poll deadline (Suc k) }) (trace probe ?h)"
    using step by (simp add: Sleep_def perform_def)
  moreover have "run_state probe ?h = (result probe ?h, trace probe ?h)"
    by (simp add: result_def trace_def)
  ultimately show ?case
    by (simp add: poll_Suc [of _ "Suc k"] poll_Suc [of _ "Suc (k + j)"] Now_def perform_def
        del: run_state_bind add: run_state_bind [of "State f" for f] run_state_bind [of probe]
        split: option.split)
qed

text \<open>The rounds the model gives are enough from the moment the deadline is set.\<close>

lemma pollRounds_enough:
  assumes "deadline \<le> clock h + timeout" and "0 \<le> timeout"
  shows "run_state (poll deadline (pollRounds timeout period + j)) h =
    run_state (poll deadline (pollRounds timeout period)) h"
proof -
  let ?k = "nat ((timeout + period - 1) div period)"
  have "timeout \<le> ((timeout + period - 1) div period) * period"
    using period_pos by (smt (verit) div_mult_mod_eq pos_mod_bound)
  moreover have "0 \<le> (timeout + period - 1) div period"
    using assms(2) period_pos by (simp add: pos_imp_zdiv_nonneg_iff)
  ultimately have "timeout \<le> int ?k * period" by simp
  then have "deadline \<le> clock h + int ?k * period"
    using assms(1) by simp
  from enough_rounds [OF this, of j] show ?thesis
    by (simp add: pollRounds_def)
qed

lemma wait_any_rounds:
  assumes "0 \<le> timeout"
  shows "run_state (do { t \<leftarrow> Now c; poll (t + timeout) (pollRounds timeout period + j) }) h =
    run_state (do { t \<leftarrow> Now c; poll (t + timeout) (pollRounds timeout period) }) h"
proof -
  let ?t = "clock h + int (c_drift c h)"
  have "run_state (poll (?t + timeout) (pollRounds timeout period + j)) (h @ [EvNow ?t]) =
      run_state (poll (?t + timeout) (pollRounds timeout period)) (h @ [EvNow ?t])"
    by (rule pollRounds_enough) (simp_all add: assms)
  then show ?thesis
    by (simp add: Now_def perform_def)
qed

text \<open>The answer is the probe's, or that the deadline passed.\<close>

lemma poll_result:
  assumes "result (poll deadline k) h = x" and "x \<noteq> expired"
  obtains pre where "result probe pre = Some x" "trace (poll deadline k) h = trace probe pre"
  using assms
proof (induction k arbitrary: h thesis)
  case 0
  then show ?case by (simp add: poll_0)
next
  case (Suc k)
  let ?h = "h @ [EvNow (clock h + int (c_drift c h))]"
  show ?case
  proof (cases "clock h + int (c_drift c h) < deadline")
    case False
    with Suc.prems show ?thesis by (simp add: poll_Suc Now_def)
  next
    case before: True
    show ?thesis
    proof (cases "result probe ?h")
      case (Some y)
      with before Suc.prems show ?thesis
        by (intro Suc.prems(1) [of ?h]) (simp_all add: poll_Suc Now_def)
    next
      case None
      with before have eq:
        "result (poll deadline (Suc k)) h = result (poll deadline k) (trace probe ?h @ [EvSleep period])"
        "trace (poll deadline (Suc k)) h = trace (poll deadline k) (trace probe ?h @ [EvSleep period])"
        by (simp_all add: poll_Suc Now_def Sleep_def)
      show ?thesis
        using Suc.IH [of "trace probe ?h @ [EvSleep period]"] Suc.prems eq by metis
    qed
  qed
qed

end

end
