(* ===== verification/Statefulset.thy ===== *)
theory Statefulset
  imports Naming Polling
begin

section \<open>StatefulSets and pods (internal/controller/statefulset.go)\<close>

text \<open>
  Orphan deletion and recreation of the StatefulSet, its backup in a ConfigMap, deletion of a
  replica's pod and the wait until it is gone.
\<close>

subsection \<open>Operations\<close>

text \<open>Values are immutable here, so a deep copy is the value itself.\<close>

definition deepCopySTSSpec :: "StatefulSet \<Rightarrow> StatefulSet" where
  "deepCopySTSSpec sts = sts"

definition deleteSTSOrphan :: "client \<Rightarrow> StatefulSet \<Rightarrow> (go_error + StatefulSet) io" where
  "deleteSTSOrphan c sts =
     (let stsCopy = deepCopySTSSpec sts in do {
        d \<leftarrow> DeleteSTS c (om_namespace (sts_meta sts)) (om_name (sts_meta sts)) DeletePropagationOrphan;
        case unlessNotFound d of
          Some err \<Rightarrow> ret (Inl (wrapf ''failed to delete StatefulSet with orphan policy'' err))
        | None \<Rightarrow> ret (Inr stsCopy)
      })"

definition getPodName :: "string \<Rightarrow> int32 \<Rightarrow> string" where
  "getPodName stsName replica = stsName @ ''-'' @ showInt32 replica"

definition deletePod :: "client \<Rightarrow> string \<Rightarrow> string \<Rightarrow> int32 \<Rightarrow> go_error option io" where
  "deletePod c namespace stsName replica =
     (let podName = getPodName stsName replica in do {
        d \<leftarrow> DeletePod c namespace podName;
        case unlessNotFound d of
          Some err \<Rightarrow> ret (Some (wrapf (''failed to delete pod '' @ podName) err))
        | None \<Rightarrow> ret None
      })"

text \<open>
  The loop of \<open>waitForPodTermination\<close>: \<open>None\<close> when the pod is gone, an error when the check
  fails or the deadline passes. The last argument counts the rounds that are left (theory Polling).
\<close>

definition podTimeout :: "string \<Rightarrow> go_error" where
  "podTimeout podName = errorf (''timeout waiting for pod '' @ podName @ '' to terminate'')"

fun podTerminationLoop :: "client \<Rightarrow> string \<Rightarrow> string \<Rightarrow> int \<Rightarrow> nat \<Rightarrow> go_error option io" where
  "podTerminationLoop c namespace podName deadline 0 = ret (Some (podTimeout podName))"
| "podTerminationLoop c namespace podName deadline (Suc rounds) = do {
     t \<leftarrow> Now c;
     if t < deadline then do {
       r \<leftarrow> GetPod c namespace podName;
       case r of
         Inl err \<Rightarrow>
           if IsNotFound err then ret None
           else ret (Some (wrapf ''error checking pod status'' err))
       | Inr _ \<Rightarrow> do {
           _ \<leftarrow> Sleep second;
           podTerminationLoop c namespace podName deadline rounds
         }
     }
     else ret (Some (podTimeout podName))
   }"

definition waitForPodTermination :: "client \<Rightarrow> string \<Rightarrow> string \<Rightarrow> duration \<Rightarrow> go_error option io" where
  "waitForPodTermination c namespace podName timeout = do {
     t \<leftarrow> Now c;
     podTerminationLoop c namespace podName (t + timeout) (pollRounds timeout second)
   }"

definition getSTSBackupConfigMapName :: "string \<Rightarrow> string" where
  "getSTSBackupConfigMapName vrName' = vrName' @ ''-sts-backup''"

text \<open>The composite literal of lines 123-137.\<close>

definition backupConfigMap :: "VolumeResize \<Rightarrow> string \<Rightarrow> ConfigMap" where
  "backupConfigMap vr stsJSON =
     \<lparr>cm_meta = zeroMeta\<lparr>
        om_name := getSTSBackupConfigMapName (vrName vr),
        om_namespace := vrNamespace vr,
        om_labels := Some [LabelMigrationName \<mapsto> vrName vr],
        om_annotations := Some [AnnotationManagedBy \<mapsto> ''volume-resize-operator'']\<rparr>,
      cm_data = Some [ConfigMapKeySTSSpec \<mapsto> stsJSON]\<rparr>"

definition backupSTSToConfigMap :: "client \<Rightarrow> VolumeResize \<Rightarrow> StatefulSet \<Rightarrow> go_error option io" where
  "backupSTSToConfigMap c vr sts = do {
     existing \<leftarrow> GetCM c (vrNamespace vr) (getSTSBackupConfigMapName (vrName vr));
     case existing of
       Inr _ \<Rightarrow> ret None
     | Inl err \<Rightarrow>
         if \<not> IsNotFound err
         then ret (Some (wrapf ''failed to check for existing backup ConfigMap'' err))
         else (case l_marshalSTS c sts of
             Inl err \<Rightarrow> ret (Some (wrapf ''failed to serialize StatefulSet'' err))
           | Inr stsJSON \<Rightarrow> do {
               created \<leftarrow> CreateCM c (backupConfigMap vr stsJSON);
               case created of
                 Some err \<Rightarrow> ret (Some (wrapf ''failed to create backup ConfigMap'' err))
               | None \<Rightarrow> ret None
             })
   }"

definition getSTSFromBackupConfigMap :: "client \<Rightarrow> string \<Rightarrow> string \<Rightarrow> (go_error + StatefulSet) io" where
  "getSTSFromBackupConfigMap c namespace vrName' = do {
     r \<leftarrow> GetCM c namespace (getSTSBackupConfigMapName vrName');
     case r of
       Inl err \<Rightarrow> ret (Inl (wrapf ''failed to get backup ConfigMap'' err))
     | Inr cm \<Rightarrow>
         (case goLookup (cm_data cm) ConfigMapKeySTSSpec of
            None \<Rightarrow> ret (Inl (errorf (''backup ConfigMap missing '' @ ConfigMapKeySTSSpec @ '' key'')))
          | Some stsJSON \<Rightarrow>
              (case l_unmarshalSTS c stsJSON of
                 Inl err \<Rightarrow> ret (Inl (wrapf ''failed to deserialize StatefulSet'' err))
               | Inr sts \<Rightarrow> ret (Inr sts)))
   }"

text \<open>The object that is created again: name, namespace, labels, annotations and spec only.\<close>

definition cleanSTS :: "StatefulSet \<Rightarrow> StatefulSet" where
  "cleanSTS stsSpec = stsSpec\<lparr>
     sts_meta := zeroMeta\<lparr>
       om_name := om_name (sts_meta stsSpec),
       om_namespace := om_namespace (sts_meta stsSpec),
       om_labels := om_labels (sts_meta stsSpec),
       om_annotations := om_annotations (sts_meta stsSpec),
       om_resourceVersion := '''',
       om_uid := '''',
       om_creationTimestamp := None,
       om_generation := 0,
       om_managedFields := []\<rparr>,
     sts_statusRest := ''''\<rparr>"

definition recreateSTS :: "client \<Rightarrow> StatefulSet \<Rightarrow> go_error option io" where
  "recreateSTS c stsSpec = do {
     r \<leftarrow> CreateSTS c (cleanSTS stsSpec);
     case r of
       Some err \<Rightarrow> ret (Some (wrapf ''failed to recreate StatefulSet'' err))
     | None \<Rightarrow> ret None
   }"

subsection \<open>Names\<close>

interpretation pod_names: replica_naming getPodName
  by unfold_locales (simp add: getPodName_def)

subsection \<open>Polling\<close>

text \<open>One probe of the termination loop.\<close>

definition podGone :: "client \<Rightarrow> string \<Rightarrow> string \<Rightarrow> go_error option option io" where
  "podGone c namespace podName = do {
     r \<leftarrow> GetPod c namespace podName;
     ret (case r of
         Inl err \<Rightarrow> Some (if IsNotFound err then None else Some (wrapf ''error checking pod status'' err))
       | Inr _ \<Rightarrow> None)
   }"

lemma podGone_step:
  "do { r \<leftarrow> podGone c ns p; case r of Some x \<Rightarrow> ret x | None \<Rightarrow> m } =
   do { r \<leftarrow> GetPod c ns p;
        case r of
          Inl err \<Rightarrow> if IsNotFound err then ret None else ret (Some (wrapf ''error checking pod status'' err))
        | Inr _ \<Rightarrow> m }"
  by (rule state_ext) (simp add: podGone_def GetPod_def perform_def ret_def split: sum.split)

interpretation pod_termination: polling c "podTerminationLoop c ns p" "podGone c ns p" second
  "Some (podTimeout p)" for c ns p
proof
  show "podTerminationLoop c ns p deadline 0 = ret (Some (podTimeout p))" for deadline
    by simp
  show "podTerminationLoop c ns p deadline (Suc k) = do {
          t \<leftarrow> Now c;
          if t < deadline then do {
            r \<leftarrow> podGone c ns p;
            case r of
              Some x \<Rightarrow> ret x
            | None \<Rightarrow> do { _ \<leftarrow> Sleep second; podTerminationLoop c ns p deadline k }
          }
          else ret (Some (podTimeout p))
        }" for deadline k
    by (simp only: podTerminationLoop.simps podGone_step)
  show "only (\<lambda>e. timeless e \<and> quiet e) (podGone c ns p)"
    by (auto simp: podGone_def GetPod_def timeless_def intro!: only_bind)
qed simp

subsection \<open>The calls the operations make\<close>

fun sts_event :: "event \<Rightarrow> bool" where
  "sts_event (EvDeleteSTS _ _ _ _) = True"
| "sts_event (EvCreateSTS _ _) = True"
| "sts_event (EvGetCM _ _ _) = True"
| "sts_event (EvCreateCM _ _) = True"
| "sts_event _ = False"

lemma deleteSTSOrphan_only: "only sts_event (deleteSTSOrphan c s)"
  by (auto simp: deleteSTSOrphan_def run_defs Let_def intro!: only_bind only_option)

lemma backupSTSToConfigMap_only: "only sts_event (backupSTSToConfigMap c vr s)"
  by (auto simp: backupSTSToConfigMap_def run_defs intro!: only_bind only_option only_sum)

lemma getSTSFromBackupConfigMap_only: "only sts_event (getSTSFromBackupConfigMap c ns n)"
  by (auto simp: getSTSFromBackupConfigMap_def run_defs intro!: only_bind only_option only_sum)

lemma recreateSTS_only: "only sts_event (recreateSTS c s)"
  by (auto simp: recreateSTS_def run_defs intro!: only_bind only_option)

lemma waitForPodTermination_only: "only quiet (waitForPodTermination c ns p d)"
  by (auto simp: waitForPodTermination_def Now_def intro!: only_bind pod_termination.poll_only)

text \<open>A nil error from the wait means that the pod was seen to be gone.\<close>

lemma waitForPodTermination_gone:
  assumes "result (waitForPodTermination c ns p d) h = None"
  obtains pre err where
    "trace (waitForPodTermination c ns p d) h = pre @ [EvGetPod ns p (Inl err)]" "IsNotFound err"
proof -
  let ?h = "h @ [EvNow (clock h + int (c_drift c h))]"
  obtain pre where pre: "result (podGone c ns p) pre = Some None"
    "trace (waitForPodTermination c ns p d) h = trace (podGone c ns p) pre"
    using assms pod_termination.poll_result [of c ns p _ _ ?h None]
    by (auto simp: waitForPodTermination_def Now_def)
  then obtain err where "c_getPod c pre ns p = Inl err" "IsNotFound err"
    by (auto simp: podGone_def GetPod_def split: sum.splits if_splits)
  with pre show ?thesis
    by (intro that [of pre err]) (auto simp: podGone_def GetPod_def)
qed

section \<open>Properties\<close>

text \<open>
  The rounds that the model of \<open>waitForPodTermination\<close> counts never decide anything: with the
  two minutes the controller gives it, any number of further rounds gives the same run.
\<close>

theorem termination_wait_unbounded:
  "run_state (waitForPodTermination c ns p (minute * 2)) h =
   run_state (do { t \<leftarrow> Now c; podTerminationLoop c ns p (t + minute * 2) (pollRounds (minute * 2) second + j) }) h"
  unfolding waitForPodTermination_def
  by (rule pod_termination.wait_any_rounds [symmetric]) (simp add: minute_def second_def)

text \<open>
  The StatefulSet that is created again keeps the name, the namespace, the labels, the
  annotations, the replica count, the pod template and the claim templates, loses every field that
  the server sets, and cleaning it twice changes nothing more.
\<close>

theorem cleaned_statefulset:
  "cleanSTS (cleanSTS s) = cleanSTS s \<and>
   om_name (sts_meta (cleanSTS s)) = om_name (sts_meta s) \<and>
   om_namespace (sts_meta (cleanSTS s)) = om_namespace (sts_meta s) \<and>
   om_labels (sts_meta (cleanSTS s)) = om_labels (sts_meta s) \<and>
   om_annotations (sts_meta (cleanSTS s)) = om_annotations (sts_meta s) \<and>
   sts_replicas (cleanSTS s) = sts_replicas s \<and> sts_templateLabels (cleanSTS s) = sts_templateLabels s \<and>
   sts_volumeClaimTemplates (cleanSTS s) = sts_volumeClaimTemplates s \<and> sts_specRest (cleanSTS s) = sts_specRest s \<and>
   om_resourceVersion (sts_meta (cleanSTS s)) = '''' \<and> om_uid (sts_meta (cleanSTS s)) = '''' \<and>
   om_generation (sts_meta (cleanSTS s)) = 0 \<and> om_creationTimestamp (sts_meta (cleanSTS s)) = None \<and>
   om_finalizers (sts_meta (cleanSTS s)) = [] \<and> sts_statusRest (cleanSTS s) = ''''"
  by (simp add: cleanSTS_def zeroMeta_def)

end
