(* ===== verification/Migrator.thy ===== *)
theory Migrator
  imports Naming Polling Idempotent
begin

section \<open>The migrator pod (internal/controller/migrator.go)\<close>

text \<open>
  The pod that copies the data of a claim to its replacement: its specification, its creation,
  the wait for its end and its removal.
\<close>

subsection \<open>Operations\<close>

definition getMigratorPodName :: "string \<Rightarrow> string \<Rightarrow> int32 \<Rightarrow> string" where
  "getMigratorPodName vrName' volName replica =
     vrName' @ ''-migrator-'' @ showInt32 replica @ ''-'' @ volName"

definition buildMigratorPod :: "VolumeResize \<Rightarrow> VolumeResizeTarget \<Rightarrow> int32 \<Rightarrow> string \<Rightarrow> string \<Rightarrow> Pod" where
  "buildMigratorPod vr vol replica oldPVCName newPVCName =
     (let podName = vrName vr @ ''-migrator-'' @ showInt32 replica @ ''-'' @ vt_name vol in
      \<lparr>pod_meta = zeroMeta\<lparr>
         om_name := podName,
         om_namespace := vrNamespace vr,
         om_labels := Some [LabelMigrationName \<mapsto> vrName vr,
                            LabelReplica \<mapsto> showInt32 replica,
                            LabelVolumeName \<mapsto> vt_name vol],
         om_annotations := Some [AnnotationManagedBy \<mapsto> ''volume-resize-operator'']\<rparr>,
       pod_restartPolicy = RestartPolicyNever,
       pod_runAsUser = Some 0,
       pod_runAsGroup = Some 0,
       pod_containers =
         [\<lparr>ctr_name = ''migrator'',
           ctr_image = DefaultMigratorImage,
           ctr_imagePullPolicy = PullIfNotPresent,
           ctr_env = [\<lparr>env_name = ''SOURCE_PATH'', env_value = ''/source''\<rparr>,
                      \<lparr>env_name = ''DEST_PATH'', env_value = ''/dest''\<rparr>],
           ctr_volumeMounts = [\<lparr>vm_name = ''source'', vm_mountPath = ''/source''\<rparr>,
                               \<lparr>vm_name = ''dest'', vm_mountPath = ''/dest''\<rparr>]\<rparr>],
       pod_volumes =
         [\<lparr>pvol_name = ''source'', pvol_claimName = oldPVCName\<rparr>,
          \<lparr>pvol_name = ''dest'', pvol_claimName = newPVCName\<rparr>],
       pod_phase = ''''\<rparr>)"

definition createMigratorPod :: "client \<Rightarrow> VolumeResize \<Rightarrow> VolumeResizeTarget \<Rightarrow> int32 \<Rightarrow> string \<Rightarrow> string \<Rightarrow> (go_error + Pod) io" where
  "createMigratorPod c vr vol replica oldPVCName newPVCName =
     (let pod = buildMigratorPod vr vol replica oldPVCName newPVCName in do {
        existingPod \<leftarrow> GetPod c (om_namespace (pod_meta pod)) (om_name (pod_meta pod));
        case existingPod of
          Inr p \<Rightarrow> ret (Inr p)
        | Inl err \<Rightarrow>
            if \<not> IsNotFound err
            then ret (Inl (wrapf ''failed to check for existing migrator pod'' err))
            else do {
              created \<leftarrow> CreatePod c pod;
              case created of
                Inl err \<Rightarrow> ret (Inl (wrapf ''failed to create migrator pod'' err))
              | Inr pod \<Rightarrow> ret (Inr pod)
            }
      })"

definition migrationTimeout :: go_error where
  "migrationTimeout = errorf ''timeout waiting for migration to complete''"

fun migrationLoop :: "client \<Rightarrow> string \<Rightarrow> string \<Rightarrow> int \<Rightarrow> nat \<Rightarrow> go_error option io" where
  "migrationLoop c podName namespace deadline 0 = ret (Some migrationTimeout)"
| "migrationLoop c podName namespace deadline (Suc rounds) = do {
     t \<leftarrow> Now c;
     if t < deadline then do {
       r \<leftarrow> GetPod c namespace podName;
       case r of
         Inl err \<Rightarrow> ret (Some (wrapf ''failed to get migration pod status'' err))
       | Inr pod \<Rightarrow>
           if pod_phase pod = PodSucceeded then ret None
           else if pod_phase pod = PodFailed then ret (Some (errorf ''migration pod failed''))
           else do {
             _ \<leftarrow> Sleep (second * 2);
             migrationLoop c podName namespace deadline rounds
           }
     }
     else ret (Some migrationTimeout)
   }"

definition waitForMigrationComplete :: "client \<Rightarrow> string \<Rightarrow> string \<Rightarrow> duration \<Rightarrow> go_error option io" where
  "waitForMigrationComplete c podName namespace timeout = do {
     t \<leftarrow> Now c;
     migrationLoop c podName namespace (t + timeout) (pollRounds timeout (second * 2))
   }"

definition cleanupMigratorPod :: "client \<Rightarrow> string \<Rightarrow> string \<Rightarrow> go_error option io" where
  "cleanupMigratorPod c podName namespace = do {
     d \<leftarrow> DeletePod c namespace podName;
     case unlessNotFound d of
       Some err \<Rightarrow> ret (Some (wrapf ''failed to delete migrator pod'' err))
     | None \<Rightarrow> ret None
   }"

subsection \<open>Names\<close>

lemma migrator_name_inject: "showInt32 i @ ''-'' @ v = showInt32 j @ ''-'' @ v \<longleftrightarrow> i = j"
  by simp

interpretation migrator_names: replica_naming "\<lambda>(vrName', volName). getMigratorPodName vrName' volName"
  by unfold_locales (auto simp: getMigratorPodName_def)

lemma buildMigratorPod_name:
  "om_name (pod_meta (buildMigratorPod vr vol r old new)) = getMigratorPodName (vrName vr) (vt_name vol) r"
  by (simp add: buildMigratorPod_def getMigratorPodName_def Let_def)

lemma buildMigratorPod_namespace [simp]:
  "om_namespace (pod_meta (buildMigratorPod vr vol r old new)) = vrNamespace vr"
  by (simp add: buildMigratorPod_def Let_def)

subsection \<open>Polling\<close>

definition migrationProbe :: "client \<Rightarrow> string \<Rightarrow> string \<Rightarrow> go_error option option io" where
  "migrationProbe c podName namespace = do {
     r \<leftarrow> GetPod c namespace podName;
     ret (case r of
         Inl err \<Rightarrow> Some (Some (wrapf ''failed to get migration pod status'' err))
       | Inr pod \<Rightarrow>
           if pod_phase pod = PodSucceeded then Some None
           else if pod_phase pod = PodFailed then Some (Some (errorf ''migration pod failed''))
           else None)
   }"

lemma migrationProbe_step:
  "do { r \<leftarrow> migrationProbe c p ns; case r of Some x \<Rightarrow> ret x | None \<Rightarrow> m } =
   do { r \<leftarrow> GetPod c ns p;
        case r of
          Inl err \<Rightarrow> ret (Some (wrapf ''failed to get migration pod status'' err))
        | Inr pod \<Rightarrow>
            if pod_phase pod = PodSucceeded then ret None
            else if pod_phase pod = PodFailed then ret (Some (errorf ''migration pod failed''))
            else m }"
  by (rule state_ext) (simp add: migrationProbe_def GetPod_def perform_def ret_def split: sum.split)

interpretation migration: polling c "migrationLoop c p ns" "migrationProbe c p ns" "second * 2"
  "Some migrationTimeout" for c p ns
proof
  show "migrationLoop c p ns deadline 0 = ret (Some migrationTimeout)" for deadline
    by simp
  show "migrationLoop c p ns deadline (Suc k) = do {
          t \<leftarrow> Now c;
          if t < deadline then do {
            r \<leftarrow> migrationProbe c p ns;
            case r of
              Some x \<Rightarrow> ret x
            | None \<Rightarrow> do { _ \<leftarrow> Sleep (second * 2); migrationLoop c p ns deadline k }
          }
          else ret (Some migrationTimeout)
        }" for deadline k
    by (simp only: migrationLoop.simps migrationProbe_step)
  show "only (\<lambda>e. timeless e \<and> quiet e) (migrationProbe c p ns)"
    by (auto simp: migrationProbe_def GetPod_def timeless_def intro!: only_bind)
qed simp

subsection \<open>The calls the operations make\<close>

lemma waitForMigrationComplete_only: "only quiet (waitForMigrationComplete c p ns d)"
  by (auto simp: waitForMigrationComplete_def Now_def intro!: only_bind migration.poll_only)

text \<open>A nil error from the wait means that the pod was seen in phase Succeeded.\<close>

lemma waitForMigrationComplete_succeeded:
  assumes "result (waitForMigrationComplete c p ns d) h = None"
  obtains pre pod where
    "trace (waitForMigrationComplete c p ns d) h = pre @ [EvGetPod ns p (Inr pod)]"
    "pod_phase pod = PodSucceeded"
proof -
  let ?h = "h @ [EvNow (clock h + int (c_drift c h))]"
  obtain pre where pre: "result (migrationProbe c p ns) pre = Some None"
    "trace (waitForMigrationComplete c p ns d) h = trace (migrationProbe c p ns) pre"
    using assms migration.poll_result [of c p ns _ _ ?h None]
    by (auto simp: waitForMigrationComplete_def Now_def)
  then obtain pod where "c_getPod c pre ns p = Inr pod" "pod_phase pod = PodSucceeded"
    by (auto simp: migrationProbe_def GetPod_def split: sum.splits if_splits)
  with pre show ?thesis
    by (intro that [of pre pod]) (auto simp: migrationProbe_def GetPod_def)
qed

subsection \<open>Creation is idempotent\<close>

interpretation migrator_pod: get_or_create "createMigratorPod c vr vol r old new"
  "GetPod c (vrNamespace vr) (getMigratorPodName (vrName vr) (vt_name vol) r)"
  "CreatePod c (buildMigratorPod vr vol r old new)"
  "wrapf ''failed to check for existing migrator pod''" "wrapf ''failed to create migrator pod''" for c vr vol r old new
  by unfold_locales (simp add: createMigratorPod_def Let_def buildMigratorPod_name cong: sum.case_cong)

section \<open>Properties\<close>

lemma dash_splits:
  assumes "CHR ''-'' \<notin> set xs" and "CHR ''-'' \<notin> set ys"
  shows "xs @ CHR ''-'' # v = ys @ CHR ''-'' # w \<longleftrightarrow> xs = ys \<and> v = w"
  using assms by (auto simp: append_eq_append_conv2 append_eq_Cons_conv Cons_eq_append_conv)

text \<open>
  Within one VolumeResize, migrator pods of different volumes or replicas have different names,
  so no pod is taken for another's: the name determines the replica and the volume.
\<close>

theorem migrator_names_injective:
  assumes "0 \<le> sint i" and "0 \<le> sint j"
  shows "getMigratorPodName n v i = getMigratorPodName n w j \<longleftrightarrow> i = j \<and> v = w"
proof -
  have digits: "showInt32 k = showNat (nat (sint k))" if "0 \<le> sint k" for k
    using that by (simp add: showInt32_def showInt_def)
  have "getMigratorPodName n v i = getMigratorPodName n w j \<longleftrightarrow>
      showNat (nat (sint i)) @ CHR ''-'' # v = showNat (nat (sint j)) @ CHR ''-'' # w"
    by (simp add: getMigratorPodName_def digits [OF assms(1)] digits [OF assms(2)])
  also have "\<dots> \<longleftrightarrow> showInt32 i = showInt32 j \<and> v = w"
    by (simp add: dash_splits showNat_not_dash digits [OF assms(1)] digits [OF assms(2)])
  finally show ?thesis by simp
qed

theorem migrator_names_injective_witness:
  "getMigratorPodName ''r'' ''1-data'' 1 \<noteq> getMigratorPodName ''r'' ''data'' (11 :: int32)"
  using migrator_names_injective [of 1 11 "''r''" "''1-data''" "''data''"] by simp

text \<open>
  The rounds that the model of \<open>waitForMigrationComplete\<close> counts never decide anything: with
  the timeout the controller uses, any number of further rounds gives the same run. The Go loop,
  which counts none, ends because the clock passes the deadline.
\<close>

theorem migration_wait_unbounded:
  "run_state (waitForMigrationComplete c p ns hour) h =
   run_state (do { t \<leftarrow> Now c; migrationLoop c p ns (t + hour) (pollRounds hour (second * 2) + j) }) h"
  unfolding waitForMigrationComplete_def
  by (rule migration.wait_any_rounds [symmetric]) (simp add: hour_def minute_def second_def)

end
