(* ===== verification/Controller.thy ===== *)
theory Controller
  imports Validation Statefulset Migrator
begin

section \<open>The reconciler (internal/controller/volumeresize_controller.go)\<close>

text \<open>
  \<open>Reconcile\<close> and its phase handlers, over an arbitrary client. The object the Go code mutates
  through the pointer \<^verbatim>\<open>vr\<close> is passed along and rebound; a successful \<open>UpdateVR\<close> or
  \<open>StatusUpdateVR\<close> rebinds it to the object in the response, as the client library does. Log lines
  are left out. A handler ends with the \<^verbatim>\<open>ctrl.Result\<close> and the error it returns, or with a panic
  (a nil pointer, a nil map, an index out of range), which is an outcome of its own.

  \<open>handleSyncing\<close> is one long function of the source. It is cut where its comments cut it; each
  piece ends by calling the next one, so that the whole is again one function.
\<close>

subsection \<open>Outcomes\<close>

record ctrl_result =
  res_requeue :: bool
  res_requeueAfter :: duration

datatype outcome = Returned ctrl_result "go_error option" | Panicked string

definition finished :: outcome where
  "finished = Returned \<lparr>res_requeue = False, res_requeueAfter = 0\<rparr> None"

definition requeue :: outcome where
  "requeue = Returned \<lparr>res_requeue = True, res_requeueAfter = 0\<rparr> None"

definition requeueAfter :: "duration \<Rightarrow> outcome" where
  "requeueAfter d = Returned \<lparr>res_requeue = False, res_requeueAfter = d\<rparr> None"

definition failWith :: "go_error \<Rightarrow> outcome" where
  "failWith err = Returned \<lparr>res_requeue = False, res_requeueAfter = 0\<rparr> (Some err)"

lemmas outcome_defs = finished_def requeue_def requeueAfter_def failWith_def

subsection \<open>Helper functions\<close>

definition setFailed :: "client \<Rightarrow> VolumeResize \<Rightarrow> string \<Rightarrow> outcome io" where
  "setFailed c vr message = do {
     u \<leftarrow> StatusUpdateVR c
            (withStatus (\<lambda>s. s\<lparr>st_phase := PhaseFailed, st_message := message\<rparr>) vr);
     case u of
       Inl err \<Rightarrow> ret (failWith err)
     | Inr _ \<Rightarrow> ret finished
   }"

definition isStatusOf :: "string \<Rightarrow> int32 \<Rightarrow> VolumeStatus \<Rightarrow> bool" where
  "isStatusOf volName replica vs \<longleftrightarrow> vs_volumeName vs = volName \<and> vs_replica vs = replica"

text \<open>\<open>updateVolumeStatus\<close> changes the first entry of the volume and replica and stops.\<close>

fun setFirstStatus :: "string \<Rightarrow> int32 \<Rightarrow> string \<Rightarrow> string \<Rightarrow> VolumeStatus list \<Rightarrow> VolumeStatus list" where
  "setFirstStatus volName replica phase message [] = []"
| "setFirstStatus volName replica phase message (vs # rest) =
     (if isStatusOf volName replica vs
      then vs\<lparr>vs_phase := phase, vs_message := message\<rparr> # rest
      else vs # setFirstStatus volName replica phase message rest)"

definition updateVolumeStatus :: "VolumeResize \<Rightarrow> string \<Rightarrow> int32 \<Rightarrow> string \<Rightarrow> string \<Rightarrow> VolumeResize" where
  "updateVolumeStatus vr volName replica phase message =
     withStatus (\<lambda>s. s\<lparr>st_volumeStatuses :=
       setFirstStatus volName replica phase message (st_volumeStatuses s)\<rparr>) vr"

definition updateVolumeStatusInList :: "VolumeStatus list \<Rightarrow> string \<Rightarrow> int32 \<Rightarrow> (VolumeStatus \<Rightarrow> VolumeStatus) \<Rightarrow> VolumeStatus list" where
  "updateVolumeStatusInList statuses volName replica updateFn =
     map (\<lambda>vs. if isStatusOf volName replica vs then updateFn vs else vs) statuses"

text \<open>The index of the first volume of that name, 0 when there is none.\<close>

fun volumeIndexFrom :: "nat \<Rightarrow> string \<Rightarrow> VolumeResizeTarget list \<Rightarrow> nat" where
  "volumeIndexFrom i name [] = 0"
| "volumeIndexFrom i name (v # vs) =
     (if vt_name v = name then i else volumeIndexFrom (Suc i) name vs)"

definition maxReplicaOf :: "VolumeStatus list \<Rightarrow> int32" where
  "maxReplicaOf statuses =
     fold (\<lambda>vs m. if m <s vs_replica vs then vs_replica vs else m) statuses 0"

text \<open>
  The next replica and volume, and whether everything is done; \<open>None\<close> is the panic of
  \<^verbatim>\<open>Volumes[0]\<close> on an empty list.
\<close>

definition getNextVolumeReplica :: "VolumeResize \<Rightarrow> int32 \<Rightarrow> string \<Rightarrow> (int32 \<times> string \<times> bool) option" where
  "getNextVolumeReplica vr currentReplica currentVol =
     (let volIdx = volumeIndexFrom 0 currentVol (vrVolumes vr) in
      if volIdx + 1 < length (vrVolumes vr)
      then Some (currentReplica, vt_name (vrVolumes vr ! (volIdx + 1)), False)
      else if currentReplica <s maxReplicaOf (st_volumeStatuses (vr_status vr))
      then (case vrVolumes vr of
              [] \<Rightarrow> None
            | v # _ \<Rightarrow> Some (currentReplica + 1, vt_name v, False))
      else Some (0, '''', True))"

definition indexPanic :: outcome where
  "indexPanic = Panicked ''index out of range [0] with length 0''"

text \<open>The end of a volume: the lines 190-206, which the lines 407-427 repeat.\<close>

definition migratingMessage :: "int32 \<Rightarrow> string \<Rightarrow> string" where
  "migratingMessage nextReplica nextVol =
     ''Migrating replica '' @ showInt32 nextReplica @ '' volume '' @ nextVol"

definition completedStatus :: "int \<Rightarrow> VolumeResizeStatus \<Rightarrow> VolumeResizeStatus" where
  "completedStatus now s = s\<lparr>st_phase := PhaseCompleted, st_completionTime := Some now,
     st_message := MessageMigrationCompleted, st_currentReplica := None, st_currentVolume := ''''\<rparr>"

definition nextStatus :: "int32 \<Rightarrow> string \<Rightarrow> VolumeResizeStatus \<Rightarrow> VolumeResizeStatus" where
  "nextStatus nextReplica nextVol s = s\<lparr>st_currentReplica := Some nextReplica,
     st_currentVolume := nextVol, st_message := migratingMessage nextReplica nextVol\<rparr>"

definition advance :: "client \<Rightarrow> VolumeResize \<Rightarrow> int32 \<Rightarrow> string \<Rightarrow> outcome io" where
  "advance c vr replica volName =
     (case getNextVolumeReplica vr replica volName of
        None \<Rightarrow> ret indexPanic
      | Some (nextReplica, nextVol, isDone) \<Rightarrow> do {
          vr \<leftarrow> (if isDone then do {
                   now \<leftarrow> Now c;
                   ret (withStatus (completedStatus now) vr)
                 }
                 else ret (withStatus (nextStatus nextReplica nextVol) vr));
          u \<leftarrow> StatusUpdateVR c vr;
          case u of
            Inl err \<Rightarrow> ret (failWith err)
          | Inr _ \<Rightarrow> ret requeue
        })"

subsection \<open>Pending and Validating\<close>

definition handlePending :: "client \<Rightarrow> VolumeResize \<Rightarrow> outcome io" where
  "handlePending c vr = do {
     now \<leftarrow> Now c;
     u \<leftarrow> StatusUpdateVR c (withStatus (\<lambda>s. s\<lparr>st_startTime := Some now,
            st_volumeStatuses := [], st_phase := PhaseValidating,
            st_message := ''Starting validation''\<rparr>) vr);
     case u of
       Inl err \<Rightarrow> ret (failWith err)
     | Inr _ \<Rightarrow> ret requeue
   }"

text \<open>The loop of lines 134-139: the first invalid result, or a valid one.\<close>

fun validateSizes :: "client \<Rightarrow> string \<Rightarrow> string \<Rightarrow> VolumeResizeTarget list \<Rightarrow> ValidationResult io" where
  "validateSizes c namespace stsName [] = ret valid"
| "validateSizes c namespace stsName (vol # vols) = do {
     r \<leftarrow> validateSizeReduction c namespace stsName vol;
     if \<not> vres_valid r then ret r else validateSizes c namespace stsName vols
   }"

definition initialStatus :: "VolumeResizeTarget \<Rightarrow> int32 \<Rightarrow> VolumeStatus" where
  "initialStatus vol i = \<lparr>vs_volumeName = vt_name vol, vs_replica = i,
     vs_phase = VolumeStatusPending, vs_oldPVCName = '''', vs_newPVCName = '''',
     vs_oldPVName = '''', vs_message = ''''\<rparr>"

lemma sint_increment: "i <s r \<Longrightarrow> sint (i + 1 :: int32) = sint i + 1"
proof -
  assume "i <s r"
  then have "sint i < sint r" by (simp add: word_sless_alt)
  moreover have "sint r < 2 ^ 31" using sint_lt [of r] by simp
  moreover have "- (2 ^ 31) \<le> sint i" using sint_ge [of i] by simp
  ultimately show ?thesis
    by (simp add: sint_word_add signed_take_bit_int_eq_self)
qed

text \<open>The two loops of lines 155-163, with the signed 32-bit counter of the code.\<close>

function initialStatuses :: "VolumeResizeTarget list \<Rightarrow> int32 \<Rightarrow> int32 \<Rightarrow> VolumeStatus list" where
  "initialStatuses vols i replicas =
     (if i <s replicas
      then map (\<lambda>vol. initialStatus vol i) vols @ initialStatuses vols (i + 1) replicas
      else [])"
  by pat_completeness auto

termination
  by (relation "measure (\<lambda>(vols, i, r). nat (sint r - sint i))")
    (auto simp: sint_increment word_sless_alt)

declare initialStatuses.simps [simp del]

definition replicasOf :: "StatefulSet \<Rightarrow> int32" where
  "replicasOf sts = (case sts_replicas sts of None \<Rightarrow> 1 | Some n \<Rightarrow> n)"

text \<open>Lines 149-174, after all checks have passed.\<close>

definition startSyncing :: "client \<Rightarrow> VolumeResize \<Rightarrow> StatefulSet \<Rightarrow> outcome io" where
  "startSyncing c vr sts =
     (case vrVolumes vr of
        [] \<Rightarrow> ret indexPanic
      | vol0 # _ \<Rightarrow> do {
          u \<leftarrow> StatusUpdateVR c (withStatus (\<lambda>s. s\<lparr>
                 st_volumeStatuses := st_volumeStatuses s @ initialStatuses (vrVolumes vr) 0 (replicasOf sts),
                 st_phase := PhaseSyncing,
                 st_currentReplica := Some 0,
                 st_currentVolume := vt_name vol0,
                 st_message := ''Validation complete, starting sync''\<rparr>) vr);
          case u of
            Inl err \<Rightarrow> ret (failWith err)
          | Inr _ \<Rightarrow> ret requeue
        })"

text \<open>
  Lines 121-145. The checks stop at the first failure; the result is the StatefulSet, or the
  message of the failure.
\<close>

definition runChecks :: "client \<Rightarrow> VolumeResize \<Rightarrow> (string + StatefulSet) io" where
  "runChecks c vr = do {
     found \<leftarrow> validateStatefulSetExists c (vrNamespace vr) (vrSTS vr);
     case found of
       (None, res) \<Rightarrow> ret (Inl (vres_message res))
     | (Some sts, _) \<Rightarrow>
         let res = validateVolumeTargets sts (vrVolumes vr) in
         if \<not> vres_valid res then ret (Inl (vres_message res))
         else do {
           res \<leftarrow> validateSizes c (vrNamespace vr) (vrSTS vr) (vrVolumes vr);
           if \<not> vres_valid res then ret (Inl (vres_message res))
           else do {
             res \<leftarrow> validatePDBAllowsDisruption c sts;
             if \<not> vres_valid res then ret (Inl (vres_message res))
             else ret (Inr sts)
           }
         }
   }"

definition handleValidating :: "client \<Rightarrow> VolumeResize \<Rightarrow> outcome io" where
  "handleValidating c vr = do {
     checked \<leftarrow> runChecks c vr;
     case checked of
       Inl message \<Rightarrow> setFailed c vr message
     | Inr sts \<Rightarrow> startSyncing c vr sts
   }"

subsection \<open>Syncing\<close>

definition currentCompleted :: "VolumeResize \<Rightarrow> int32 \<Rightarrow> string \<Rightarrow> bool" where
  "currentCompleted vr replica volName =
     list_ex (\<lambda>vs. isStatusOf volName replica vs \<and> vs_phase vs = VolumeStatusCompleted)
       (st_volumeStatuses (vr_status vr))"

text \<open>The target of that name; the zero value when the loop finds none.\<close>

definition zeroTarget :: VolumeResizeTarget where
  "zeroTarget = \<lparr>vt_name = '''', vt_newSize = ''0'', vt_storageClass = None\<rparr>"

fun findTarget :: "string \<Rightarrow> VolumeResizeTarget list \<Rightarrow> VolumeResizeTarget" where
  "findTarget volName [] = zeroTarget"
| "findTarget volName (v # vs) = (if vt_name v = volName then v else findTarget volName vs)"

text \<open>Lines 390-427: the pod must be back and running before the next volume is chosen.\<close>

definition awaitPod :: "client \<Rightarrow> VolumeResize \<Rightarrow> int32 \<Rightarrow> string \<Rightarrow> outcome io" where
  "awaitPod c vr replica volName = do {
     r \<leftarrow> GetPod c (vrNamespace vr) (getPodName (vrSTS vr) replica);
     case r of
       Inl err \<Rightarrow>
         if IsNotFound err then ret (requeueAfter (second * 5)) else ret (failWith err)
     | Inr pod \<Rightarrow>
         if pod_phase pod \<noteq> PodRunning then ret (requeueAfter (second * 5))
         else advance c vr replica volName
   }"

text \<open>
  The loops of lines 364-375 over the claim templates. Writing the new size into a template without
  a request map is the panic of a nil map (\<open>None\<close>).
\<close>

fun patchTemplate :: "VolumeResizeTarget list \<Rightarrow> PersistentVolumeClaim \<Rightarrow> PersistentVolumeClaim option" where
  "patchTemplate [] vct = Some vct"
| "patchTemplate (v # vs) vct =
     (if om_name (pvc_meta vct) = vt_name v
      then (case pvc_requests vct of
              None \<Rightarrow> None
            | Some requests \<Rightarrow> patchTemplate vs (vct\<lparr>
                pvc_requests := Some (requests(ResourceStorage \<mapsto> vt_newSize v)),
                pvc_storageClassName :=
                  (if vt_storageClass v \<noteq> None then vt_storageClass v
                   else pvc_storageClassName vct)\<rparr>))
      else patchTemplate vs vct)"

fun patchTemplates :: "VolumeResizeTarget list \<Rightarrow> PersistentVolumeClaim list \<Rightarrow> PersistentVolumeClaim list option" where
  "patchTemplates vols [] = Some []"
| "patchTemplates vols (vct # vcts) =
     (case patchTemplate vols vct of
        None \<Rightarrow> None
      | Some vct' \<Rightarrow>
          (case patchTemplates vols vcts of
             None \<Rightarrow> None
           | Some vcts' \<Rightarrow> Some (vct' # vcts')))"

definition nilMapPanic :: outcome where
  "nilMapPanic = Panicked ''assignment to entry in nil map''"

text \<open>Lines 357-388: the StatefulSet comes back from its backup, with the new templates.\<close>

definition restoreSTS :: "client \<Rightarrow> VolumeResize \<Rightarrow> int32 \<Rightarrow> string \<Rightarrow> outcome io" where
  "restoreSTS c vr replica volName = do {
     backup \<leftarrow> getSTSFromBackupConfigMap c (vrNamespace vr) (vrName vr);
     case backup of
       Inl err \<Rightarrow> setFailed c vr (''failed to get STS from backup: '' @ errText err)
     | Inr stsSpec \<Rightarrow>
         (case patchTemplates (vrVolumes vr) (sts_volumeClaimTemplates stsSpec) of
            None \<Rightarrow> ret nilMapPanic
          | Some vcts \<Rightarrow> do {
              created \<leftarrow> recreateSTS c (stsSpec\<lparr>sts_volumeClaimTemplates := vcts\<rparr>);
              if (case created of None \<Rightarrow> False | Some err \<Rightarrow> \<not> IsAlreadyExists err)
              then setFailed c vr (''failed to recreate STS: '' @ (case created of None \<Rightarrow> '''' | Some err \<Rightarrow> errText err))
              else do {
                u \<leftarrow> UpdateVR c (withMeta (\<lambda>m. m\<lparr>om_annotations :=
                       goDelete (om_annotations m) AnnotationSTSDeleted\<rparr>) vr);
                case u of
                  Inl err \<Rightarrow> ret (failWith err)
                | Inr vr \<Rightarrow> awaitPod c vr replica volName
              }
            })
   }"

text \<open>Lines 341-355: the claim is replaced and the completed status is persisted at once.\<close>

definition swapVolume :: "client \<Rightarrow> VolumeResize \<Rightarrow> VolumeResizeTarget \<Rightarrow> int32 \<Rightarrow> string \<Rightarrow> outcome io" where
  "swapVolume c vr vol replica volName =
     (let vr = updateVolumeStatus vr volName replica VolumeStatusSynced ''Migration complete'' in do {
        replaced \<leftarrow> replacePVC c vr vol replica;
        case replaced of
          Some err \<Rightarrow> setFailed c vr (''failed to replace PVC: '' @ errText err)
        | None \<Rightarrow> do {
            u \<leftarrow> StatusUpdateVR c
                   (updateVolumeStatus vr volName replica VolumeStatusCompleted ''PVC replaced'');
            case u of
              Inl err \<Rightarrow> ret (failWith err)
            | Inr vr \<Rightarrow> restoreSTS c vr replica volName
          }
      })"

text \<open>
  Lines 321-334: the wait for the migrator and the second look at it when the wait failed.
  \<open>Some\<close> is an early return, \<open>None\<close> goes on.
\<close>

definition awaitMigration :: "client \<Rightarrow> VolumeResize \<Rightarrow> Pod \<Rightarrow> outcome option io" where
  "awaitMigration c vr migratorPod = do {
     w \<leftarrow> waitForMigrationComplete c (om_name (pod_meta migratorPod)) (vrNamespace vr) hour;
     case w of
       None \<Rightarrow> ret None
     | Some err \<Rightarrow> do {
         r \<leftarrow> GetPod c (vrNamespace vr) (om_name (pod_meta migratorPod));
         case r of
           Inl getErr \<Rightarrow> ret None
         | Inr pod \<Rightarrow>
             if pod_phase pod = PodRunning \<or> pod_phase pod = PodPending
             then ret (Some (requeueAfter (second * 10)))
             else if pod_phase pod = PodFailed
             then do { out \<leftarrow> setFailed c vr ''migration pod failed''; ret (Some out) }
             else ret None
       }
   }"

text \<open>Lines 315-339; a failed cleanup is only logged.\<close>

definition runMigration :: "client \<Rightarrow> VolumeResize \<Rightarrow> VolumeResizeTarget \<Rightarrow> int32 \<Rightarrow> string \<Rightarrow> string \<Rightarrow> string \<Rightarrow> outcome io" where
  "runMigration c vr vol replica volName originalPVCName tempPVCName = do {
     m \<leftarrow> createMigratorPod c vr vol replica originalPVCName tempPVCName;
     case m of
       Inl err \<Rightarrow> setFailed c vr (''failed to create migrator pod: '' @ errText err)
     | Inr migratorPod \<Rightarrow> do {
         early \<leftarrow> awaitMigration c vr migratorPod;
         case early of
           Some out \<Rightarrow> ret out
         | None \<Rightarrow> do {
             _ \<leftarrow> cleanupMigratorPod c (om_name (pod_meta migratorPod)) (vrNamespace vr);
             swapVolume c vr vol replica volName
           }
       }
   }"

text \<open>Lines 303-313; a failed deletion of the pod is only logged, the wait decides.\<close>

definition stopPod :: "client \<Rightarrow> VolumeResize \<Rightarrow> VolumeResizeTarget \<Rightarrow> int32 \<Rightarrow> string \<Rightarrow> string \<Rightarrow> string \<Rightarrow> outcome io" where
  "stopPod c vr vol replica volName originalPVCName tempPVCName =
     (let podName = getPodName (vrSTS vr) replica in do {
        _ \<leftarrow> deletePod c (vrNamespace vr) (vrSTS vr) replica;
        w \<leftarrow> waitForPodTermination c (vrNamespace vr) podName (minute * 2);
        case w of
          Some err \<Rightarrow> ret (requeueAfter (second * 5))
        | None \<Rightarrow> runMigration c vr vol replica volName originalPVCName tempPVCName
      })"

text \<open>Lines 285-299: the annotations that record the deletion, then the backup's name.\<close>

definition markSTSDeleted :: "client \<Rightarrow> VolumeResize \<Rightarrow> (outcome + VolumeResize) io" where
  "markSTSDeleted c vr = do {
     u \<leftarrow> UpdateVR c (withMeta (\<lambda>m. m\<lparr>om_annotations := Some
            ((case om_annotations m of None \<Rightarrow> Map.empty | Some t \<Rightarrow> t)
               (AnnotationSTSDeleted \<mapsto> ''true'',
                AnnotationSTSBackup \<mapsto> getSTSBackupConfigMapName (vrName vr)))\<rparr>) vr);
     case u of
       Inl err \<Rightarrow> ret (Inl (failWith err))
     | Inr vr \<Rightarrow> do {
         w \<leftarrow> StatusUpdateVR c (withStatus (\<lambda>s. s\<lparr>
                st_backupConfigMapName := getSTSBackupConfigMapName (vrName vr)\<rparr>) vr);
         case w of
           Inl err \<Rightarrow> ret (Inl (failWith err))
         | Inr vr \<Rightarrow> ret (Inr vr)
       }
   }"

text \<open>
  Lines 266-301: unless the annotation says it is gone, the StatefulSet is backed up and then
  deleted with its pods left running. \<open>Inl\<close> is an early return, \<open>Inr\<close> the object to go on with.
\<close>

definition orphanSTS :: "client \<Rightarrow> VolumeResize \<Rightarrow> (outcome + VolumeResize) io" where
  "orphanSTS c vr =
     (if om_annotations (vr_meta vr) = None \<or>
         goIndex (om_annotations (vr_meta vr)) AnnotationSTSDeleted \<noteq> ''true''
      then do {
        r \<leftarrow> GetSTS c (vrNamespace vr) (vrSTS vr);
        case r of
          Inl err \<Rightarrow> if \<not> IsNotFound err then ret (Inl (failWith err)) else ret (Inr vr)
        | Inr sts \<Rightarrow> do {
            b \<leftarrow> backupSTSToConfigMap c vr sts;
            case b of
              Some err \<Rightarrow> do {
                out \<leftarrow> setFailed c vr (''failed to backup STS to ConfigMap: '' @ errText err);
                ret (Inl out)
              }
            | None \<Rightarrow> do {
                d \<leftarrow> deleteSTSOrphan c sts;
                case d of
                  Inl err \<Rightarrow> do {
                    out \<leftarrow> setFailed c vr (''failed to delete STS: '' @ errText err);
                    ret (Inl out)
                  }
                | Inr _ \<Rightarrow> markSTSDeleted c vr
              }
          }
      }
      else ret (Inr vr))"

text \<open>Lines 252-264: the old volume is kept, and the entry records the names.\<close>

definition recordNames :: "string \<Rightarrow> string \<Rightarrow> string \<Rightarrow> VolumeStatus \<Rightarrow> VolumeStatus" where
  "recordNames originalPVCName tempPVCName oldPVName vs =
     vs\<lparr>vs_oldPVCName := originalPVCName, vs_newPVCName := tempPVCName, vs_oldPVName := oldPVName\<rparr>"

definition retainOldVolume :: "client \<Rightarrow> VolumeResize \<Rightarrow> VolumeResizeTarget \<Rightarrow> int32 \<Rightarrow> string \<Rightarrow> string \<Rightarrow> string \<Rightarrow> string \<Rightarrow> outcome io" where
  "retainOldVolume c vr vol replica volName originalPVCName tempPVCName oldPVName = do {
     r \<leftarrow> setRetainOnPV c oldPVName;
     case r of
       Some err \<Rightarrow> setFailed c vr (''failed to set retain on PV: '' @ errText err)
     | None \<Rightarrow> do {
         let vr = updateVolumeStatus vr volName replica VolumeStatusSyncing ''Preparing migration'';
         let vr = withStatus (\<lambda>s. s\<lparr>st_volumeStatuses :=
                    updateVolumeStatusInList (st_volumeStatuses s) volName replica
                      (recordNames originalPVCName tempPVCName oldPVName)\<rparr>) vr;
         o' \<leftarrow> orphanSTS c vr;
         case o' of
           Inl out \<Rightarrow> ret out
         | Inr vr \<Rightarrow> stopPod c vr vol replica volName originalPVCName tempPVCName
       }
   }"

text \<open>Lines 235-245: whether the temporary claim must be bound before going on.\<close>

definition mustWaitForBinding :: "client \<Rightarrow> PersistentVolumeClaim \<Rightarrow> bool io" where
  "mustWaitForBinding c tempPVC =
     (case pvc_storageClassName tempPVC of
        None \<Rightarrow> ret True
      | Some name \<Rightarrow>
          if name = '''' then ret True
          else do {
            r \<leftarrow> GetSC c name;
            case r of
              Inl err \<Rightarrow> ret True
            | Inr sc \<Rightarrow> ret (sc_volumeBindingMode sc \<noteq> Some BindingWaitForFirstConsumer)
          })"

text \<open>Lines 210-250: the claims of the current volume.\<close>

definition prepareClaims :: "client \<Rightarrow> VolumeResize \<Rightarrow> int32 \<Rightarrow> string \<Rightarrow> outcome io" where
  "prepareClaims c vr replica volName =
     (let vol = findTarget volName (vrVolumes vr);
          originalPVCName = getOriginalPVCName volName (vrSTS vr) replica;
          tempPVCName = getTempPVCName volName (vrSTS vr) replica
      in do {
        r \<leftarrow> getPVC c (vrNamespace vr) originalPVCName;
        case r of
          Inl err \<Rightarrow> setFailed c vr (''failed to get original PVC: '' @ errText err)
        | Inr originalPVC \<Rightarrow> do {
            t \<leftarrow> createTempPVC c vr vol originalPVC replica;
            case t of
              Inl err \<Rightarrow> setFailed c vr (''failed to create temp PVC: '' @ errText err)
            | Inr tempPVC \<Rightarrow> do {
                waitForBinding \<leftarrow> mustWaitForBinding c tempPVC;
                if waitForBinding \<and> pvc_phase tempPVC \<noteq> ClaimBound
                then ret (requeueAfter (second * 5))
                else retainOldVolume c vr vol replica volName originalPVCName tempPVCName
                       (pvc_volumeName originalPVC)
              }
          }
      })"

definition nilPointerPanic :: outcome where
  "nilPointerPanic = Panicked ''invalid memory address or nil pointer dereference''"

definition handleSyncing :: "client \<Rightarrow> VolumeResize \<Rightarrow> outcome io" where
  "handleSyncing c vr =
     (case st_currentReplica (vr_status vr) of
        None \<Rightarrow> ret nilPointerPanic
      | Some replica \<Rightarrow>
          let volName = st_currentVolume (vr_status vr) in
          if currentCompleted vr replica volName then advance c vr replica volName
          else prepareClaims c vr replica volName)"

subsection \<open>Replacing, deletion, dispatch\<close>

definition handleReplacing :: "client \<Rightarrow> VolumeResize \<Rightarrow> outcome io" where
  "handleReplacing c vr = do {
     now \<leftarrow> Now c;
     u \<leftarrow> StatusUpdateVR c (withStatus (\<lambda>s. s\<lparr>st_phase := PhaseCompleted,
            st_completionTime := Some now, st_message := MessageMigrationCompleted\<rparr>) vr);
     case u of
       Inl err \<Rightarrow> ret (failWith err)
     | Inr _ \<Rightarrow> ret finished
   }"

text \<open>The loops over the listed objects; failed deletions are only logged.\<close>

fun deletePVCs :: "client \<Rightarrow> PersistentVolumeClaim list \<Rightarrow> unit io" where
  "deletePVCs c [] = ret ()"
| "deletePVCs c (pvc # pvcs) = do {
     _ \<leftarrow> DeletePVC c (om_namespace (pvc_meta pvc)) (om_name (pvc_meta pvc));
     deletePVCs c pvcs
   }"

fun deletePods :: "client \<Rightarrow> Pod list \<Rightarrow> unit io" where
  "deletePods c [] = ret ()"
| "deletePods c (pod # pods) = do {
     _ \<leftarrow> DeletePod c (om_namespace (pod_meta pod)) (om_name (pod_meta pod));
     deletePods c pods
   }"

definition handleDeletion :: "client \<Rightarrow> VolumeResize \<Rightarrow> outcome io" where
  "handleDeletion c vr = do {
     pvcList \<leftarrow> ListPVC c (vrNamespace vr) LabelMigrationName (vrName vr);
     _ \<leftarrow> (case pvcList of Inl err \<Rightarrow> ret () | Inr items \<Rightarrow> deletePVCs c items);
     podList \<leftarrow> ListPods c (vrNamespace vr) LabelMigrationName (vrName vr);
     _ \<leftarrow> (case podList of Inl err \<Rightarrow> ret () | Inr items \<Rightarrow> deletePods c items);
     u \<leftarrow> UpdateVR c (withMeta (\<lambda>m. m\<lparr>om_finalizers :=
            l_removeFinalizer c (om_finalizers m) FinalizerName\<rparr>) vr);
     case u of
       Inl err \<Rightarrow> ret (failWith err)
     | Inr _ \<Rightarrow> ret finished
   }"

text \<open>Lines 84-100.\<close>

definition dispatch :: "client \<Rightarrow> VolumeResize \<Rightarrow> outcome io" where
  "dispatch c vr =
     (let phase = vrPhase vr in
      if phase = '''' \<or> phase = PhasePending then handlePending c vr
      else if phase = PhaseValidating then handleValidating c vr
      else if phase = PhaseSyncing then handleSyncing c vr
      else if phase = PhaseReplacing then handleReplacing c vr
      else if phase = PhaseCompleted \<or> phase = PhaseFailed then ret finished
      else ret finished)"

definition Reconcile :: "client \<Rightarrow> string \<Rightarrow> string \<Rightarrow> outcome io" where
  "Reconcile c namespace name = do {
     r \<leftarrow> GetVR c namespace name;
     case r of
       Inl err \<Rightarrow> if IsNotFound err then ret finished else ret (failWith err)
     | Inr vr \<Rightarrow>
         if om_deletionTimestamp (vr_meta vr) \<noteq> None then handleDeletion c vr
         else if \<not> l_containsFinalizer c (om_finalizers (vr_meta vr)) FinalizerName
         then do {
           u \<leftarrow> UpdateVR c (withMeta (\<lambda>m. m\<lparr>om_finalizers :=
                  l_addFinalizer c (om_finalizers m) FinalizerName\<rparr>) vr);
           case u of
             Inl err \<Rightarrow> ret (failWith err)
           | Inr _ \<Rightarrow> ret requeue
         }
         else dispatch c vr
   }"

section \<open>Properties\<close>

text \<open>What the loops over the templates are meant to do to one of them.\<close>

definition resized :: "VolumeResizeTarget \<Rightarrow> PersistentVolumeClaim \<Rightarrow> PersistentVolumeClaim option" where
  "resized v vct = map_option (\<lambda>requests. vct\<lparr>
     pvc_requests := Some (requests(ResourceStorage \<mapsto> vt_newSize v)),
     pvc_storageClassName := (case vt_storageClass v of None \<Rightarrow> pvc_storageClassName vct | Some sc \<Rightarrow> Some sc)\<rparr>)
     (pvc_requests vct)"

definition newTemplate :: "VolumeResizeTarget list \<Rightarrow> PersistentVolumeClaim \<Rightarrow> PersistentVolumeClaim option" where
  "newTemplate vols vct =
     (case find (\<lambda>v. vt_name v = om_name (pvc_meta vct)) vols of None \<Rightarrow> Some vct | Some v \<Rightarrow> resized v vct)"

lemma patchTemplate_absent: "om_name (pvc_meta vct) \<notin> vt_name ` set vols \<Longrightarrow> patchTemplate vols vct = Some vct"
  by (induction vols arbitrary: vct) auto

lemma patchTemplate_eq: "distinct (map vt_name vols) \<Longrightarrow> patchTemplate vols vct = newTemplate vols vct"
proof (induction vols arbitrary: vct)
  case Nil
  then show ?case by (simp add: newTemplate_def)
next
  case (Cons v vols)
  show ?case
  proof (cases "vt_name v = om_name (pvc_meta vct)")
    case True
    with Cons.prems show ?thesis
      by (auto simp: newTemplate_def resized_def patchTemplate_absent split: option.split)
  next
    case False
    with Cons show ?thesis by (simp add: newTemplate_def)
  qed
qed


definition exampleTemplate :: "string \<Rightarrow> (string, quantity) go_map \<Rightarrow> PersistentVolumeClaim" where
  "exampleTemplate n requests = \<lparr>pvc_meta = zeroMeta\<lparr>om_name := n\<rparr>, pvc_accessModes = [], pvc_storageClassName = None,
     pvc_volumeName = '''', pvc_requests = requests, pvc_phase = '''', pvc_rest = ''''\<rparr>"


end
