(* ===== verification/Schedule.thy ===== *)
theory Schedule
  imports Controller
begin

section \<open>The schedule: which volume of which replica comes when\<close>

text \<open>
  The controller migrates one volume of one replica at a time. The order is in no data structure: it
  is what \<open>initialStatuses\<close> and \<open>getNextVolumeReplica\<close> compute. This theory states it as a
  list, replica by replica and within a replica volume by volume, and shows that both functions
  follow it, that the status entries are its keys, and what the two update functions do to them.
\<close>

subsection \<open>Keys and positions\<close>

definition key :: "VolumeStatus \<Rightarrow> int32 \<times> string" where
  "key vs = (vs_replica vs, vs_volumeName vs)"

text \<open>The replica and volume at position \<open>k\<close>.\<close>

definition keyAt :: "VolumeResizeTarget list \<Rightarrow> nat \<Rightarrow> int32 \<times> string" where
  "keyAt vols k = (word_of_nat (k div length vols), vt_name (vols ! (k mod length vols)))"

definition schedule :: "VolumeResizeTarget list \<Rightarrow> nat \<Rightarrow> (int32 \<times> string) list" where
  "schedule vols n = map (keyAt vols) [0..<n * length vols]"

text \<open>What the spec must have for the order to be one: a volume, and no name twice.\<close>

definition plannable :: "VolumeResizeTarget list \<Rightarrow> bool" where
  "plannable vols \<longleftrightarrow> vols \<noteq> [] \<and> distinct (map vt_name vols)"

lemma plannable_length: "plannable vols \<Longrightarrow> 0 < length vols"
  by (simp add: plannable_def)

lemma schedule_length [simp]: "length (schedule vols n) = n * length vols"
  by (simp add: schedule_def)

lemma schedule_nth [simp]: "k < n * length vols \<Longrightarrow> schedule vols n ! k = keyAt vols k"
  by (simp add: schedule_def)

text \<open>Replica numbers as 32-bit words: positions of a schedule stay in the positive range.\<close>

lemma sint_word_of_nat: "r < 2 ^ 31 \<Longrightarrow> sint (word_of_nat r :: int32) = int r"
  by (simp add: signed_of_nat signed_take_bit_int_eq_self)

lemma word_of_nat_inject: "i < 2 ^ 31 \<Longrightarrow> j < 2 ^ 31 \<Longrightarrow> (word_of_nat i :: int32) = word_of_nat j \<longleftrightarrow> i = j"
  by (metis nat_int sint_word_of_nat)

lemma word_of_nat_sint: "0 \<le> sint (w :: int32) \<Longrightarrow> word_of_nat (nat (sint w)) = w"
  by (rule signed_word_eqI) (use sint_lt [of w] in \<open>simp add: sint_word_of_nat nat_less_iff\<close>)

lemma word_of_nat_less: "i < 2 ^ 31 \<Longrightarrow> j < 2 ^ 31 \<Longrightarrow> (word_of_nat i :: int32) <s word_of_nat j \<longleftrightarrow> i < j"
  by (simp add: word_sless_alt sint_word_of_nat)

lemma position_less: "k < n * m \<Longrightarrow> k div m < (n::nat)"
  by (simp add: less_mult_imp_div_less)

lemma keyAt_inject:
  assumes "plannable vols" "n \<le> 2 ^ 31" "j < n * length vols" "k < n * length vols"
  shows "keyAt vols j = keyAt vols k \<longleftrightarrow> j = k"
proof
  assume eq: "keyAt vols j = keyAt vols k"
  have "j div length vols < n" "k div length vols < n"
    using assms(3,4) by (simp_all add: position_less)
  then have "j div length vols = k div length vols"
    using eq assms(2) by (simp add: keyAt_def word_of_nat_inject)
  moreover have "j mod length vols < length vols" "k mod length vols < length vols"
    using plannable_length [OF assms(1)] by simp_all
  then have "j mod length vols = k mod length vols"
    using eq assms(1) by (auto simp: keyAt_def plannable_def distinct_nth_unique)
  ultimately show "j = k"
    by (metis div_mult_mod_eq)
qed simp

lemma schedule_distinct: "plannable vols \<Longrightarrow> n \<le> 2 ^ 31 \<Longrightarrow> distinct (schedule vols n)"
  by (simp add: distinct_conv_nth keyAt_inject)

text \<open>The step from a position to the next one.\<close>

lemma keyAt_Suc:
  assumes "plannable vols"
  shows "keyAt vols (Suc k) =
    (if Suc (k mod length vols) < length vols
     then (fst (keyAt vols k), vt_name (vols ! Suc (k mod length vols)))
     else (fst (keyAt vols k) + 1, vt_name (vols ! 0)))"
proof -
  have "k mod length vols < length vols"
    using plannable_length [OF assms] by simp
  then show ?thesis
    by (auto simp: keyAt_def div_Suc mod_Suc)
qed

subsection \<open>The entries that validation creates\<close>

lemma row_position: "x < m \<Longrightarrow> (i * m + x) div m = i" "x < m \<Longrightarrow> (i * m + x) mod m = (x::nat)"
  by (cases "m = 0"; simp)+

lemma upt_split: "i \<le> j \<Longrightarrow> j \<le> k \<Longrightarrow> [i..<k] = [i..<j] @ [j..<k]"
  using upt_add_eq_append [of i j "k - j"] by simp

lemma initialStatuses_key:
  assumes "i \<le> n" "n < 2 ^ 31"
  shows "map key (initialStatuses vols (word_of_nat i) (word_of_nat n)) = map (keyAt vols) [i * length vols..<n * length vols]"
  using assms(1)
proof (induction "n - i" arbitrary: i)
  case 0
  then show ?case
    using assms(2) by (simp add: initialStatuses.simps [of _ "word_of_nat i"] word_of_nat_less)
next
  case (Suc d)
  let ?m = "length vols"
  have i: "i < n" using Suc.hyps by simp
  have split: "[i * ?m..<n * ?m] = [i * ?m..<Suc i * ?m] @ [Suc i * ?m..<n * ?m]"
    by (rule upt_split) (use i in \<open>simp_all add: mult_le_mono1 del: mult_Suc\<close>)
  have row: "map (keyAt vols) [i * ?m..<Suc i * ?m] = map (\<lambda>v. (word_of_nat i, vt_name v)) vols"
    by (rule nth_equalityI) (auto simp: keyAt_def row_position)
  have "map key (initialStatuses vols (word_of_nat (Suc i)) (word_of_nat n)) =
      map (keyAt vols) [Suc i * ?m..<n * ?m]"
    using Suc by (intro Suc.hyps(1)) simp_all
  then show ?case
    using i assms(2) by (simp add: add.commute [of "word_of_nat i" "1 :: int32"] initialStatuses.simps [of _ "word_of_nat i"] word_of_nat_less
        split row key_def initialStatus_def comp_def del: mult_Suc upt_Suc)
qed

theorem initialStatuses_schedule:
  "map key (initialStatuses vols 0 replicas) = schedule vols (nat (sint replicas))"
proof (cases "0 \<le> sint replicas")
  case True
  have "nat (sint replicas) < 2 ^ 31"
    using sint_lt [of replicas] by simp
  then show ?thesis
    using initialStatuses_key [of 0 "nat (sint replicas)" vols] True
    by (simp add: schedule_def word_of_nat_sint)
next
  case False
  then show ?thesis
    by (simp add: initialStatuses.simps [of _ 0] word_sless_alt schedule_def)
qed

lemma initialStatuses_pending:
  "vs \<in> set (initialStatuses vols i replicas) \<Longrightarrow> vs_phase vs = VolumeStatusPending"
  by (induction vols i replicas rule: initialStatuses.induct)
    (subst (asm) (2) initialStatuses.simps, auto simp: initialStatus_def split: if_splits)

subsection \<open>The choice of the next position\<close>

lemma volumeIndexFrom_nth:
  "distinct (map vt_name vols) \<Longrightarrow> j < length vols \<Longrightarrow> volumeIndexFrom i (vt_name (vols ! j)) vols = i + j"
proof (induction vols arbitrary: i j)
  case Nil
  then show ?case by simp
next
  case (Cons v vols)
  then show ?case by (cases j) force+
qed

text \<open>The maximum over the entries, as signed numbers.\<close>

lemma maxReplica_fold:
  "sint m \<le> sint (fold (\<lambda>vs m. if m <s vs_replica vs then vs_replica vs else m) es m) \<and>
   (\<forall>e \<in> set es. sint (vs_replica e) \<le> sint (fold (\<lambda>vs m. if m <s vs_replica vs then vs_replica vs else m) es m)) \<and>
   fold (\<lambda>vs m. if m <s vs_replica vs then vs_replica vs else m) es m \<in> insert m (vs_replica ` set es)"
proof (induction es arbitrary: m)
  case Nil
  then show ?case by simp
next
  case (Cons e es)
  let ?m = "if m <s vs_replica e then vs_replica e else m"
  have "sint m \<le> sint ?m" "sint (vs_replica e) \<le> sint ?m" "?m \<in> {m, vs_replica e}"
    by (auto simp: word_sless_alt)
  then show ?case
    using Cons.IH [of ?m] by (auto simp del: if_split)
qed

lemma maxReplicaOf_schedule:
  assumes keys: "map key es = schedule vols n" and "plannable vols" and n: "0 < n" "n \<le> 2 ^ 31"
  shows "maxReplicaOf es = word_of_nat (n - 1)"
proof -
  let ?m = "length vols" and ?x = "maxReplicaOf es"
  have m: "0 < ?m" by (rule plannable_length [OF assms(2)])
  have replicas: "vs_replica ` set es = (\<lambda>k. word_of_nat (k div ?m)) ` {..<n * ?m}"
  proof -
    have "vs_replica ` set es = fst ` set (map key es)"
      by (force simp: key_def)
    also have "\<dots> = (\<lambda>k. word_of_nat (k div ?m)) ` {..<n * ?m}"
      unfolding keys schedule_def by (auto simp: keyAt_def image_image atLeast0LessThan)
    finally show ?thesis .
  qed
  have bound: "sint (w :: int32) \<le> int (n - 1)" if "w \<in> vs_replica ` set es" for w
  proof -
    obtain k where "k < n * ?m" "w = word_of_nat (k div ?m)"
      using \<open>w \<in> vs_replica ` set es\<close> replicas by auto
    moreover then have "k div ?m < n"
      by (simp add: position_less)
    ultimately show ?thesis
      using n by (simp add: sint_word_of_nat)
  qed
  have "word_of_nat (n - 1) \<in> vs_replica ` set es"
    unfolding replicas using m n by (intro image_eqI [of _ _ "(n - 1) * ?m"]) simp_all
  then have "sint (word_of_nat (n - 1) :: int32) \<le> sint ?x"
    using maxReplica_fold [of 0 es] by (auto simp: maxReplicaOf_def)
  moreover have "sint ?x \<le> int (n - 1)"
    using maxReplica_fold [of 0 es] bound by (auto simp: maxReplicaOf_def)
  moreover have "sint (word_of_nat (n - 1) :: int32) = int (n - 1)"
    using n by (intro sint_word_of_nat) simp
  ultimately have "sint ?x = sint (word_of_nat (n - 1) :: int32)"
    by linarith
  then show ?thesis
    by (rule signed_word_eqI)
qed

theorem getNextVolumeReplica_schedule:
  assumes "plannable (vrVolumes vr)" and keys: "map key (st_volumeStatuses (vr_status vr)) = schedule (vrVolumes vr) n"
    and n: "n \<le> 2 ^ 31" and k: "k < n * length (vrVolumes vr)"
  shows "getNextVolumeReplica vr (fst (keyAt (vrVolumes vr) k)) (snd (keyAt (vrVolumes vr) k)) =
    Some (if Suc k < n * length (vrVolumes vr)
          then (fst (keyAt (vrVolumes vr) (Suc k)), snd (keyAt (vrVolumes vr) (Suc k)), False)
          else (0, '''', True))"
proof -
  let ?vols = "vrVolumes vr" and ?m = "length (vrVolumes vr)"
  have m: "0 < ?m" by (rule plannable_length [OF assms(1)])
  have idx: "volumeIndexFrom 0 (snd (keyAt ?vols k)) ?vols = k mod ?m"
    using assms(1) m by (simp add: keyAt_def plannable_def volumeIndexFrom_nth)
  have row: "k div ?m < n" using k by (rule position_less)
  have last: "maxReplicaOf (st_volumeStatuses (vr_status vr)) = word_of_nat (n - 1)"
    using maxReplicaOf_schedule [OF keys assms(1)] row n by simp
  have less: "fst (keyAt ?vols k) <s word_of_nat (n - 1) \<longleftrightarrow> k div ?m < n - 1"
    unfolding keyAt_def fst_conv using row n by (intro word_of_nat_less) simp_all
  show ?thesis
  proof (cases "Suc (k mod ?m) < ?m")
    case True
    have "Suc k < n * ?m"
    proof (rule ccontr)
      assume "\<not> Suc k < n * ?m"
      then have "Suc k = n * ?m" using k by simp
      then have "Suc k mod ?m = 0" by simp
      then show False using True by (simp add: mod_Suc)
    qed
    with True show ?thesis
      by (simp add: getNextVolumeReplica_def idx keyAt_Suc [OF assms(1)])
  next
    case False
    then have at_end: "Suc (k mod ?m) = ?m"
      using mod_less_divisor [OF m, of k] by linarith
    then have "Suc k = Suc (k div ?m) * ?m"
      by (metis add.commute add_Suc_right div_mult_mod_eq mult_Suc)
    then have "Suc k < n * ?m \<longleftrightarrow> Suc (k div ?m) < n"
      using m by (simp del: mult_Suc)
    with False at_end less show ?thesis
      using assms(1) by (auto simp: getNextVolumeReplica_def idx last keyAt_Suc plannable_def hd_conv_nth
          split: list.split)
  qed
qed

subsection \<open>Changing one entry\<close>

lemma isStatusOf_key: "isStatusOf v r e \<longleftrightarrow> key e = (r, v)"
  by (auto simp: isStatusOf_def key_def)

text \<open>
  \<open>updateVolumeStatus\<close> changes the first entry of a volume and replica,
  \<open>updateVolumeStatusInList\<close> every one. The contract they share: entries of other keys stay, an
  entry of the key is changed, and whether the rest is searched too is left open. When keys are
  distinct that makes no difference: both are the update of one position.
\<close>

locale entry_update =
  fixes upd :: "string \<Rightarrow> int32 \<Rightarrow> VolumeStatus list \<Rightarrow> VolumeStatus list"
    and change :: "VolumeStatus \<Rightarrow> VolumeStatus"
  assumes upd_Nil: "upd v r [] = []"
    and upd_other: "\<not> isStatusOf v r e \<Longrightarrow> upd v r (e # es) = e # upd v r es"
    and upd_hit: "isStatusOf v r e \<Longrightarrow> upd v r (e # es) = change e # es \<or> upd v r (e # es) = change e # upd v r es"
    and keeps_key: "key (change e) = key e"
begin

lemma upd_keys: "map key (upd v r es) = map key es"
proof (induction es)
  case Nil
  then show ?case by (simp add: upd_Nil)
next
  case (Cons e es)
  then show ?case
    using upd_other [of v r e es] upd_hit [of v r e es] by (cases "isStatusOf v r e") (auto simp: keeps_key)
qed

lemma upd_absent: "(r, v) \<notin> key ` set es \<Longrightarrow> upd v r es = es"
  by (induction es) (auto simp: upd_Nil upd_other isStatusOf_key)

lemma upd_at:
  "distinct (map key es) \<Longrightarrow> k < length es \<Longrightarrow> key (es ! k) = (r, v) \<Longrightarrow> upd v r es = es[k := change (es ! k)]"
proof (induction es arbitrary: k)
  case Nil
  then show ?case by simp
next
  case (Cons e es)
  show ?case
  proof (cases k)
    case 0
    then have hit: "isStatusOf v r e" and "(r, v) \<notin> key ` set es"
      using Cons.prems by (auto simp: isStatusOf_key)
    with 0 show ?thesis
      using upd_hit [OF hit, of es] by (auto simp: upd_absent)
  next
    case (Suc j)
    have "key e \<noteq> (r, v)"
      using Cons.prems Suc by (metis distinct.simps(2) image_eqI length_Cons list.simps(9) list.set_map nth_Cons_Suc nth_mem Suc_less_eq)
    then show ?thesis
      using Cons.IH [of j] Cons.prems Suc by (simp add: upd_other isStatusOf_key)
  qed
qed

end

interpretation first_entry: entry_update "\<lambda>v r. setFirstStatus v r phase message"
  "\<lambda>vs. vs\<lparr>vs_phase := phase, vs_message := message\<rparr>" for phase message
  by unfold_locales (auto simp: key_def)

interpretation every_entry: entry_update
  "\<lambda>v r es. updateVolumeStatusInList es v r (recordNames a b d)" "recordNames a b d" for a b d
  by unfold_locales (auto simp: updateVolumeStatusInList_def key_def recordNames_def)

lemma currentCompleted_schedule:
  assumes "plannable vols" "n \<le> 2 ^ 31" "k < n * length vols"
    and keys: "map key (st_volumeStatuses (vr_status vr)) = schedule vols n"
  shows "currentCompleted vr (fst (keyAt vols k)) (snd (keyAt vols k)) \<longleftrightarrow>
    vs_phase (st_volumeStatuses (vr_status vr) ! k) = VolumeStatusCompleted"
proof -
  let ?es = "st_volumeStatuses (vr_status vr)"
  have len: "length ?es = n * length vols"
    using arg_cong [OF keys, of length] by simp
  have at: "key (?es ! j) = keyAt vols j" if "j < n * length vols" for j
    using that keys len by (metis nth_map schedule_nth)
  have "currentCompleted vr (fst (keyAt vols k)) (snd (keyAt vols k)) \<longleftrightarrow>
      (\<exists>j < n * length vols. keyAt vols j = keyAt vols k \<and> vs_phase (?es ! j) = VolumeStatusCompleted)"
    by (auto simp: currentCompleted_def isStatusOf_key list_ex_length len at)
  also have "\<dots> \<longleftrightarrow> vs_phase (?es ! k) = VolumeStatusCompleted"
    using assms(1-3) by (auto simp: keyAt_inject)
  finally show ?thesis .
qed

section \<open>Properties\<close>

text \<open>
  C35: For any replica count, 32-bit and possibly negative, validation creates one entry for each
  volume of each replica, in the order of the schedule, all pending; none when the count is not
  positive.
\<close>

theorem entries_created:
  "map key (initialStatuses vols 0 replicas) = schedule vols (nat (sint replicas)) \<and>
   list_all (\<lambda>vs. vs_phase vs = VolumeStatusPending) (initialStatuses vols 0 replicas)"
  using initialStatuses_schedule initialStatuses_pending by (auto simp: list_all_iff)

text \<open>The positions that the controller goes through from a given one, at most \<open>fuel\<close> of them.\<close>

fun tour :: "VolumeResize \<Rightarrow> nat \<Rightarrow> int32 \<Rightarrow> string \<Rightarrow> (int32 \<times> string) list" where
  "tour vr 0 r v = []"
| "tour vr (Suc fuel) r v = (r, v) #
     (case getNextVolumeReplica vr r v of
        Some (r', v', False) \<Rightarrow> tour vr fuel r' v'
      | _ \<Rightarrow> [])"

lemma tour_from:
  assumes "plannable (vrVolumes vr)" and "map key (st_volumeStatuses (vr_status vr)) = schedule (vrVolumes vr) n"
    and "n \<le> 2 ^ 31" and "k < n * length (vrVolumes vr)" and "n * length (vrVolumes vr) - k \<le> fuel"
  shows "tour vr fuel (fst (keyAt (vrVolumes vr) k)) (snd (keyAt (vrVolumes vr) k)) =
    map (keyAt (vrVolumes vr)) [k..<n * length (vrVolumes vr)]"
  using assms(4,5)
proof (induction fuel arbitrary: k)
  case 0
  then show ?case by simp
next
  case (Suc fuel)
  note step = getNextVolumeReplica_schedule [OF assms(1-3) Suc.prems(1)]
  show ?case
  proof (cases "Suc k < n * length (vrVolumes vr)")
    case True
    then show ?thesis
      using Suc.IH [of "Suc k"] Suc.prems step by (simp add: upt_conv_Cons)
  next
    case False
    then have "[k..<n * length (vrVolumes vr)] = [k]"
      using Suc.prems(1) by (simp add: upt_conv_Cons)
    with False step show ?thesis by simp
  qed
qed

text \<open>
  C27: Starting where validation starts, \<open>getNextVolumeReplica\<close> leads through the whole schedule,
  every volume of every replica exactly once and in order, and then says that all is done.
\<close>

theorem tour_is_schedule:
  assumes "plannable (vrVolumes vr)" and "map key (st_volumeStatuses (vr_status vr)) = schedule (vrVolumes vr) n"
    and "0 < n" and "n \<le> 2 ^ 31" and "n * length (vrVolumes vr) \<le> fuel"
  shows "tour vr fuel 0 (vt_name (hd (vrVolumes vr))) = schedule (vrVolumes vr) n \<and> distinct (schedule (vrVolumes vr) n)"
proof -
  have start: "keyAt (vrVolumes vr) 0 = (0, vt_name (hd (vrVolumes vr)))"
    using assms(1) by (simp add: keyAt_def plannable_def hd_conv_nth)
  have "0 < n * length (vrVolumes vr)"
    using assms(3) plannable_length [OF assms(1)] by simp
  then show ?thesis
    using tour_from [OF assms(1,2,4), of 0 fuel] schedule_distinct [OF assms(1,4)] assms(5)
    by (simp add: start schedule_def)
qed

definition exampleResize :: VolumeResize where
  "exampleResize = (let vols = map (\<lambda>n. \<lparr>vt_name = n, vt_newSize = ''1Gi'', vt_storageClass = None\<rparr>) [''data'', ''logs''] in
     \<lparr>vr_meta = zeroMeta, vr_spec = \<lparr>spec_statefulSetName = ''web'', spec_volumes = vols\<rparr>,
      vr_status = zeroStatus\<lparr>st_volumeStatuses := initialStatuses vols 0 2\<rparr>\<rparr>)"

theorem tour_is_schedule_witness:
  "tour exampleResize 9 0 ''data'' = [(0, ''data''), (0, ''logs''), (1, ''data''), (1, ''logs'')]"
proof -
  have entries: "map key (st_volumeStatuses (vr_status exampleResize)) = schedule (vrVolumes exampleResize) 2"
    using initialStatuses_schedule [of "vrVolumes exampleResize" 2] by (simp add: exampleResize_def Let_def)
  have "tour exampleResize 9 0 (vt_name (hd (vrVolumes exampleResize))) = schedule (vrVolumes exampleResize) 2"
    using tour_is_schedule [OF _ entries, of 9] by (simp add: exampleResize_def plannable_def Let_def)
  moreover have "schedule (vrVolumes exampleResize) 2 = [(0, ''data''), (0, ''logs''), (1, ''data''), (1, ''logs'')]"
    by code_simp
  moreover have "vt_name (hd (vrVolumes exampleResize)) = ''data''"
    by code_simp
  ultimately show ?thesis
    by simp
qed

text \<open>
  On entries with distinct keys \<open>updateVolumeStatus\<close>, which stops at the first match, and
  \<open>updateVolumeStatusInList\<close>, which does not, do the same: both change the one entry of the volume
  and replica and leave the others and the order alone.
\<close>

theorem updates_agree:
  assumes "distinct (map key es)" and "k < length es" and "key (es ! k) = (r, v)"
  shows "setFirstStatus v r p m es = es[k := (es ! k)\<lparr>vs_phase := p, vs_message := m\<rparr>] \<and>
    updateVolumeStatusInList es v r (\<lambda>vs. vs\<lparr>vs_phase := p, vs_message := m\<rparr>) = setFirstStatus v r p m es"
proof -
  have every: "entry_update (\<lambda>v r es. updateVolumeStatusInList es v r (\<lambda>vs. vs\<lparr>vs_phase := p, vs_message := m\<rparr>))
      (\<lambda>vs. vs\<lparr>vs_phase := p, vs_message := m\<rparr>)"
    by unfold_locales (auto simp: updateVolumeStatusInList_def key_def)
  show ?thesis
    using first_entry.upd_at [OF assms, of p m] entry_update.upd_at [OF every assms] by simp
qed

theorem updates_agree_witness:
  "updateVolumeStatusInList (st_volumeStatuses (vr_status exampleResize)) ''logs'' 0
     (\<lambda>vs. vs\<lparr>vs_phase := VolumeStatusSynced, vs_message := ''done''\<rparr>) =
   setFirstStatus ''logs'' 0 VolumeStatusSynced ''done'' (st_volumeStatuses (vr_status exampleResize))"
proof -
  have "st_volumeStatuses (vr_status exampleResize) =
      map (\<lambda>(r, n). initialStatus \<lparr>vt_name = n, vt_newSize = ''1Gi'', vt_storageClass = None\<rparr> r)
        [(0, ''data''), (0, ''logs''), (1, ''data''), (1, ''logs'')]"
    by code_simp
  then show ?thesis
    by (intro updates_agree [where k = 1, THEN conjunct2]) (simp_all add: key_def initialStatus_def)
qed

text \<open>
  When two volumes of the spec have one name, the controller never leaves the first of them:
  the next position after it is the same one again, and the migration does not end. Nothing in the
  spec or its validation forbids such a list.
\<close>

theorem duplicate_volume_stuck:
  assumes "vrVolumes vr = vol # vol' # vols" and "vt_name vol = vt_name vol'"
  shows "getNextVolumeReplica vr r (vt_name vol) = Some (r, vt_name vol, False)"
  using assms by (simp add: getNextVolumeReplica_def)

theorem duplicate_volume_stuck_witness:
  "getNextVolumeReplica (exampleResize\<lparr>vr_spec := \<lparr>spec_statefulSetName = ''web'',
       spec_volumes = replicate 2 \<lparr>vt_name = ''data'', vt_newSize = ''1Gi'', vt_storageClass = None\<rparr>\<rparr>\<rparr>) 0 ''data'' =
   Some (0, ''data'', False)"
  using duplicate_volume_stuck [of _ "\<lparr>vt_name = ''data'', vt_newSize = ''1Gi'', vt_storageClass = None\<rparr>"
    "\<lparr>vt_name = ''data'', vt_newSize = ''1Gi'', vt_storageClass = None\<rparr>" "[]"] by (simp add: numeral_2_eq_2)

end
