(* ===== verification/Swap_Protocol.thy ===== *)
theory Swap_Protocol
  imports Controller
begin

section \<open>The order of destructive calls\<close>

text \<open>
  What makes the operator safe is an order: nothing is deleted before what would recover it is in
  place. \<open>swap_policy\<close> writes that order down as a policy: for each kind of change, which earlier
  calls of the same run justify it. \<open>handleSyncing\<close> is proved to comply with it for every
  client, that is for every state of the cluster, every failing call and every concurrent actor.
  The one thing asked of the client is that an update does not answer with another object.
\<close>

subsection \<open>What is asked of the client\<close>

definition same_object :: "VolumeResize \<Rightarrow> VolumeResize \<Rightarrow> bool" where
  "same_object v w \<longleftrightarrow> vrName v = vrName w \<and> vrNamespace v = vrNamespace w \<and> vr_spec v = vr_spec w"

definition keeps_object :: "client \<Rightarrow> bool" where
  "keeps_object c \<longleftrightarrow>
     (\<forall>h v w. c_updateVR c h v = Inr w \<longrightarrow> same_object w v) \<and>
     (\<forall>h v w. c_statusVR c h v = Inr w \<longrightarrow> same_object w v)"

lemma same_object_refl [simp]: "same_object v v"
  by (simp add: same_object_def)

lemma same_object_trans [trans]: "same_object u v \<Longrightarrow> same_object v w \<Longrightarrow> same_object u w"
  by (simp add: same_object_def)

lemma same_object_withStatus [simp]: "same_object (withStatus f v) w = same_object v w"
  by (simp add: same_object_def)

lemma same_object_updateVolumeStatus [simp]:
  "same_object (updateVolumeStatus v n r p m) w = same_object v w"
  by (simp add: updateVolumeStatus_def)

lemma same_object_annotations [simp]:
  "same_object (withMeta (\<lambda>m. m\<lparr>om_annotations := f m\<rparr>) v) w = same_object v w"
  by (simp add: same_object_def)

lemma keeps_objectD:
  "keeps_object c \<Longrightarrow> c_updateVR c h v = Inr w \<Longrightarrow> same_object v u \<Longrightarrow> same_object w u"
  "keeps_object c \<Longrightarrow> c_statusVR c h v = Inr w \<Longrightarrow> same_object v u \<Longrightarrow> same_object w u"
  unfolding keeps_object_def by (blast intro: same_object_trans)+

subsection \<open>The policy\<close>

text \<open>A volume is retained: it was read with the policy Retain, or updated to it.\<close>

definition retained :: "history \<Rightarrow> string \<Rightarrow> bool" where
  "retained h pvName \<longleftrightarrow> (\<exists>pv. EvGetPV pvName (Inr pv) \<in> set h \<and>
     (pv_reclaimPolicy pv = ReclaimRetain \<or>
      (\<exists>u. EvUpdatePV (pv\<lparr>pv_reclaimPolicy := ReclaimRetain\<rparr>) (Inr u) \<in> set h)))"

text \<open>A volume is released: an update without a claim reference went through.\<close>

definition released :: "history \<Rightarrow> string \<Rightarrow> bool" where
  "released h pvName \<longleftrightarrow> (\<exists>pv u. EvGetPV pvName (Inr pv) \<in> set h \<and>
     EvUpdatePV (pv\<lparr>pv_claimRef := None\<rparr>) (Inr u) \<in> set h)"

text \<open>The StatefulSet is in its backup ConfigMap, old or new.\<close>

definition backed_up :: "client \<Rightarrow> VolumeResize \<Rightarrow> StatefulSet \<Rightarrow> history \<Rightarrow> bool" where
  "backed_up c vr sts h \<longleftrightarrow>
     (\<exists>cm. EvGetCM (vrNamespace vr) (getSTSBackupConfigMapName (vrName vr)) (Inr cm) \<in> set h) \<or>
     (\<exists>json. l_marshalSTS c sts = Inr json \<and> EvCreateCM (backupConfigMap vr json) None \<in> set h)"

text \<open>The application's pod of the replica was seen to be gone.\<close>

definition pod_gone :: "VolumeResize \<Rightarrow> int32 \<Rightarrow> history \<Rightarrow> bool" where
  "pod_gone vr r h \<longleftrightarrow> (\<exists>err. IsNotFound err \<and>
     EvGetPod (vrNamespace vr) (getPodName (vrSTS vr) r) (Inl err) \<in> set h)"

definition gotClaim :: "VolumeResize \<Rightarrow> string \<Rightarrow> PersistentVolumeClaim \<Rightarrow> history \<Rightarrow> bool" where
  "gotClaim vr name p h \<longleftrightarrow> EvGetPVC (vrNamespace vr) name (Inr p) \<in> set h"

text \<open>The StatefulSet that the backup ConfigMap, as it was read, holds.\<close>

definition from_backup :: "client \<Rightarrow> VolumeResize \<Rightarrow> StatefulSet \<Rightarrow> history \<Rightarrow> bool" where
  "from_backup c vr backup h \<longleftrightarrow>
     (\<exists>cm json. EvGetCM (vrNamespace vr) (getSTSBackupConfigMapName (vrName vr)) (Inr cm) \<in> set h \<and>
        goLookup (cm_data cm) ConfigMapKeySTSSpec = Some json \<and> l_unmarshalSTS c json = Inr backup)"

text \<open>The completed status of the volume and replica was accepted by the API server.\<close>

definition persisted :: "int32 \<Rightarrow> string \<Rightarrow> history \<Rightarrow> bool" where
  "persisted r v h \<longleftrightarrow>
     (\<exists>u w. EvStatusVR (updateVolumeStatus u v r VolumeStatusCompleted ''PVC replaced'') (Inr w) \<in> set h)"

text \<open>The claims of the volume \<open>v\<close> of replica \<open>r\<close>, as they were read.\<close>

abbreviation gotOriginal :: "VolumeResize \<Rightarrow> int32 \<Rightarrow> string \<Rightarrow> PersistentVolumeClaim \<Rightarrow> history \<Rightarrow> bool" where
  "gotOriginal vr r v \<equiv> gotClaim vr (getOriginalPVCName v (vrSTS vr) r)"

abbreviation gotTemp :: "VolumeResize \<Rightarrow> int32 \<Rightarrow> string \<Rightarrow> PersistentVolumeClaim \<Rightarrow> history \<Rightarrow> bool" where
  "gotTemp vr r v \<equiv> gotClaim vr (getTempPVCName v (vrSTS vr) r)"

text \<open>What must have happened before each kind of change.\<close>

definition orphanable :: "client \<Rightarrow> VolumeResize \<Rightarrow> string \<Rightarrow> string \<Rightarrow> history \<Rightarrow> bool" where
  "orphanable c vr ns n h \<longleftrightarrow>
     (\<exists>sts. EvGetSTS (vrNamespace vr) (vrSTS vr) (Inr sts) \<in> set h \<and>
        ns = om_namespace (sts_meta sts) \<and> n = om_name (sts_meta sts) \<and> backed_up c vr sts h)"

definition old_volume_safe :: "VolumeResize \<Rightarrow> int32 \<Rightarrow> string \<Rightarrow> history \<Rightarrow> bool" where
  "old_volume_safe vr r v h \<longleftrightarrow> (\<exists>p. gotOriginal vr r v p h \<and> retained h (pvc_volumeName p))"

definition new_volume_safe :: "VolumeResize \<Rightarrow> int32 \<Rightarrow> string \<Rightarrow> PersistentVolumeClaim \<Rightarrow> history \<Rightarrow> bool" where
  "new_volume_safe vr r v t h \<longleftrightarrow>
     gotTemp vr r v t h \<and> pvc_volumeName t \<noteq> '''' \<and> retained h (pvc_volumeName t)"

definition deletable :: "VolumeResize \<Rightarrow> int32 \<Rightarrow> string \<Rightarrow> string \<Rightarrow> string \<Rightarrow> history \<Rightarrow> bool" where
  "deletable vr r v ns n h \<longleftrightarrow> pod_gone vr r h \<and> old_volume_safe vr r v h \<and>
     (\<exists>t. new_volume_safe vr r v t h \<and>
        ((ns = om_namespace (pvc_meta t) \<and> n = om_name (pvc_meta t)) \<or>
         (\<exists>q. gotOriginal vr r v q h \<and> ns = om_namespace (pvc_meta q) \<and> n = om_name (pvc_meta q) \<and>
            released h (pvc_volumeName t))))"

text \<open>The pod of the migrator of the volume and replica, as it was read or created.\<close>

definition migrator_known :: "VolumeResize \<Rightarrow> int32 \<Rightarrow> string \<Rightarrow> string \<Rightarrow> history \<Rightarrow> bool" where
  "migrator_known vr r v n h \<longleftrightarrow> (\<exists>pod. n = om_name (pod_meta pod) \<and>
     (EvGetPod (vrNamespace vr) (getMigratorPodName (vrName vr) v r) (Inr pod) \<in> set h \<or>
      (\<exists>built. EvCreatePod built (Inr pod) \<in> set h)))"

definition stoppable :: "VolumeResize \<Rightarrow> int32 \<Rightarrow> string \<Rightarrow> string \<Rightarrow> string \<Rightarrow> history \<Rightarrow> bool" where
  "stoppable vr r v ns n h \<longleftrightarrow> ns = vrNamespace vr \<and> old_volume_safe vr r v h \<and>
     (n = getPodName (vrSTS vr) r \<or> pod_gone vr r h \<and> migrator_known vr r v n h)"

definition temp_creatable :: "VolumeResize \<Rightarrow> int32 \<Rightarrow> string \<Rightarrow> PersistentVolumeClaim \<Rightarrow> history \<Rightarrow> bool" where
  "temp_creatable vr r v p h \<longleftrightarrow>
     (\<exists>q err. gotOriginal vr r v q h \<and> p = tempPVCFor vr (findTarget v (vrVolumes vr)) q r \<and>
        IsNotFound err \<and> EvGetPVC (vrNamespace vr) (getTempPVCName v (vrSTS vr) r) (Inl err) \<in> set h)"

definition final_creatable :: "VolumeResize \<Rightarrow> int32 \<Rightarrow> string \<Rightarrow> PersistentVolumeClaim \<Rightarrow> history \<Rightarrow> bool" where
  "final_creatable vr r v p h \<longleftrightarrow> pod_gone vr r h \<and>
     (\<exists>t q d. gotTemp vr r v t h \<and> released h (pvc_volumeName t) \<and> gotOriginal vr r v q h \<and>
        p = replacementPVC vr (findTarget v (vrVolumes vr)) r (om_labels (pvc_meta q)) t (pvc_volumeName t) \<and>
        unlessNotFound d = None \<and> EvDeletePVC (om_namespace (pvc_meta q)) (om_name (pvc_meta q)) d \<in> set h)"

definition only_protects :: "PersistentVolume \<Rightarrow> history \<Rightarrow> bool" where
  "only_protects pv h \<longleftrightarrow> (\<exists>n old. EvGetPV n (Inr old) \<in> set h \<and>
     (pv = old\<lparr>pv_reclaimPolicy := ReclaimRetain\<rparr> \<or> pv = old\<lparr>pv_claimRef := None\<rparr>))"

definition restorable :: "client \<Rightarrow> VolumeResize \<Rightarrow> StatefulSet \<Rightarrow> history \<Rightarrow> bool" where
  "restorable c vr s h \<longleftrightarrow> (\<exists>backup vcts. from_backup c vr backup h \<and>
     patchTemplates (vrVolumes vr) (sts_volumeClaimTemplates backup) = Some vcts \<and>
     s = cleanSTS (backup\<lparr>sts_volumeClaimTemplates := vcts\<rparr>))"

definition is_backup :: "client \<Rightarrow> VolumeResize \<Rightarrow> ConfigMap \<Rightarrow> history \<Rightarrow> bool" where
  "is_backup c vr cm h \<longleftrightarrow> (\<exists>sts json. EvGetSTS (vrNamespace vr) (vrSTS vr) (Inr sts) \<in> set h \<and>
     l_marshalSTS c sts = Inr json \<and> cm = backupConfigMap vr json)"

text \<open>For the volume \<open>v\<close> of replica \<open>r\<close> of the resource \<open>vr\<close>: what justifies each change.\<close>

fun swap_policy :: "client \<Rightarrow> VolumeResize \<Rightarrow> int32 \<Rightarrow> string \<Rightarrow> policy" where
  "swap_policy c vr r v h (EvDeleteSTS ns n policy res) \<longleftrightarrow>
     policy = DeletePropagationOrphan \<and> orphanable c vr ns n h"
| "swap_policy c vr r v h (EvDeletePVC ns n res) \<longleftrightarrow> deletable vr r v ns n h"
| "swap_policy c vr r v h (EvCreatePVC p res) \<longleftrightarrow>
     temp_creatable vr r v p h \<or> final_creatable vr r v p h"
| "swap_policy c vr r v h (EvUpdatePV pv res) \<longleftrightarrow> only_protects pv h"
| "swap_policy c vr r v h (EvCreatePod pod res) \<longleftrightarrow>
     pod = buildMigratorPod vr (findTarget v (vrVolumes vr)) r
       (getOriginalPVCName v (vrSTS vr) r) (getTempPVCName v (vrSTS vr) r) \<and>
     pod_gone vr r h \<and> old_volume_safe vr r v h"
| "swap_policy c vr r v h (EvDeletePod ns n res) \<longleftrightarrow> stoppable vr r v ns n h"
| "swap_policy c vr r v h (EvCreateSTS s res) \<longleftrightarrow> persisted r v h \<and> restorable c vr s h"
| "swap_policy c vr r v h (EvCreateCM cm res) \<longleftrightarrow> is_backup c vr cm h"
| "swap_policy c vr r v h (EvUpdateVR w res) \<longleftrightarrow> same_object w vr"
| "swap_policy c vr r v h (EvStatusVR w res) \<longleftrightarrow> same_object w vr"
| "swap_policy c vr r v h (EvCreateVR w res) \<longleftrightarrow> False"
| "swap_policy c vr r v h (EvDeleteVR ns n res) \<longleftrightarrow> False"
| "swap_policy c vr r v h _ \<longleftrightarrow> True"

interpretation swap: policy_free "swap_policy c vr r v" quiet for c vr r v
proof
  show "quiet e \<Longrightarrow> swap_policy c vr r v h e" for h e
    by (cases e) (simp_all add: quiet_def)
qed

subsection \<open>Facts of a history stay\<close>

lemma retained_mono: "retained h n \<Longrightarrow> grows h h' \<Longrightarrow> retained h' n"
  unfolding retained_def by (blast dest: growsD)

lemma released_mono: "released h n \<Longrightarrow> grows h h' \<Longrightarrow> released h' n"
  unfolding released_def by (blast dest: growsD)

lemma backed_up_mono: "backed_up c vr s h \<Longrightarrow> grows h h' \<Longrightarrow> backed_up c vr s h'"
  unfolding backed_up_def by (blast dest: growsD)

lemma pod_gone_mono: "pod_gone vr r h \<Longrightarrow> grows h h' \<Longrightarrow> pod_gone vr r h'"
  unfolding pod_gone_def by (blast dest: growsD)

lemma gotClaim_mono: "gotClaim vr n p h \<Longrightarrow> grows h h' \<Longrightarrow> gotClaim vr n p h'"
  unfolding gotClaim_def by (blast dest: growsD)

lemma from_backup_mono: "from_backup c vr b h \<Longrightarrow> grows h h' \<Longrightarrow> from_backup c vr b h'"
  unfolding from_backup_def by (blast dest: growsD)

lemma persisted_mono: "persisted r v h \<Longrightarrow> grows h h' \<Longrightarrow> persisted r v h'"
  unfolding persisted_def by (blast dest: growsD)

lemma old_volume_safe_mono: "old_volume_safe vr r v h \<Longrightarrow> grows h h' \<Longrightarrow> old_volume_safe vr r v h'"
  unfolding old_volume_safe_def by (blast intro: gotClaim_mono retained_mono)

lemma new_volume_safe_mono:
  "new_volume_safe vr r v t h \<Longrightarrow> grows h h' \<Longrightarrow> new_volume_safe vr r v t h'"
  unfolding new_volume_safe_def by (blast intro: gotClaim_mono retained_mono)

lemma migrator_known_mono: "migrator_known vr r v n h \<Longrightarrow> grows h h' \<Longrightarrow> migrator_known vr r v n h'"
  unfolding migrator_known_def by (blast dest: growsD)

lemmas facts_mono = migrator_known_mono retained_mono released_mono backed_up_mono pod_gone_mono gotClaim_mono
  from_backup_mono persisted_mono old_volume_safe_mono new_volume_safe_mono

lemma facts_snoc [simp]:
  "retained h n \<Longrightarrow> retained (snoc h e) n"
  "released h n \<Longrightarrow> released (snoc h e) n"
  "backed_up c vr s h \<Longrightarrow> backed_up c vr s (snoc h e)"
  "pod_gone vr r h \<Longrightarrow> pod_gone vr r (snoc h e)"
  "gotClaim vr m p h \<Longrightarrow> gotClaim vr m p (snoc h e)"
  "from_backup c vr b h \<Longrightarrow> from_backup c vr b (snoc h e)"
  "persisted r v h \<Longrightarrow> persisted r v (snoc h e)"
  "old_volume_safe vr r v h \<Longrightarrow> old_volume_safe vr r v (snoc h e)"
  "new_volume_safe vr r v t h \<Longrightarrow> new_volume_safe vr r v t (snoc h e)"
  by (rule facts_mono, assumption, simp)+

text \<open>How a fact comes into the history.\<close>

lemma gotClaim_here [simp]: "gotClaim vr n p (snoc h (EvGetPVC (vrNamespace vr) n (Inr p)))"
  by (simp add: gotClaim_def)

lemma retained_here [simp]:
  "retained (snoc (snoc h (EvGetPV n (Inr pv))) (EvUpdatePV (pv\<lparr>pv_reclaimPolicy := ReclaimRetain\<rparr>) (Inr u))) n"
  unfolding retained_def by auto

lemma retained_seen [simp]:
  "pv_reclaimPolicy pv = ReclaimRetain \<Longrightarrow> retained (snoc h (EvGetPV n (Inr pv))) n"
  by (auto simp: retained_def)

lemma released_here [simp]:
  "released (snoc (snoc h (EvGetPV n (Inr pv))) (EvUpdatePV (pv\<lparr>pv_claimRef := None\<rparr>) (Inr u))) n"
  unfolding released_def by auto

lemma only_protects_here [simp]:
  "only_protects (pv\<lparr>pv_reclaimPolicy := ReclaimRetain\<rparr>) (snoc h (EvGetPV n (Inr pv)))"
  "only_protects (pv\<lparr>pv_claimRef := None\<rparr>) (snoc h (EvGetPV n (Inr pv)))"
  unfolding only_protects_def by auto

lemma persisted_here [simp]:
  "persisted r v (snoc h (EvStatusVR (updateVolumeStatus u v r VolumeStatusCompleted ''PVC replaced'') (Inr w)))"
  by (auto simp: persisted_def)

lemma backed_up_here [simp]:
  "backed_up c vr s (snoc h (EvGetCM (vrNamespace vr) (getSTSBackupConfigMapName (vrName vr)) (Inr cm)))"
  "l_marshalSTS c s = Inr json \<Longrightarrow> backed_up c vr s (snoc h (EvCreateCM (backupConfigMap vr json) None))"
  by (auto simp: backed_up_def)

lemma migrator_known_here [simp]:
  "migrator_known vr r v (om_name (pod_meta p))
     (snoc h (EvGetPod (vrNamespace vr) (getMigratorPodName (vrName vr) v r) (Inr p)))"
  "migrator_known vr r v (om_name (pod_meta p)) (snoc h (EvCreatePod built (Inr p)))"
  by (auto simp: migrator_known_def)

lemma stoppableI:
  "old_volume_safe vr r v h \<Longrightarrow> stoppable vr r v (vrNamespace vr) (getPodName (vrSTS vr) r) h"
  "old_volume_safe vr r v h \<Longrightarrow> pod_gone vr r h \<Longrightarrow> migrator_known vr r v n h \<Longrightarrow> stoppable vr r v (vrNamespace vr) n h"
  by (simp_all add: stoppable_def)

lemma from_backupI:
  "EvGetCM (vrNamespace vr) (getSTSBackupConfigMapName (vrName vr)) (Inr cm) \<in> set h \<Longrightarrow>
   goLookup (cm_data cm) ConfigMapKeySTSSpec = Some json \<Longrightarrow> l_unmarshalSTS c json = Inr b \<Longrightarrow>
   from_backup c vr b h"
  unfolding from_backup_def by blast

lemma restorableI:
  "from_backup c vr b h \<Longrightarrow> patchTemplates (vrVolumes vr) (sts_volumeClaimTemplates b) = Some vcts \<Longrightarrow>
   restorable c vr (cleanSTS (b\<lparr>sts_volumeClaimTemplates := vcts\<rparr>)) h"
  unfolding restorable_def by blast

lemma deletable_tempI:
  "pod_gone vr r h \<Longrightarrow> old_volume_safe vr r v h \<Longrightarrow> new_volume_safe vr r v t h \<Longrightarrow>
   deletable vr r v (om_namespace (pvc_meta t)) (om_name (pvc_meta t)) h"
  unfolding deletable_def by blast

lemma deletable_originalI:
  "pod_gone vr r h \<Longrightarrow> old_volume_safe vr r v h \<Longrightarrow> new_volume_safe vr r v t h \<Longrightarrow>
   released h (pvc_volumeName t) \<Longrightarrow> gotOriginal vr r v q h \<Longrightarrow>
   deletable vr r v (om_namespace (pvc_meta q)) (om_name (pvc_meta q)) h"
  unfolding deletable_def by blast

lemma final_creatableI:
  "pod_gone vr r h \<Longrightarrow> new_volume_safe vr r v t h \<Longrightarrow> released h (pvc_volumeName t) \<Longrightarrow>
   gotOriginal vr r v q h \<Longrightarrow> unlessNotFound d = None \<Longrightarrow>
   EvDeletePVC (om_namespace (pvc_meta q)) (om_name (pvc_meta q)) d \<in> set h \<Longrightarrow>
   final_creatable vr r v (replacementPVC vr (findTarget v (vrVolumes vr)) r (om_labels (pvc_meta q)) t (pvc_volumeName t)) h"
  unfolding final_creatable_def new_volume_safe_def by blast

lemma temp_creatable_here [simp]:
  "gotOriginal vr r v q h \<Longrightarrow> IsNotFound err \<Longrightarrow>
   temp_creatable vr r v (tempPVCFor vr (findTarget v (vrVolumes vr)) q r)
     (snoc h (EvGetPVC (vrNamespace vr) (getTempPVCName v (vrSTS vr) r) (Inl err)))"
  by (auto simp: temp_creatable_def gotClaim_def)

lemma orphanableI:
  "EvGetSTS (vrNamespace vr) (vrSTS vr) (Inr sts) \<in> set h \<Longrightarrow> backed_up c vr sts h \<Longrightarrow>
   orphanable c vr (om_namespace (sts_meta sts)) (om_name (sts_meta sts)) h"
  unfolding orphanable_def by blast

lemma is_backupI:
  "EvGetSTS (vrNamespace vr) (vrSTS vr) (Inr sts) \<in> set h \<Longrightarrow> l_marshalSTS c sts = Inr json \<Longrightarrow>
   is_backup c vr (backupConfigMap vr json) h"
  unfolding is_backup_def by blast

text \<open>The objects the code builds depend only on the identity of the resource.\<close>

lemma same_object_builds:
  assumes "same_object w vr"
  shows "tempPVCFor w vol q r = tempPVCFor vr vol q r"
    and "replacementPVC w vol r l t n = replacementPVC vr vol r l t n"
    and "buildMigratorPod w vol r a b = buildMigratorPod vr vol r a b"
    and "backupConfigMap w j = backupConfigMap vr j"
    and "vrName w = vrName vr" and "vrNamespace w = vrNamespace vr" and "vr_spec w = vr_spec vr"
  using assms by (simp_all add: same_object_def tempPVCFor_def replacementPVC_def
      buildMigratorPod_def backupConfigMap_def)

subsection \<open>Every stage complies\<close>

text \<open>
  One lemma per stage, from the last to the first. Each assumes a compliant history and the facts
  that the stages before it have put into the history.
\<close>

abbreviation stays :: "policy \<Rightarrow> 'a \<Rightarrow> history \<Rightarrow> bool" where
  "stays G \<equiv> (\<lambda>_ h. compliant G h)"

lemma wp_UpdateVR:
  assumes "keeps_object c" and "same_object v vr"
    and "\<And>e. Q (Inl e) (snoc h (EvUpdateVR v (Inl e)))"
    and "\<And>w. same_object w vr \<Longrightarrow> Q (Inr w) (snoc h (EvUpdateVR v (Inr w)))"
  shows "wp (UpdateVR c v) Q h"
  using assms keeps_objectD(1) [OF assms(1) _ assms(2), of h]
  by (cases "c_updateVR c h v") (auto simp: UpdateVR_def wp_perform)

lemma wp_StatusUpdateVR:
  assumes "keeps_object c" and "same_object v vr"
    and "\<And>e. Q (Inl e) (snoc h (EvStatusVR v (Inl e)))"
    and "\<And>w. same_object w vr \<Longrightarrow> Q (Inr w) (snoc h (EvStatusVR v (Inr w)))"
  shows "wp (StatusUpdateVR c v) Q h"
  using assms keeps_objectD(2) [OF assms(1) _ assms(2), of h]
  by (cases "c_statusVR c h v") (auto simp: StatusUpdateVR_def wp_perform)

lemma setFailed_policy:
  "compliant (swap_policy c vr r v) h \<Longrightarrow> same_object w vr \<Longrightarrow>
     wp (setFailed c w m) (stays (swap_policy c vr r v)) h"
  by (auto simp: setFailed_def run_defs intro!: wp_call split: sum.split)

lemma advance_policy:
  "compliant (swap_policy c vr r v) h \<Longrightarrow> same_object w vr \<Longrightarrow>
     wp (advance c w r v) (stays (swap_policy c vr r v)) h"
  by (auto simp: advance_def run_defs intro!: wp_call split: sum.split option.split)

lemma awaitPod_policy:
  "compliant (swap_policy c vr r v) h \<Longrightarrow> same_object w vr \<Longrightarrow>
     wp (awaitPod c w r v) (stays (swap_policy c vr r v)) h"
  by (auto simp: awaitPod_def run_defs intro!: wp_call advance_policy split: sum.split)

lemma getSTSFromBackup_policy:
  assumes "compliant (swap_policy c vr r v) h"
    and "\<And>e h'. compliant (swap_policy c vr r v) h' \<Longrightarrow> grows h h' \<Longrightarrow> Q (Inl e) h'"
    and "\<And>b h'. compliant (swap_policy c vr r v) h' \<Longrightarrow> grows h h' \<Longrightarrow>
           from_backup c vr b h' \<Longrightarrow> Q (Inr b) h'"
  shows "wp (getSTSFromBackupConfigMap c (vrNamespace vr) (vrName vr)) Q h"
  using assms(1)
  by (auto simp: getSTSFromBackupConfigMap_def run_defs
      intro!: wp_call assms(2,3) from_backupI split: sum.split option.split)

lemma restoreSTS_policy:
  assumes keeps: "keeps_object c" and h: "compliant (swap_policy c vr r v) h"
    and w: "same_object w vr" and p: "persisted r v h"
  shows "wp (restoreSTS c w r v) (stays (swap_policy c vr r v)) h"
proof -
  have retry: "wp (do { created \<leftarrow> recreateSTS c (b\<lparr>sts_volumeClaimTemplates := vcts\<rparr>);
      if (case created of None \<Rightarrow> False | Some err \<Rightarrow> \<not> IsAlreadyExists err)
      then setFailed c w (m created)
      else do {
        u \<leftarrow> UpdateVR c (withMeta (\<lambda>m. m\<lparr>om_annotations := goDelete (om_annotations m) AnnotationSTSDeleted\<rparr>) w);
        case u of Inl err \<Rightarrow> ret (failWith err) | Inr w \<Rightarrow> awaitPod c w r v } })
      (stays (swap_policy c vr r v)) h'"
    if "compliant (swap_policy c vr r v) h'" "persisted r v h'" "from_backup c vr b h'"
      "patchTemplates (vrVolumes vr) (sts_volumeClaimTemplates b) = Some vcts" for b vcts h' m
    using that w
    by (auto simp: recreateSTS_def CreateSTS_def wp_cases
        intro!: wp_call restorableI setFailed_policy wp_UpdateVR [OF keeps, where vr = vr] awaitPod_policy
        split: option.split)
  show ?thesis
    unfolding restoreSTS_def wp_bind same_object_builds(5-7) [OF w]
    by (rule getSTSFromBackup_policy [OF h])
      (auto simp: wp_cases w intro!: setFailed_policy retry [unfolded wp_bind] intro: persisted_mono p split: option.split)
qed

text \<open>\<open>replacePVC\<close>: its polling loops only read, so every fact survives them.\<close>

lemma awaitPVCDeletion_reads: "only quiet (awaitPVCDeletion c ns n p k)"
  by (induction k) (auto simp: run_defs intro!: only_bind only_sum)

lemma replaceOriginal_policy:
  assumes "compliant (swap_policy c vr r v) h" and w: "same_object w vr"
    and v: "vt_name (findTarget v (vrVolumes vr)) = v"
    and "pod_gone vr r h" "old_volume_safe vr r v h" "new_volume_safe vr r v t h"
    and "released h (pvc_volumeName t)" "gotOriginal vr r v q h"
    and out: "\<And>x h'. compliant (swap_policy c vr r v) h' \<Longrightarrow> grows h h' \<Longrightarrow> Q x h'"
  shows "wp (replaceOriginal c w (findTarget v (vrVolumes vr)) r q t (pvc_volumeName t)) Q h"
proof -
  let ?del = "EvDeletePVC (om_namespace (pvc_meta q)) (om_name (pvc_meta q))"
  have create: "wp (awaitPVCDeletion c ns n p k) (\<lambda>x. wp (case x of Some err \<Rightarrow> ret (Some err)
      | None \<Rightarrow> createReplacement c w (findTarget v (vrVolumes vr)) r (om_labels (pvc_meta q)) t (pvc_volumeName t)) Q)
      (snoc h (?del d))"
    if d: "unlessNotFound d = None" for d ns n p k
  proof (rule swap.wp_only [OF awaitPVCDeletion_reads])
    show "compliant (swap_policy c vr r v) (snoc h (?del d))"
      using assms by (simp add: deletable_originalI)
    fix x h'
    assume h': "compliant (swap_policy c vr r v) h'" "grows (snoc h (?del d)) h'"
    then have sub: "grows h h'" and del: "?del d \<in> set h'" by auto
    have "final_creatable vr r v (replacementPVC vr (findTarget v (vrVolumes vr)) r (om_labels (pvc_meta q)) t (pvc_volumeName t)) h'"
      by (rule final_creatableI) (use assms sub d del in \<open>auto intro: facts_mono\<close>)
    then show "wp (case x of Some err \<Rightarrow> ret (Some err)
      | None \<Rightarrow> createReplacement c w (findTarget v (vrVolumes vr)) r (om_labels (pvc_meta q)) t (pvc_volumeName t)) Q h'"
      using h' sub by (auto simp: createReplacement_def run_defs same_object_builds [OF w]
          intro!: wp_call out split: option.split sum.split)
  qed
  show ?thesis
    unfolding replaceOriginal_def wp_bind DeletePVC_def
    by (rule wp_call)
      (use assms in \<open>auto simp: wp_case_option intro!: out create deletable_originalI split: option.split\<close>)
qed

lemma releaseNewPV_policy:
  assumes "compliant (swap_policy c vr r v) h" and w: "same_object w vr"
    and v: "vt_name (findTarget v (vrVolumes vr)) = v"
    and facts: "pod_gone vr r h" "old_volume_safe vr r v h" "new_volume_safe vr r v t h" "gotOriginal vr r v q h"
    and out: "\<And>x h'. compliant (swap_policy c vr r v) h' \<Longrightarrow> grows h h' \<Longrightarrow> Q x h'"
  shows "wp (releaseNewPV c w (findTarget v (vrVolumes vr)) r q t (pvc_volumeName t)) Q h"
proof -
  let ?del = "EvDeletePVC (om_namespace (pvc_meta t)) (om_name (pvc_meta t))"
  let ?next = "\<lambda>x. case x of Some err \<Rightarrow> ret (Some err) | None \<Rightarrow> do {
      g \<leftarrow> GetPV c (pvc_volumeName t);
      case g of
        Inl err \<Rightarrow> ret (Some (wrapf ''failed to get new PV after temp PVC deletion'' err))
      | Inr newPV \<Rightarrow> do {
          u \<leftarrow> UpdatePV c (newPV\<lparr>pv_claimRef := None\<rparr>);
          case u of
            Inl err \<Rightarrow> ret (Some (wrapf ''failed to clear claimRef on new PV'' err))
          | Inr _ \<Rightarrow> replaceOriginal c w (findTarget v (vrVolumes vr)) r q t (pvc_volumeName t)
        } }"
  have step: "wp (awaitPVCDeletion c ns n p k) (\<lambda>x. wp (?next x) Q) (snoc h (?del d))" for d ns n p k
  proof (rule swap.wp_only [OF awaitPVCDeletion_reads])
    show "compliant (swap_policy c vr r v) (snoc h (?del d))"
      using assms by (simp add: deletable_tempI)
    fix x h'
    assume h': "compliant (swap_policy c vr r v) h'" "grows (snoc h (?del d)) h'"
    then have sub: "grows h h'" by simp
    have "pod_gone vr r h'" "old_volume_safe vr r v h'" "new_volume_safe vr r v t h'" "gotOriginal vr r v q h'"
      using facts sub by (auto intro: facts_mono)
    then show "wp (?next x) Q h'"
      using h' sub
      by (auto simp: wp_cases GetPV_def UpdatePV_def
          intro!: wp_call out replaceOriginal_policy [OF _ w v] split: option.split sum.split)
        (blast intro: grows_trans)
  qed
  show ?thesis
    unfolding releaseNewPV_def wp_bind DeletePVC_def
    by (rule wp_call)
      (use assms in \<open>auto simp: wp_case_option intro!: out step [unfolded wp_bind] deletable_tempI split: option.split\<close>)
qed

lemma replacePVC_policy:
  assumes "compliant (swap_policy c vr r v) h" and w: "same_object w vr"
    and v: "vt_name (findTarget v (vrVolumes vr)) = v"
    and "pod_gone vr r h" "old_volume_safe vr r v h"
    and out: "\<And>x h'. compliant (swap_policy c vr r v) h' \<Longrightarrow> grows h h' \<Longrightarrow> Q x h'"
  shows "wp (replacePVC c w (findTarget v (vrVolumes vr)) r) Q h"
  unfolding replacePVC_def Let_def v same_object_builds(6,7) [OF w] getPVC_eq
  using assms
  by (auto simp: wp_cases GetPVC_def GetPV_def UpdatePV_def new_volume_safe_def
      intro!: wp_call out releaseNewPV_policy [OF _ w v] split: sum.split)

lemma swapVolume_policy:
  assumes keeps: "keeps_object c" and h: "compliant (swap_policy c vr r v) h"
    and w: "same_object w vr" and v: "vt_name (findTarget v (vrVolumes vr)) = v"
    and facts: "pod_gone vr r h" "old_volume_safe vr r v h"
  shows "wp (swapVolume c w (findTarget v (vrVolumes vr)) r v) (stays (swap_policy c vr r v)) h"
  unfolding swapVolume_def Let_def wp_bind
  by (rule replacePVC_policy [OF h _ v facts])
    (auto simp: w wp_cases intro!: setFailed_policy wp_StatusUpdateVR [OF keeps, where vr = vr]
      restoreSTS_policy [OF keeps] split: option.split)

lemma awaitMigration_policy:
  assumes h: "compliant (swap_policy c vr r v) h" and w: "same_object w vr"
    and out: "\<And>x h'. compliant (swap_policy c vr r v) h' \<Longrightarrow> grows h h' \<Longrightarrow> Q x h'"
  shows "wp (awaitMigration c w pod) Q h"
proof -
  have failed: "wp (setFailed c w m) (\<lambda>x. Q (Some x)) h'"
    if "compliant (swap_policy c vr r v) h'" "grows h h'" for m h'
    using that w by (auto simp: setFailed_def run_defs intro!: wp_call out split: sum.split)
  show ?thesis
    unfolding awaitMigration_def wp_bind
    by (rule swap.wp_only [OF waitForMigrationComplete_only h])
      (auto simp: wp_cases GetPod_def intro!: wp_call out failed split: option.split sum.split)
qed

lemma runMigration_policy:
  assumes keeps: "keeps_object c" and h: "compliant (swap_policy c vr r v) h"
    and w: "same_object w vr" and v: "vt_name (findTarget v (vrVolumes vr)) = v"
    and facts: "pod_gone vr r h" "old_volume_safe vr r v h"
  shows "wp (runMigration c w (findTarget v (vrVolumes vr)) r v
      (getOriginalPVCName v (vrSTS vr) r) (getTempPVCName v (vrSTS vr) r)) (stays (swap_policy c vr r v)) h"
proof -
  have after: "wp (awaitMigration c w p) (\<lambda>early. wp (case early of Some out \<Rightarrow> ret out
      | None \<Rightarrow> do { _ \<leftarrow> cleanupMigratorPod c (om_name (pod_meta p)) (vrNamespace w); swapVolume c w (findTarget v (vrVolumes vr)) r v })
      (stays (swap_policy c vr r v))) h'"
    if "compliant (swap_policy c vr r v) h'" "pod_gone vr r h'" "old_volume_safe vr r v h'"
      "migrator_known vr r v (om_name (pod_meta p)) h'" for p h'
    using that
    by (auto simp: wp_cases cleanupMigratorPod_def DeletePod_def w same_object_builds [OF w]
        intro!: awaitMigration_policy [OF _ w] wp_call swapVolume_policy [OF keeps _ w v] stoppableI(2)
        split: option.split)
      (blast intro: facts_mono grows_snoc)+
  have name: "om_name (pod_meta (buildMigratorPod vr (findTarget v (vrVolumes vr)) r a b)) = getMigratorPodName (vrName vr) v r"
    "om_namespace (pod_meta (buildMigratorPod vr (findTarget v (vrVolumes vr)) r a b)) = vrNamespace vr" for a b
    using v by (simp_all add: buildMigratorPod_def getMigratorPodName_def Let_def)
  show ?thesis
    unfolding runMigration_def createMigratorPod_def Let_def wp_bind same_object_builds [OF w] GetPod_def name
    by (rule wp_call)
      (use assms in \<open>auto simp: wp_cases CreatePod_def same_object_builds [OF w]
        intro!: wp_call setFailed_policy after [unfolded wp_bind same_object_builds [OF w]] split: sum.split\<close>)
qed

text \<open>The wait for the pod returns without an error only when it has seen that the pod is gone.\<close>

lemma waitForPodTermination_policy:
  assumes h: "compliant (swap_policy c vr r v) h"
    and out: "\<And>e h'. compliant (swap_policy c vr r v) h' \<Longrightarrow> grows h h' \<Longrightarrow> Q (Some e) h'"
    and gone: "\<And>h'. compliant (swap_policy c vr r v) h' \<Longrightarrow> grows h h' \<Longrightarrow> pod_gone vr r h' \<Longrightarrow> Q None h'"
  shows "wp (waitForPodTermination c (vrNamespace vr) (getPodName (vrSTS vr) r) d) Q h"
proof -
  let ?m = "waitForPodTermination c (vrNamespace vr) (getPodName (vrSTS vr) r) d"
  have "wp ?m (\<lambda>_ h'. compliant (swap_policy c vr r v) h' \<and> grows h h') h"
    by (rule swap.wp_only [OF waitForPodTermination_only h]) simp
  then have end': "compliant (swap_policy c vr r v) (trace ?m h)" "grows h (trace ?m h)"
    by (simp_all add: wp_iff)
  show ?thesis
  proof (cases "result ?m h")
    case None
    then obtain pre err where "trace ?m h = pre @ [EvGetPod (vrNamespace vr) (getPodName (vrSTS vr) r) (Inl err)]"
      "IsNotFound err"
      by (rule waitForPodTermination_gone)
    then have "pod_gone vr r (trace ?m h)"
      by (auto simp: pod_gone_def)
    with end' None show ?thesis
      by (simp add: wp_iff gone)
  next
    case (Some e)
    with end' show ?thesis
      by (simp add: wp_iff out)
  qed
qed

lemma stopPod_policy:
  assumes keeps: "keeps_object c" and h: "compliant (swap_policy c vr r v) h"
    and w: "same_object w vr" and v: "vt_name (findTarget v (vrVolumes vr)) = v"
    and facts: "old_volume_safe vr r v h"
  shows "wp (stopPod c w (findTarget v (vrVolumes vr)) r v
      (getOriginalPVCName v (vrSTS vr) r) (getTempPVCName v (vrSTS vr) r)) (stays (swap_policy c vr r v)) h"
  unfolding stopPod_def deletePod_def Let_def wp_bind same_object_builds [OF w] DeletePod_def
  by (rule wp_call)
    (auto simp: wp_cases h facts intro!: stoppableI(1) waitForPodTermination_policy runMigration_policy [OF keeps _ w v] split: option.split;
      use facts in \<open>blast intro: facts_mono\<close>)

lemma backupSTS_policy:
  assumes h: "compliant (swap_policy c vr r v) h" and w: "same_object w vr"
    and got: "EvGetSTS (vrNamespace vr) (vrSTS vr) (Inr sts) \<in> set h"
    and failed: "\<And>e h'. compliant (swap_policy c vr r v) h' \<Longrightarrow> grows h h' \<Longrightarrow> Q (Some e) h'"
    and saved: "\<And>h'. compliant (swap_policy c vr r v) h' \<Longrightarrow> grows h h' \<Longrightarrow> backed_up c vr sts h' \<Longrightarrow> Q None h'"
  shows "wp (backupSTSToConfigMap c w sts) Q h"
  using h got
  by (auto simp: backupSTSToConfigMap_def same_object_builds [OF w] wp_cases GetCM_def CreateCM_def
      intro!: wp_call failed saved is_backupI split: sum.split option.split)

lemma markSTSDeleted_policy:
  assumes keeps: "keeps_object c" and h: "compliant (swap_policy c vr r v) h" and w: "same_object w vr"
    and failed: "\<And>out h'. compliant (swap_policy c vr r v) h' \<Longrightarrow> grows h h' \<Longrightarrow> Q (Inl out) h'"
    and marked: "\<And>u h'. compliant (swap_policy c vr r v) h' \<Longrightarrow> grows h h' \<Longrightarrow> same_object u vr \<Longrightarrow> Q (Inr u) h'"
  shows "wp (markSTSDeleted c w) Q h"
  using h w
  by (auto simp: markSTSDeleted_def wp_cases intro!: wp_UpdateVR [OF keeps, where vr = vr]
      wp_StatusUpdateVR [OF keeps, where vr = vr] failed marked)

lemma orphanSTS_policy:
  assumes keeps: "keeps_object c" and h: "compliant (swap_policy c vr r v) h" and w: "same_object w vr"
    and failed: "\<And>out h'. compliant (swap_policy c vr r v) h' \<Longrightarrow> grows h h' \<Longrightarrow> Q (Inl out) h'"
    and gone: "\<And>u h'. compliant (swap_policy c vr r v) h' \<Longrightarrow> grows h h' \<Longrightarrow> same_object u vr \<Longrightarrow> Q (Inr u) h'"
  shows "wp (orphanSTS c w) Q h"
proof -
  have fail: "wp (setFailed c w m) (\<lambda>out. Q (Inl out)) h'"
    if "compliant (swap_policy c vr r v) h'" "grows h h'" for m h'
    using that w by (auto simp: setFailed_def run_defs intro!: wp_call failed split: sum.split)
  show ?thesis
    using h w
    by (auto simp: orphanSTS_def deleteSTSOrphan_def Let_def wp_cases GetSTS_def DeleteSTS_def same_object_builds [OF w]
        intro!: wp_call failed gone fail backupSTS_policy orphanableI markSTSDeleted_policy [OF keeps]
        split: sum.split option.split; blast intro: grows_trans)
qed

text \<open>The retain policy of the old volume.\<close>

lemma setRetain_policy:
  assumes h: "compliant (swap_policy c vr r v) h"
    and failed: "\<And>e h'. compliant (swap_policy c vr r v) h' \<Longrightarrow> grows h h' \<Longrightarrow> Q (Some e) h'"
    and kept: "\<And>h'. compliant (swap_policy c vr r v) h' \<Longrightarrow> grows h h' \<Longrightarrow> retained h' n \<Longrightarrow> Q None h'"
  shows "wp (setRetainOnPV c n) Q h"
  using h by (auto simp: setRetainOnPV_def wp_cases GetPV_def UpdatePV_def
      intro!: wp_call failed kept split: sum.split)

lemma retainOldVolume_policy:
  assumes keeps: "keeps_object c" and h: "compliant (swap_policy c vr r v) h"
    and w: "same_object w vr" and v: "vt_name (findTarget v (vrVolumes vr)) = v"
    and got: "gotOriginal vr r v q h"
  shows "wp (retainOldVolume c w (findTarget v (vrVolumes vr)) r v
      (getOriginalPVCName v (vrSTS vr) r) (getTempPVCName v (vrSTS vr) r) (pvc_volumeName q))
    (stays (swap_policy c vr r v)) h"
proof -
  have safe: "old_volume_safe vr r v h'" if "grows h h'" "retained h' (pvc_volumeName q)" for h'
    using that got unfolding old_volume_safe_def by (blast intro: gotClaim_mono)
  have go: "wp (orphanSTS c u) (\<lambda>o'. wp (case o' of Inl out \<Rightarrow> ret out
      | Inr u' \<Rightarrow> stopPod c u' (findTarget v (vrVolumes vr)) r v
          (getOriginalPVCName v (vrSTS vr) r) (getTempPVCName v (vrSTS vr) r)) (stays (swap_policy c vr r v))) h'"
    if "compliant (swap_policy c vr r v) h'" "grows h h'" "retained h' (pvc_volumeName q)" "same_object u vr" for u h'
    using that safe [OF that(2,3)]
    by (auto simp: wp_cases intro!: orphanSTS_policy [OF keeps _ that(4)] stopPod_policy [OF keeps _ _ v];
        blast intro: facts_mono)
  show ?thesis
    unfolding retainOldVolume_def Let_def wp_bind
    by (rule setRetain_policy [OF h]) (auto simp: wp_cases w intro!: setFailed_policy go)
qed

lemma createTempPVC_policy:
  assumes h: "compliant (swap_policy c vr r v) h" and w: "same_object w vr"
    and v: "vt_name (findTarget v (vrVolumes vr)) = v" and got: "gotOriginal vr r v q h"
    and out: "\<And>x h'. compliant (swap_policy c vr r v) h' \<Longrightarrow> grows h h' \<Longrightarrow> Q x h'"
  shows "wp (createTempPVC c w (findTarget v (vrVolumes vr)) q r) Q h"
  unfolding createTempPVC_def same_object_builds [OF w] v getPVC_eq
  using h got by (auto simp: wp_cases GetPVC_def CreatePVC_def
      intro!: wp_call out split: sum.split)

lemma mustWaitForBinding_reads: "only quiet (mustWaitForBinding c p)"
  by (auto simp: mustWaitForBinding_def run_defs intro!: only_bind only_option only_sum)

lemma prepareClaims_policy:
  assumes keeps: "keeps_object c" and h: "compliant (swap_policy c vr r v) h"
    and w: "same_object w vr" and v: "vt_name (findTarget v (vrVolumes vr)) = v"
  shows "wp (prepareClaims c w r v) (stays (swap_policy c vr r v)) h"
proof -
  have bind: "wp (mustWaitForBinding c t) (\<lambda>b. wp (if b \<and> pvc_phase t \<noteq> ClaimBound
        then ret (requeueAfter (second * 5))
        else retainOldVolume c w (findTarget v (vrVolumes vr)) r v (getOriginalPVCName v (vrSTS vr) r)
          (getTempPVCName v (vrSTS vr) r) (pvc_volumeName q)) (stays (swap_policy c vr r v))) h'"
    if "compliant (swap_policy c vr r v) h'" "gotOriginal vr r v q h'" for t q h'
    by (rule swap.wp_only [OF mustWaitForBinding_reads that(1)])
      (auto simp: wp_cases intro!: retainOldVolume_policy [OF keeps _ w v];
        use that in \<open>blast intro: facts_mono\<close>)
  have temp: "wp (createTempPVC c w (findTarget v (vrVolumes vr)) q r)
      (\<lambda>x. wp (case x of Inl err \<Rightarrow> setFailed c w (m err) | Inr t \<Rightarrow> do {
         b \<leftarrow> mustWaitForBinding c t;
         if b \<and> pvc_phase t \<noteq> ClaimBound then ret (requeueAfter (second * 5))
         else retainOldVolume c w (findTarget v (vrVolumes vr)) r v (getOriginalPVCName v (vrSTS vr) r)
          (getTempPVCName v (vrSTS vr) r) (pvc_volumeName q) }) (stays (swap_policy c vr r v))) h'"
    if "compliant (swap_policy c vr r v) h'" "gotOriginal vr r v q h'" for q h' m
    by (rule createTempPVC_policy [OF that(1) w v that(2)])
      (auto simp: wp_case_sum w intro!: setFailed_policy bind split: sum.split;
        use that in \<open>blast intro: facts_mono\<close>)
  show ?thesis
    unfolding prepareClaims_def Let_def wp_bind same_object_builds(5-7) [OF w] getPVC_eq GetPVC_def
    by (rule wp_call)
      (use h w in \<open>auto simp: wp_case_sum intro!: setFailed_policy temp [unfolded wp_bind] split: sum.split\<close>)
qed

text \<open>
  The whole handler, from any compliant history: every change it makes to the cluster is justified
  by what the same run has seen and done before. The volume in progress must be one of the spec's.
\<close>

theorem handleSyncing_compliant:
  assumes "keeps_object c"
    and "vt_name (findTarget (st_currentVolume (vr_status vr)) (vrVolumes vr)) = st_currentVolume (vr_status vr)"
    and "st_currentReplica (vr_status vr) = Some r"
    and "compliant (swap_policy c vr r (st_currentVolume (vr_status vr))) h"
  shows "compliant (swap_policy c vr r (st_currentVolume (vr_status vr))) (trace (handleSyncing c vr) h)"
proof -
  have "wp (handleSyncing c vr) (stays (swap_policy c vr r (st_currentVolume (vr_status vr)))) h"
    using assms by (auto simp: handleSyncing_def Let_def intro!: advance_policy prepareClaims_policy)
  then show ?thesis by (simp add: wp_iff)
qed

end
