(* ===== verification/Swap_Result.thy ===== *)
theory Swap_Result
  imports Swap_Protocol
begin

section \<open>What a swap has achieved\<close>

text \<open>
  When \<open>replacePVC\<close> reports success, the end of the history is the accepted creation of the new claim, and what it
  rests on came before. The life cycle builds on it: an entry is marked as completed only then.
\<close>

lemma wp_grows:
  assumes "only K m" and "\<And>x h'. grows h h' \<Longrightarrow> Q x h'"
  shows "wp m Q h"
proof -
  obtain t where "trace m h = h @ t"
    using assms(1) by (auto simp: only_def)
  then have "grows h (trace m h)"
    by (simp add: grows_def)
  then show ?thesis
    by (simp add: wp_iff assms(2))
qed

text \<open>The end of a history in which the claims have been swapped.\<close>

definition swapped :: "VolumeResize \<Rightarrow> VolumeResizeTarget \<Rightarrow> int32 \<Rightarrow> history \<Rightarrow> bool" where
  "swapped vr vol r h \<longleftrightarrow> (\<exists>pre t q d x.
     h = snoc pre (EvCreatePVC (replacementPVC vr vol r (om_labels (pvc_meta q)) t (pvc_volumeName t)) (Inr x)) \<and>
     gotTemp vr r (vt_name vol) t pre \<and> gotOriginal vr r (vt_name vol) q pre \<and> pvc_volumeName t \<noteq> '''' \<and>
     retained pre (pvc_volumeName t) \<and> released pre (pvc_volumeName t) \<and>
     EvDeletePVC (om_namespace (pvc_meta q)) (om_name (pvc_meta q)) d \<in> set pre \<and> unlessNotFound d = None)"

lemma createReplacement_swaps:
  assumes "gotTemp vr r (vt_name vol) t h" "gotOriginal vr r (vt_name vol) q h" "pvc_volumeName t \<noteq> ''''"
    "retained h (pvc_volumeName t)" "released h (pvc_volumeName t)"
    "EvDeletePVC (om_namespace (pvc_meta q)) (om_name (pvc_meta q)) d \<in> set h" "unlessNotFound d = None"
  shows "wp (createReplacement c vr vol r (om_labels (pvc_meta q)) t (pvc_volumeName t))
    (\<lambda>x h'. x = None \<longrightarrow> swapped vr vol r h') h"
  unfolding createReplacement_def wp_bind CreatePVC_def
  by (rule wp_call) (use assms in \<open>auto simp: swapped_def split: sum.split\<close>)

lemma replaceOriginal_swaps:
  assumes "gotTemp vr r (vt_name vol) t h" "gotOriginal vr r (vt_name vol) q h" "pvc_volumeName t \<noteq> ''''"
    "retained h (pvc_volumeName t)" "released h (pvc_volumeName t)"
  shows "wp (replaceOriginal c vr vol r q t (pvc_volumeName t)) (\<lambda>x h'. x = None \<longrightarrow> swapped vr vol r h') h"
proof -
  have after: "wp (awaitPVCDeletion c ns n p k) (\<lambda>x. wp (case x of Some err \<Rightarrow> ret (Some err)
      | None \<Rightarrow> createReplacement c vr vol r (om_labels (pvc_meta q)) t (pvc_volumeName t))
      (\<lambda>x h'. x = None \<longrightarrow> swapped vr vol r h')) (snoc h (EvDeletePVC (om_namespace (pvc_meta q)) (om_name (pvc_meta q)) d))"
    if "unlessNotFound d = None" for ns n p k d
    by (rule wp_grows [OF awaitPVCDeletion_only])
      (use assms that in \<open>auto simp: wp_case_option split: option.split
        intro!: createReplacement_swaps [where d = d] intro: facts_mono\<close>)
  show ?thesis
    unfolding replaceOriginal_def wp_bind DeletePVC_def
    by (rule wp_call) (auto simp: wp_case_option after [unfolded wp_bind] split: option.split)
qed

lemma releaseNewPV_swaps:
  assumes "gotTemp vr r (vt_name vol) t h" "gotOriginal vr r (vt_name vol) q h" "pvc_volumeName t \<noteq> ''''"
    "retained h (pvc_volumeName t)"
  shows "wp (releaseNewPV c vr vol r q t (pvc_volumeName t)) (\<lambda>x h'. x = None \<longrightarrow> swapped vr vol r h') h"
proof -
  let ?next = "\<lambda>x. case x of Some err \<Rightarrow> ret (Some err) | None \<Rightarrow> do {
      g \<leftarrow> GetPV c (pvc_volumeName t);
      case g of
        Inl err \<Rightarrow> ret (Some (wrapf ''failed to get new PV after temp PVC deletion'' err))
      | Inr newPV \<Rightarrow> do {
          u \<leftarrow> UpdatePV c (newPV\<lparr>pv_claimRef := None\<rparr>);
          case u of
            Inl err \<Rightarrow> ret (Some (wrapf ''failed to clear claimRef on new PV'' err))
          | Inr _ \<Rightarrow> replaceOriginal c vr vol r q t (pvc_volumeName t)
        } }"
  have after: "wp (awaitPVCDeletion c ns n p k) (\<lambda>x. wp (?next x) (\<lambda>x h'. x = None \<longrightarrow> swapped vr vol r h'))
      (snoc h (EvDeletePVC (om_namespace (pvc_meta t)) (om_name (pvc_meta t)) d))" for ns n p k d
  proof (rule wp_grows [OF awaitPVCDeletion_only])
    fix x h' assume "grows (snoc h (EvDeletePVC (om_namespace (pvc_meta t)) (om_name (pvc_meta t)) d)) h'"
    then have "gotTemp vr r (vt_name vol) t h'" "gotOriginal vr r (vt_name vol) q h'" "retained h' (pvc_volumeName t)"
      using assms by (auto intro: facts_mono)
    then show "wp (?next x) (\<lambda>x h'. x = None \<longrightarrow> swapped vr vol r h') h'"
      using assms(3) by (auto simp: wp_cases GetPV_def UpdatePV_def
          intro!: wp_call replaceOriginal_swaps split: option.split sum.split)
  qed
  show ?thesis
    unfolding releaseNewPV_def wp_bind DeletePVC_def
    by (rule wp_call) (auto simp: wp_case_option after [unfolded wp_bind] split: option.split)
qed

lemma replacePVC_swaps: "wp (replacePVC c vr vol r) (\<lambda>x h'. x = None \<longrightarrow> swapped vr vol r h') h"
  unfolding replacePVC_def Let_def getPVC_eq
  by (auto simp: wp_cases GetPVC_def GetPV_def UpdatePV_def
      intro!: wp_call releaseNewPV_swaps split: sum.split)

lemma swapped_same: "same_object w vr \<Longrightarrow> swapped w vol r h = swapped vr vol r h"
  by (simp add: swapped_def gotClaim_def same_object_builds)

end
