(* ===== verification/Lifecycle.thy ===== *)
theory Lifecycle
  imports Schedule Swap_Result
begin

section \<open>The life of a VolumeResize\<close>

text \<open>
  An abstract machine of what a VolumeResize promises: pending, validating, then one position of the
  schedule after the other, each first moved and then left, until done; or stopped. The status the
  controller keeps refines it: every accepted write of the handlers is one step of the machine or
  none, whatever else happens in the cluster, and at whichever point the process dies.
\<close>

subsection \<open>The abstract machine\<close>

text \<open>
  \<open>Moving n k b\<close>: \<open>n\<close> replicas, at position \<open>k\<close> of their schedule, whose claim
  has been replaced if \<open>b\<close>. The parameter \<open>m\<close> is the number of volumes per replica.
\<close>

datatype life = Fresh | Checking | Moving nat nat bool | Done nat | Stopped

inductive life_step :: "nat \<Rightarrow> life \<Rightarrow> life \<Rightarrow> bool" for m :: nat where
  begin_checks: "life_step m Fresh Checking"
| plan: "0 < n \<Longrightarrow> n < 2 ^ 31 \<Longrightarrow> life_step m Checking (Moving n 0 False)"
| reject: "life_step m Checking Stopped"
| moved: "life_step m (Moving n k False) (Moving n k True)"
| go_on: "Suc k < n * m \<Longrightarrow> life_step m (Moving n k True) (Moving n (Suc k) False)"
| arrive: "Suc k = n * m \<Longrightarrow> life_step m (Moving n k True) (Done n)"
| give_up: "life_step m (Moving n k b) Stopped"

inductive_cases life_step_from_Done [elim!]: "life_step m (Done n) a"
inductive_cases life_step_from_Stopped [elim!]: "life_step m Stopped a"

abbreviation life_path :: "nat \<Rightarrow> life \<Rightarrow> life \<Rightarrow> bool" where
  "life_path m \<equiv> (life_step m)\<^sup>*\<^sup>*"

abbreviation life_advance :: "nat \<Rightarrow> life \<Rightarrow> life \<Rightarrow> bool" where
  "life_advance m \<equiv> (life_step m)\<^sup>+\<^sup>+"

text \<open>Every step comes closer to an end; from there none goes on.\<close>

fun life_rank :: "nat \<Rightarrow> life \<Rightarrow> nat \<times> nat" where
  "life_rank m Fresh = (3, 0)"
| "life_rank m Checking = (2, 0)"
| "life_rank m (Moving n k b) = (1, 2 * (n * m - k) + (if b then 0 else 1))"
| "life_rank m (Done n) = (0, 0)"
| "life_rank m Stopped = (0, 0)"

lemma life_step_rank: "life_step m a b \<Longrightarrow> (life_rank m b, life_rank m a) \<in> less_than <*lex*> less_than"
  by (induction rule: life_step.induct) auto

lemma life_step_wf: "wf {(b, a). life_step m a b}"
proof (rule wf_subset)
  show "wf (inv_image (less_than <*lex*> less_than) (life_rank m))"
    by (simp add: wf_lex_prod)
  show "{(b, a). life_step m a b} \<subseteq> inv_image (less_than <*lex*> less_than) (life_rank m)"
    by (auto dest: life_step_rank)
qed

lemma life_advance_rank: "life_advance m a b \<Longrightarrow> (life_rank m b, life_rank m a) \<in> less_than <*lex*> less_than"
proof (induction rule: tranclp_induct)
  case (step b d)
  then have "(life_rank m d, life_rank m b) \<in> less_than <*lex*> less_than"
    by (simp add: life_step_rank)
  with step.IH show ?case
    by (cases "life_rank m a"; cases "life_rank m b"; cases "life_rank m d") auto
qed (rule life_step_rank)

lemma life_advance_irrefl: "\<not> life_advance m a a"
  using life_advance_rank [of m a a] by (cases "life_rank m a") auto

subsection \<open>What a status stands for\<close>

definition entryDone :: "VolumeStatus \<Rightarrow> bool" where
  "entryDone e \<longleftrightarrow> vs_phase e = VolumeStatusCompleted"

fun represents :: "VolumeResizeTarget list \<Rightarrow> life \<Rightarrow> VolumeResizeStatus \<Rightarrow> bool" where
  "represents vols Fresh s \<longleftrightarrow> st_phase s = '''' \<or> st_phase s = PhasePending"
| "represents vols Checking s \<longleftrightarrow> st_phase s = PhaseValidating \<and> st_volumeStatuses s = []"
| "represents vols (Moving n k b) s \<longleftrightarrow> st_phase s = PhaseSyncing \<and> n < 2 ^ 31 \<and>
     map key (st_volumeStatuses s) = schedule vols n \<and> k < n * length vols \<and>
     st_currentReplica s = Some (fst (keyAt vols k)) \<and> st_currentVolume s = snd (keyAt vols k) \<and>
     (\<forall>j < n * length vols. entryDone (st_volumeStatuses s ! j) \<longleftrightarrow> j < k \<or> j = k \<and> b)"
| "represents vols (Done n) s \<longleftrightarrow> st_phase s = PhaseCompleted \<and> n < 2 ^ 31 \<and>
     map key (st_volumeStatuses s) = schedule vols n \<and>
     st_currentReplica s = None \<and> st_currentVolume s = '''' \<and> list_all entryDone (st_volumeStatuses s)"
| "represents vols Stopped s \<longleftrightarrow> st_phase s = PhaseFailed"

text \<open>The part of a status that decides what it stands for.\<close>

definition progress :: "VolumeResizeStatus \<Rightarrow> string \<times> int32 option \<times> string \<times> ((int32 \<times> string) \<times> bool) list" where
  "progress s = (st_phase s, st_currentReplica s, st_currentVolume s,
     map (\<lambda>e. (key e, entryDone e)) (st_volumeStatuses s))"

lemma progress_entries:
  assumes "progress s = progress t"
  shows "map key (st_volumeStatuses s) = map key (st_volumeStatuses t)"
    and "map entryDone (st_volumeStatuses s) = map entryDone (st_volumeStatuses t)"
proof -
  have same: "map (\<lambda>e. (key e, entryDone e)) (st_volumeStatuses s) = map (\<lambda>e. (key e, entryDone e)) (st_volumeStatuses t)"
    using assms by (simp add: progress_def)
  show "map key (st_volumeStatuses s) = map key (st_volumeStatuses t)"
    using arg_cong [OF same, of "map fst"] by (simp add: comp_def)
  show "map entryDone (st_volumeStatuses s) = map entryDone (st_volumeStatuses t)"
    using arg_cong [OF same, of "map snd"] by (simp add: comp_def)
qed

lemma represents_progress:
  assumes "progress s = progress t"
  shows "represents vols a s = represents vols a t"
proof -
  note same = progress_entries [OF assms]
  have len: "length (st_volumeStatuses s) = length (st_volumeStatuses t)"
    using arg_cong [OF same(1), of length] by simp
  have at: "entryDone (st_volumeStatuses s ! j) = entryDone (st_volumeStatuses t ! j)"
    if "j < length (st_volumeStatuses t)" for j
    using that same(2) len by (metis nth_map)
  have all: "list_all entryDone (st_volumeStatuses s) = list_all entryDone (st_volumeStatuses t)"
    by (auto simp: list_all_length len at)
  have scalars: "st_phase s = st_phase t" "st_currentReplica s = st_currentReplica t"
    "st_currentVolume s = st_currentVolume t"
    using assms by (simp_all add: progress_def)
  have size: "length (st_volumeStatuses t) = n * length vols" if "map key (st_volumeStatuses t) = schedule vols n" for n
    using arg_cong [OF that, of length] by simp
  have "st_volumeStatuses s = [] \<longleftrightarrow> st_volumeStatuses t = []"
    using len by auto
  with scalars all same(1) show ?thesis
    by (cases a) (auto simp: at size)
qed

text \<open>A status stands for one state only.\<close>

lemma represents_unique:
  assumes "plannable vols" and "represents vols a s" and "represents vols b s"
  shows "a = b"
proof -
  have size: "n = n'" if "schedule vols n = schedule vols n'" for n n'
    using arg_cong [OF that, of length] plannable_length [OF assms(1)] by simp
  have pos: "k = k'"
    if "fst (keyAt vols k) = fst (keyAt vols k')" "snd (keyAt vols k) = snd (keyAt vols k')" "k < n * length vols" "k' < n * length vols" "n < 2147483648" for k k' n
    using that keyAt_inject [OF assms(1), of n k k'] by (simp add: prod_eq_iff)
  show ?thesis
    using assms(2,3)
    by (cases a; cases b) (auto simp: phase_defs dest!: size, (drule (4) pos, auto)+)
qed

subsection \<open>What is asked of the API server\<close>

text \<open>
  A status update answers with the status it was given; an update of the object leaves the status
  that is stored alone (the resource has a status subresource). Nothing is asked about when a
  call succeeds.
\<close>

definition serves :: "client \<Rightarrow> bool" where
  "serves c \<longleftrightarrow> keeps_object c \<and>
     (\<forall>h v w. c_statusVR c h v = Inr w \<longrightarrow> progress (vr_status w) = progress (vr_status v)) \<and>
     (\<forall>h v w u. c_updateVR c h v = Inr w \<longrightarrow> latest h = Some u \<longrightarrow>
        progress (vr_status u) = progress (vr_status v) \<longrightarrow> progress (vr_status w) = progress (vr_status v))"

lemma servesD:
  "serves c \<Longrightarrow> keeps_object c"
  "serves c \<Longrightarrow> c_statusVR c h v = Inr w \<Longrightarrow> same_object w v"
  "serves c \<Longrightarrow> c_statusVR c h v = Inr w \<Longrightarrow> progress (vr_status w) = progress (vr_status v)"
  "serves c \<Longrightarrow> c_updateVR c h v = Inr w \<Longrightarrow> same_object w v"
  "serves c \<Longrightarrow> c_updateVR c h v = Inr w \<Longrightarrow> latest h = Some u \<Longrightarrow>
     progress (vr_status u) = progress (vr_status v) \<Longrightarrow> progress (vr_status w) = progress (vr_status v)"
  unfolding serves_def keeps_object_def by blast+

subsection \<open>The policy of the life cycle\<close>

text \<open>The claim at position \<open>k\<close> of the schedule has just been replaced.\<close>

definition claim_swapped :: "VolumeResizeTarget list \<Rightarrow> nat \<Rightarrow> VolumeResize \<Rightarrow> history \<Rightarrow> bool" where
  "claim_swapped vols k u h \<longleftrightarrow> (\<exists>vol \<in> set vols. vt_name vol = snd (keyAt vols k) \<and> swapped u vol (fst (keyAt vols k)) h)"

text \<open>The StatefulSet was created again, or was there already; after that the pod of the replica was seen to run.\<close>

definition sts_back :: "history \<Rightarrow> bool" where
  "sts_back h \<longleftrightarrow> (\<exists>s res. EvCreateSTS s res \<in> set h \<and> (case res of None \<Rightarrow> True | Some err \<Rightarrow> IsAlreadyExists err))"

definition pod_back :: "VolumeResize \<Rightarrow> int32 \<Rightarrow> history \<Rightarrow> bool" where
  "pod_back u r h \<longleftrightarrow> (\<exists>pre pod post. h = pre @ EvGetPod (vrNamespace u) (getPodName (vrSTS u) r) (Inr pod) # post \<and>
     sts_back pre \<and> pod_phase pod = PodRunning)"

text \<open>So far the call has only read the object, or the clock.\<close>

fun looking :: "event \<Rightarrow> bool" where
  "looking (EvGetVR ns n res) = True"
| "looking (EvNow t) = True"
| "looking _ = False"

definition resumed :: "VolumeResize \<Rightarrow> int32 \<Rightarrow> history \<Rightarrow> bool" where
  "resumed u r h \<longleftrightarrow> pod_back u r h \<or> list_all looking h"

text \<open>
  Two steps have to be earned: a volume is marked as moved only when its claim has just been replaced, and it is left
  only when the pod is back, or at the beginning of a call that found it marked.
\<close>

definition earned :: "VolumeResizeTarget list \<Rightarrow> VolumeResize \<Rightarrow> history \<Rightarrow> life \<Rightarrow> life \<Rightarrow> bool" where
  "earned vols u h a b \<longleftrightarrow>
     (\<forall>n k. a = Moving n k False \<longrightarrow> b = Moving n k True \<longrightarrow> claim_swapped vols k u h) \<and>
     (\<forall>n k. a = Moving n k True \<longrightarrow> b = a \<or> b = Stopped \<or> resumed u (fst (keyAt vols k)) h)"

lemma earned_simps [simp]:
  "earned vols u h a a" "earned vols u h a Stopped" "earned vols u h Fresh b" "earned vols u h Checking b"
  "earned vols u h (Moving n k False) (Moving n k True) \<longleftrightarrow> claim_swapped vols k u h"
  by (auto simp: earned_def)

lemma earned_next: "resumed u (fst (keyAt vols k)) h \<Longrightarrow> earned vols u h (Moving n k True) b"
  by (simp add: earned_def)

lemma pod_back_seen: "sts_back h \<Longrightarrow> pod_phase pod = PodRunning \<Longrightarrow>
   pod_back u r (snoc h (EvGetPod (vrNamespace u) (getPodName (vrSTS u) r) (Inr pod)))"
  unfolding pod_back_def snoc_def by blast

lemma resumed_now [simp]: "resumed u r h \<Longrightarrow> resumed u r (snoc h (EvNow t))"
  unfolding resumed_def pod_back_def snoc_def by (auto; metis append.assoc append_Cons)

lemma resumed_same: "same_object u v \<Longrightarrow> resumed u r h = resumed v r h"
  by (simp add: resumed_def pod_back_def same_object_def)

lemma sts_back_grows: "sts_back h \<Longrightarrow> grows h h' \<Longrightarrow> sts_back h'"
  unfolding sts_back_def by (blast dest: growsD)

lemma sts_back_here: "(\<And>err. res = Some err \<Longrightarrow> IsAlreadyExists err) \<Longrightarrow> sts_back (snoc h (EvCreateSTS s res))"
  unfolding sts_back_def by (intro exI [of _ s] exI [of _ res]) (simp split: option.split)

text \<open>
  An accepted write of the object is stored as sent and stands for the state it found or one a step further, and the
  step is earned; an update changes nothing about it. The object is read once, at the start.
\<close>

fun life_policy :: "VolumeResizeTarget list \<Rightarrow> policy" where
  "life_policy vols h (EvStatusVR v (Inr w)) \<longleftrightarrow> progress (vr_status w) = progress (vr_status v) \<and>
     (\<forall>u a. latest h = Some u \<longrightarrow> represents vols a (vr_status u) \<longrightarrow> same_object w u \<and>
        (\<exists>b. (life_step (length vols))\<^sup>=\<^sup>= a b \<and> represents vols b (vr_status w) \<and> earned vols u h a b))"
| "life_policy vols h (EvUpdateVR v (Inr w)) \<longleftrightarrow>
     (\<forall>u a. latest h = Some u \<longrightarrow> represents vols a (vr_status u) \<longrightarrow> same_object w u \<and>
        represents vols a (vr_status w))"
| "life_policy vols h (EvGetVR ns n res) \<longleftrightarrow> h = []"
| "life_policy vols h (EvCreateVR v res) \<longleftrightarrow> False"
| "life_policy vols h _ \<longleftrightarrow> True"

interpretation life: policy_free "life_policy vols" "\<lambda>e. \<not> touches_vr e" for vols
proof
  show "\<not> touches_vr e \<Longrightarrow> life_policy vols h e" for h e
    by (cases e) simp_all
qed

text \<open>
  The assertion the stages pass on: the object in memory is, as far as the life cycle goes, the one
  that is stored, and it stands for \<open>a\<close>.
\<close>

definition holds :: "VolumeResizeTarget list \<Rightarrow> life \<Rightarrow> VolumeResize \<Rightarrow> history \<Rightarrow> bool" where
  "holds vols a vr h \<longleftrightarrow> plannable vols \<and> vrVolumes vr = vols \<and> compliant (life_policy vols) h \<and>
     represents vols a (vr_status vr) \<and>
     (\<exists>u. latest h = Some u \<and> same_object u vr \<and> progress (vr_status u) = progress (vr_status vr))"

lemma holdsD:
  assumes "holds vols a vr h"
  shows "plannable vols" "vrVolumes vr = vols" "compliant (life_policy vols) h" "represents vols a (vr_status vr)"
  using assms by (simp_all add: holds_def)

lemma holds_quiet: "holds vols a vr h \<Longrightarrow> compliant (life_policy vols) h' \<Longrightarrow> latest h' = latest h \<Longrightarrow> holds vols a vr h'"
  by (simp add: holds_def)

lemma holds_snoc [simp]: "holds vols a vr h \<Longrightarrow> \<not> touches_vr e \<Longrightarrow> holds vols a vr (snoc h e)"
  by (simp add: holds_def life.free untouched_answer)

lemma holds_same:
  "holds vols a vr h \<Longrightarrow> same_object w vr \<Longrightarrow> progress (vr_status w) = progress (vr_status vr) \<Longrightarrow> holds vols a w h"
  unfolding holds_def by (auto simp: same_object_def represents_progress [of "vr_status w" "vr_status vr"])

text \<open>An operation that leaves the VolumeResize alone.\<close>

lemma wp_untouched:
  assumes m: "only (\<lambda>e. \<not> touches_vr e) m" and h: "holds vols a vr h"
    and out: "\<And>x h'. holds vols a vr h' \<Longrightarrow> Q x h'"
  shows "wp m Q h"
proof -
  obtain t where t: "trace m h = h @ t" "list_all (\<lambda>e. \<not> touches_vr e) t"
    using m by (auto simp: only_def)
  then have "holds vols a vr (trace m h)"
    using holds_quiet [OF h life.compliant_extend latest_untouched] holdsD(3) [OF h] by simp
  then show ?thesis
    by (simp add: wp_iff out)
qed

text \<open>The outcome of a stage, for a run that began in state \<open>a\<close>.\<close>

definition asks_again :: "outcome \<Rightarrow> bool" where
  "asks_again out \<longleftrightarrow> out = requeue \<or> (\<exists>d > 0. out = requeueAfter d)"

definition settled :: "VolumeResizeTarget list \<Rightarrow> life \<Rightarrow> outcome \<Rightarrow> history \<Rightarrow> bool" where
  "settled vols a out h \<longleftrightarrow> compliant (life_policy vols) h \<and>
     (\<exists>u b. latest h = Some u \<and> represents vols b (vr_status u) \<and> life_path (length vols) a b \<and>
        (out = requeue \<longrightarrow> life_advance (length vols) a b) \<and> (asks_again out \<longrightarrow> b \<noteq> Stopped)) \<and>
     (\<forall>s. out = Panicked s \<longrightarrow> out = nilMapPanic)"

lemma settledI:
  assumes "holds vols b vr h" and "life_path (length vols) a b"
    and "out = requeue \<Longrightarrow> life_advance (length vols) a b" and "\<And>s. out = Panicked s \<Longrightarrow> out = nilMapPanic"
    and "asks_again out \<Longrightarrow> b \<noteq> Stopped"
  shows "settled vols a out h"
  using assms represents_progress unfolding settled_def holds_def by blast

lemma outcome_distinct [simp]:
  "finished \<noteq> requeue" "requeueAfter d \<noteq> requeue" "failWith e \<noteq> requeue" "nilMapPanic \<noteq> requeue"
  "finished \<noteq> Panicked s" "requeueAfter d \<noteq> Panicked s" "failWith e \<noteq> Panicked s" "requeue \<noteq> Panicked s"
  by (simp_all add: outcome_defs nilMapPanic_def)

lemma asks_again_simps [simp]:
  "asks_again requeue" "asks_again (requeueAfter d) \<longleftrightarrow> 0 < d" "\<not> asks_again finished" "\<not> asks_again (failWith e)"
  "\<not> asks_again nilMapPanic"
  by (auto simp: asks_again_def outcome_defs nilMapPanic_def)

lemma settled_simps [intro]:
  assumes "holds vols b vr h" and "life_path (length vols) a b"
  shows "settled vols a finished h" "b \<noteq> Stopped \<Longrightarrow> settled vols a (requeueAfter d) h" "settled vols a (failWith e) h"
    "settled vols a nilMapPanic h"
  by (rule settledI [OF assms]; simp)+

text \<open>The two writes.\<close>

lemma wp_write:
  assumes c: "serves c" and h: "holds vols a vr h"
    and v: "same_object v vr" "represents vols b (vr_status v)" and step: "(life_step (length vols))\<^sup>=\<^sup>= a b"
    and marked: "\<And>u. same_object u vr \<Longrightarrow> earned vols u h a b"
    and failed: "\<And>e h'. holds vols a vr h' \<Longrightarrow> Q (Inl e) h'"
    and stored: "\<And>w h'. holds vols b w h' \<Longrightarrow> same_object w v \<Longrightarrow> progress (vr_status w) = progress (vr_status v) \<Longrightarrow> Q (Inr w) h'"
  shows "wp (StatusUpdateVR c v) Q h"
proof (cases "c_statusVR c h v")
  case (Inl e)
  have "holds vols a vr (snoc h (EvStatusVR v (Inl e)))"
    using h by (simp add: holds_def)
  with Inl show ?thesis
    by (simp add: StatusUpdateVR_def wp_perform failed)
next
  case (Inr w)
  note w = servesD(2,3) [OF c Inr]
  obtain u where u: "latest h = Some u" "same_object u vr" "progress (vr_status u) = progress (vr_status vr)"
    using h by (auto simp: holds_def)
  have rep: "represents vols b (vr_status w)"
    using v(2) represents_progress [OF w(2)] by simp
  have same: "same_object w u"
    using w(1) v(1) u(2) by (simp add: same_object_def)
  have "a' = a" if "represents vols a' (vr_status u)" for a'
    using that represents_unique holdsD(1,4) [OF h] represents_progress [OF u(3)] by blast
  then have "life_policy vols h (EvStatusVR v (Inr w))"
    using u(1,2) rep step same w(2) marked by auto
  moreover have "vrVolumes w = vols"
    using w(1) v(1) holdsD(2) [OF h] by (simp add: same_object_def)
  ultimately have "holds vols b w (snoc h (EvStatusVR v (Inr w)))"
    using h rep by (simp add: holds_def)
  with Inr w show ?thesis
    by (simp add: StatusUpdateVR_def wp_perform stored)
qed

lemma wp_touch_grows:
  assumes c: "serves c" and h: "holds vols a vr h"
    and v: "same_object v vr" "progress (vr_status v) = progress (vr_status vr)"
    and failed: "\<And>e h'. holds vols a vr h' \<Longrightarrow> Q (Inl e) h'"
    and stored: "\<And>w h'. holds vols a w h' \<Longrightarrow> grows h h' \<Longrightarrow> same_object w v \<Longrightarrow> progress (vr_status w) = progress (vr_status v) \<Longrightarrow> Q (Inr w) h'"
  shows "wp (UpdateVR c v) Q h"
proof (cases "c_updateVR c h v")
  case (Inl e)
  have "holds vols a vr (snoc h (EvUpdateVR v (Inl e)))"
    using h by (simp add: holds_def)
  with Inl show ?thesis
    by (simp add: UpdateVR_def wp_perform failed)
next
  case (Inr w)
  obtain u where u: "latest h = Some u" "same_object u vr" "progress (vr_status u) = progress (vr_status vr)"
    using h by (auto simp: holds_def)
  note w = servesD(4) [OF c Inr] servesD(5) [OF c Inr u(1)]
  have eq: "progress (vr_status w) = progress (vr_status v)"
    using w(2) u(3) v(2) by simp
  have rep: "represents vols a (vr_status w)"
    using eq v(2) holdsD(4) [OF h] represents_progress by metis
  have same: "same_object w u"
    using w(1) v(1) u(2) by (simp add: same_object_def)
  have "represents vols a' (vr_status w)" if "represents vols a' (vr_status u)" for a'
    using that eq v(2) u(3) represents_progress by metis
  then have "life_policy vols h (EvUpdateVR v (Inr w))"
    using u(1) same by auto
  moreover have "vrVolumes w = vols"
    using w(1) v(1) holdsD(2) [OF h] by (simp add: same_object_def)
  ultimately have "holds vols a w (snoc h (EvUpdateVR v (Inr w)))"
    using h rep by (simp add: holds_def)
  with Inr w(1) eq show ?thesis
    by (simp add: UpdateVR_def wp_perform stored)
qed

lemma wp_touch:
  assumes "serves c" and "holds vols a vr h"
    and "same_object v vr" "progress (vr_status v) = progress (vr_status vr)"
    and "\<And>e h'. holds vols a vr h' \<Longrightarrow> Q (Inl e) h'"
    and "\<And>w h'. holds vols a w h' \<Longrightarrow> same_object w v \<Longrightarrow> progress (vr_status w) = progress (vr_status v) \<Longrightarrow> Q (Inr w) h'"
  shows "wp (UpdateVR c v) Q h"
  by (rule wp_touch_grows [OF assms(1-4)]) (blast intro: assms(5,6))+

subsection \<open>Changes to the entry in progress\<close>

lemma moving_entry:
  assumes "plannable vols" and "represents vols (Moving n k b) s"
  shows "k < length (st_volumeStatuses s)" "key (st_volumeStatuses s ! k) = keyAt vols k"
    "distinct (map key (st_volumeStatuses s))" "entryDone (st_volumeStatuses s ! k) = b"
proof -
  have keys: "map key (st_volumeStatuses s) = schedule vols n" and k: "k < n * length vols" and n: "n < 2 ^ 31"
    using assms(2) by simp_all
  have len: "length (st_volumeStatuses s) = n * length vols"
    using arg_cong [OF keys, of length] by simp
  then show "k < length (st_volumeStatuses s)" using k by simp
  then show "key (st_volumeStatuses s ! k) = keyAt vols k"
    using keys k by (metis nth_map schedule_nth)
  show "distinct (map key (st_volumeStatuses s))"
    unfolding keys using assms(1) n by (simp add: schedule_distinct)
  show "entryDone (st_volumeStatuses s ! k) = b"
    using assms(2) k by simp
qed

lemma progress_entry_change:
  assumes "k < length (st_volumeStatuses s)" and "key (f (st_volumeStatuses s ! k)) = key (st_volumeStatuses s ! k)"
    and "entryDone (f (st_volumeStatuses s ! k)) = entryDone (st_volumeStatuses s ! k)"
  shows "progress (s\<lparr>st_volumeStatuses := (st_volumeStatuses s)[k := f (st_volumeStatuses s ! k)]\<rparr>) = progress s"
proof -
  have "map (\<lambda>e. (key e, entryDone e)) ((st_volumeStatuses s)[k := f (st_volumeStatuses s ! k)]) =
      map (\<lambda>e. (key e, entryDone e)) (st_volumeStatuses s)"
    by (rule nth_equalityI) (use assms in \<open>auto simp: nth_list_update\<close>)
  then show ?thesis by (simp add: progress_def)
qed

lemma holds_mark:
  assumes h: "holds vols (Moving n k False) vr h" and "keyAt vols k = (r, v)" and "p \<noteq> VolumeStatusCompleted"
  shows "holds vols (Moving n k False) (updateVolumeStatus vr v r p m) h"
proof (rule holds_same [OF h])
  let ?es = "st_volumeStatuses (vr_status vr)" and ?f = "\<lambda>vs. vs\<lparr>vs_phase := p, vs_message := m\<rparr>"
  note at = moving_entry [OF holdsD(1,4) [OF h]]
  have "setFirstStatus v r p m ?es = ?es[k := ?f (?es ! k)]"
    using at assms(2) by (intro first_entry.upd_at) simp_all
  moreover have "progress ((vr_status vr)\<lparr>st_volumeStatuses := ?es[k := ?f (?es ! k)]\<rparr>) = progress (vr_status vr)"
    using at assms(3) by (intro progress_entry_change) (simp_all add: key_def entryDone_def)
  ultimately show "progress (vr_status (updateVolumeStatus vr v r p m)) = progress (vr_status vr)"
    by (simp add: updateVolumeStatus_def)
qed simp

lemma holds_record:
  assumes h: "holds vols (Moving n k False) vr h" and "keyAt vols k = (r, v)"
  shows "holds vols (Moving n k False) (withStatus (\<lambda>s. s\<lparr>st_volumeStatuses :=
    updateVolumeStatusInList (st_volumeStatuses s) v r (recordNames x y z)\<rparr>) vr) h"
proof (rule holds_same [OF h])
  let ?es = "st_volumeStatuses (vr_status vr)"
  note at = moving_entry [OF holdsD(1,4) [OF h]]
  have "updateVolumeStatusInList ?es v r (recordNames x y z) = ?es[k := recordNames x y z (?es ! k)]"
    using at assms(2) by (intro every_entry.upd_at) simp_all
  moreover have "progress ((vr_status vr)\<lparr>st_volumeStatuses := ?es[k := recordNames x y z (?es ! k)]\<rparr>) = progress (vr_status vr)"
    using at by (intro progress_entry_change) (simp_all add: key_def entryDone_def recordNames_def)
  ultimately show "progress (vr_status (withStatus (\<lambda>s. s\<lparr>st_volumeStatuses :=
      updateVolumeStatusInList (st_volumeStatuses s) v r (recordNames x y z)\<rparr>) vr)) = progress (vr_status vr)"
    by simp
qed simp

lemma represents_moved:
  assumes p: "plannable vols" and s: "represents vols (Moving n k False) (vr_status vr)" and kv: "keyAt vols k = (r, v)"
  shows "represents vols (Moving n k True) (vr_status (updateVolumeStatus vr v r VolumeStatusCompleted m))"
proof -
  let ?es = "st_volumeStatuses (vr_status vr)"
  note at = moving_entry [OF p s]
  have upd: "setFirstStatus v r VolumeStatusCompleted m ?es =
      ?es[k := (?es ! k)\<lparr>vs_phase := VolumeStatusCompleted, vs_message := m\<rparr>]"
    using at kv by (intro first_entry.upd_at) simp_all
  have keys: "map key (setFirstStatus v r VolumeStatusCompleted m ?es) = map key ?es"
    by (rule first_entry.upd_keys)
  have len: "length ?es = n * length vols"
    using s by (auto dest: arg_cong [of _ _ length])
  show ?thesis
    using s at(1) keys by (auto simp: updateVolumeStatus_def upd nth_list_update entryDone_def len)
qed

subsection \<open>Operations that leave the VolumeResize alone\<close>

abbreviation leaves_vr :: "'a io \<Rightarrow> bool" where
  "leaves_vr \<equiv> only (\<lambda>e. \<not> touches_vr e)"

lemma claim_leaves: "only claim_event m \<Longrightarrow> leaves_vr m"
  by (erule only_mono) (elim claim_event.elims; simp)

lemma sts_leaves: "only sts_event m \<Longrightarrow> leaves_vr m"
  by (erule only_mono) (elim sts_event.elims; simp)

lemma quiet_leaves: "only quiet m \<Longrightarrow> leaves_vr m"
  by (erule only_mono) (simp add: quiet_def)

lemma pod_calls_leave:
  "leaves_vr (deletePod c ns s r)" "leaves_vr (cleanupMigratorPod c p ns)"
  "leaves_vr (createMigratorPod c vr vol r a b)" "leaves_vr (GetPod c ns p)" "leaves_vr (GetSTS c ns p)"
  "leaves_vr (Now c)"
  by (auto simp: deletePod_def cleanupMigratorPod_def createMigratorPod_def run_defs Let_def
      intro!: only_bind only_option only_sum)

lemmas leave_rules = claim_leaves [OF createTempPVC_only] claim_leaves [OF setRetainOnPV_only]
  claim_leaves [OF replacePVC_only] sts_leaves [OF backupSTSToConfigMap_only]
  sts_leaves [OF deleteSTSOrphan_only] sts_leaves [OF getSTSFromBackupConfigMap_only]
  sts_leaves [OF recreateSTS_only] quiet_leaves [OF waitForPodTermination_only]
  quiet_leaves [OF waitForMigrationComplete_only] quiet_leaves [OF mustWaitForBinding_reads]
  quiet_leaves [OF validateStatefulSetExists_only] quiet_leaves [OF validatePDBAllowsDisruption_only]
  pod_calls_leave

lemma getPVC_leaves: "leaves_vr (getPVC c ns n)"
  by (auto simp: run_defs)

subsection \<open>Every stage settles\<close>

lemma setFailed_settles:
  assumes c: "serves c" and h: "holds vols b vr h" and step: "life_step (length vols) b Stopped"
    and path: "life_path (length vols) a b"
  shows "wp (setFailed c vr m) (settled vols a) h"
  unfolding setFailed_def wp_bind
proof (rule wp_write [OF c h])
  have far: "life_path (length vols) a Stopped" using path step by simp
  show "wp (case Inl e of Inl err \<Rightarrow> ret (failWith err) | Inr _ \<Rightarrow> ret finished) (settled vols a) h'"
    if "holds vols b vr h'" for e h'
    using settled_simps(3) [OF that path] by simp
  show "wp (case Inr w of Inl err \<Rightarrow> ret (failWith err) | Inr _ \<Rightarrow> ret finished) (settled vols a) h'"
    if "holds vols Stopped w h'" for w h'
    using settled_simps(1) [OF that far] by simp
qed (use step in simp_all)

text \<open>The end of a position, reached from two places.\<close>

definition afterwards :: "VolumeResizeTarget list \<Rightarrow> nat \<Rightarrow> nat \<Rightarrow> life" where
  "afterwards vols n k = (if Suc k < n * length vols then Moving n (Suc k) False else Done n)"

lemma step_afterwards:
  "k < n * length vols \<Longrightarrow> life_step (length vols) (Moving n k True) (afterwards vols n k)"
  by (auto simp: afterwards_def intro: life_step.intros)

lemma represents_afterwards:
  assumes "represents vols (Moving n k True) s"
  shows "Suc k < n * length vols \<Longrightarrow> represents vols (afterwards vols n k)
      (nextStatus (fst (keyAt vols (Suc k))) (snd (keyAt vols (Suc k))) s)"
    and "\<not> Suc k < n * length vols \<Longrightarrow> represents vols (afterwards vols n k) (completedStatus now s)"
proof -
  assume "Suc k < n * length vols"
  then show "represents vols (afterwards vols n k) (nextStatus (fst (keyAt vols (Suc k))) (snd (keyAt vols (Suc k))) s)"
    using assms by (auto simp: afterwards_def nextStatus_def less_Suc_eq)
next
  assume "\<not> Suc k < n * length vols"
  moreover have "length (st_volumeStatuses s) = n * length vols"
    using assms by (auto dest: arg_cong [of _ _ length])
  ultimately show "represents vols (afterwards vols n k) (completedStatus now s)"
    using assms by (auto simp: afterwards_def completedStatus_def list_all_length)
qed

lemma afterwards_goes_on [simp]: "afterwards vols n k \<noteq> Stopped"
  by (simp add: afterwards_def)

lemma advance_settles:
  assumes c: "serves c" and h: "holds vols (Moving n k True) vr h" and kv: "keyAt vols k = (r, v)"
    and path: "life_path (length vols) a (Moving n k True)" and again: "resumed vr r h"
  shows "wp (advance c vr r v) (settled vols a) h"
proof -
  let ?next = "afterwards vols n k"
  have rep: "represents vols (Moving n k True) (vr_status vr)" and vols: "vrVolumes vr = vols"
    using holdsD [OF h] by blast+
  have k: "k < n * length vols" and n: "n \<le> 2 ^ 31" and keys: "map key (st_volumeStatuses (vr_status vr)) = schedule vols n"
    using rep by simp_all
  have chosen: "getNextVolumeReplica vr r v = Some (if Suc k < n * length vols
      then (fst (keyAt vols (Suc k)), snd (keyAt vols (Suc k)), False) else (0, '''', True))"
    using getNextVolumeReplica_schedule [of vr n k] holdsD(1) [OF h] keys n k kv by (simp add: vols)
  have step: "life_step (length vols) (Moving n k True) ?next"
    using k by (rule step_afterwards)
  have distant: "life_path (length vols) a ?next" and ahead: "life_advance (length vols) a ?next"
    using path step by auto
  have send: "wp (StatusUpdateVR c v') (\<lambda>u. wp (case u of Inl err \<Rightarrow> ret (failWith err) | Inr _ \<Rightarrow> ret requeue) (settled vols a)) h'"
    if "holds vols (Moving n k True) vr h'" "represents vols ?next (vr_status v')" "same_object v' vr" "resumed vr r h'" for v' h'
    by (rule wp_write [OF c that(1) that(3,2)])
      (use step path distant ahead kv that(4) in \<open>auto intro: settled_simps settledI earned_next simp: resumed_same\<close>)
  show ?thesis
    using h represents_afterwards [OF rep] again
    by (auto simp: advance_def chosen Now_def wp_if intro!: send wp_call)
qed

lemma awaitPod_settles:
  assumes c: "serves c" and h: "holds vols (Moving n k True) vr h" and kv: "keyAt vols k = (r, v)"
    and path: "life_path (length vols) a (Moving n k True)" and again: "sts_back h"
  shows "wp (awaitPod c vr r v) (settled vols a) h"
  unfolding awaitPod_def wp_bind GetPod_def
  by (rule wp_call)
    (use h path again in \<open>auto simp: wp_cases resumed_def pod_back_seen
      intro!: settled_simps advance_settles [OF c _ kv path] intro: holds_snoc split: sum.split\<close>)

lemma wp_case_result:
  "wp (if (case x of None \<Rightarrow> False | Some err \<Rightarrow> b err) then m else n) Q h =
   (case x of None \<Rightarrow> wp n Q h | Some err \<Rightarrow> if b err then wp m Q h else wp n Q h)"
  by (simp split: option.split)

lemma restoreSTS_settles:
  assumes c: "serves c" and h: "holds vols (Moving n k True) vr h" and kv: "keyAt vols k = (r, v)"
    and path: "life_path (length vols) a (Moving n k True)"
  shows "wp (restoreSTS c vr r v) (settled vols a) h"
proof -
  have fail: "wp (setFailed c vr m) (settled vols a) h'" if "holds vols (Moving n k True) vr h'" for m h'
    by (rule setFailed_settles [OF c that _ path]) (rule give_up)
  have clear: "wp (UpdateVR c (withMeta (\<lambda>m. m\<lparr>om_annotations := goDelete (om_annotations m) AnnotationSTSDeleted\<rparr>) vr))
      (\<lambda>u. wp (case u of Inl err \<Rightarrow> ret (failWith err) | Inr w \<Rightarrow> awaitPod c w r v) (settled vols a)) h'"
    if "holds vols (Moving n k True) vr h'" "sts_back h'" for h'
    by (rule wp_touch_grows [OF c that(1)])
      (use path that(2) in \<open>auto intro: settled_simps awaitPod_settles [OF c _ kv path] sts_back_grows\<close>)
  have again: "wp (recreateSTS c s) (\<lambda>created. wp (if (case created of None \<Rightarrow> False | Some err \<Rightarrow> \<not> IsAlreadyExists err)
      then setFailed c vr (m created)
      else do {
        u \<leftarrow> UpdateVR c (withMeta (\<lambda>m. m\<lparr>om_annotations := goDelete (om_annotations m) AnnotationSTSDeleted\<rparr>) vr);
        case u of Inl err \<Rightarrow> ret (failWith err) | Inr w \<Rightarrow> awaitPod c w r v }) (settled vols a)) h'"
    if "holds vols (Moving n k True) vr h'" for s m h'
    unfolding recreateSTS_def wp_bind CreateSTS_def
    by (rule wp_call) (use that in \<open>auto simp: wp_case_result wp_case_option intro!: fail clear sts_back_here split: option.split\<close>)
  show ?thesis
    unfolding restoreSTS_def wp_bind
    by (rule wp_untouched [OF _ h])
      (use path in \<open>auto simp: fail again [unfolded wp_bind] intro: leave_rules settled_simps split: sum.split option.split\<close>)
qed

lemma findTarget_name: "v \<in> vt_name ` set vols \<Longrightarrow> vt_name (findTarget v vols) = v"
  by (induction vols) auto

lemma findTarget_in: "v \<in> vt_name ` set vols \<Longrightarrow> findTarget v vols \<in> set vols"
  by (induction vols) auto

text \<open>The claim of the position is swapped when \<open>replacePVC\<close> returns without an error.\<close>

lemma wp_replacePVC:
  assumes h: "holds vols a vr h" and vol: "vol \<in> set vols" "keyAt vols k = (r, vt_name vol)"
    and failed: "\<And>e h'. holds vols a vr h' \<Longrightarrow> Q (Some e) h'"
    and replaced: "\<And>h'. holds vols a vr h' \<Longrightarrow> (\<And>u. same_object u vr \<Longrightarrow> claim_swapped vols k u h') \<Longrightarrow> Q None h'"
  shows "wp (replacePVC c vr vol r) Q h"
proof -
  have "wp (replacePVC c vr vol r) (\<lambda>x h'. holds vols a vr h') h"
    by (rule wp_untouched [OF _ h]) (auto intro: leave_rules)
  moreover have "claim_swapped vols k u h'" if "swapped vr vol r h'" "same_object u vr" for u h'
    using that vol by (auto simp: claim_swapped_def swapped_same)
  ultimately show ?thesis
    using replacePVC_swaps [of c vr vol r h] failed replaced
    by (cases "result (replacePVC c vr vol r) h") (auto simp: wp_iff)
qed

lemma swapVolume_settles:
  assumes c: "serves c" and h: "holds vols (Moving n k False) vr h" and kv: "keyAt vols k = (r, v)"
    and vol: "vol \<in> set vols" "vt_name vol = v"
  shows "wp (swapVolume c vr vol r v) (settled vols (Moving n k False)) h"
proof -
  let ?w = "updateVolumeStatus vr v r VolumeStatusSynced ''Migration complete''"
  have h': "holds vols (Moving n k False) ?w h"
    by (rule holds_mark [OF h kv]) simp
  have moved: "life_step (length vols) (Moving n k False) (Moving n k True)"
    by (rule life_step.moved)
  have persist: "wp (StatusUpdateVR c (updateVolumeStatus ?w v r VolumeStatusCompleted ''PVC replaced''))
      (\<lambda>u. wp (case u of Inl err \<Rightarrow> ret (failWith err) | Inr vr \<Rightarrow> restoreSTS c vr r v) (settled vols (Moving n k False))) g"
    if g: "holds vols (Moving n k False) ?w g" and swap: "\<And>u. same_object u ?w \<Longrightarrow> claim_swapped vols k u g" for g
    by (rule wp_write [OF c g _ represents_moved [OF holdsD(1,4) [OF g] kv]])
      (use moved swap in \<open>auto intro: settled_simps restoreSTS_settles [OF c _ kv]\<close>)
  show ?thesis
    unfolding swapVolume_def Let_def wp_bind
    by (rule wp_replacePVC [OF h' vol(1), where k = k])
      (auto simp: kv vol(2) persist intro: setFailed_settles [OF c] give_up)
qed

lemma runMigration_settles:
  assumes c: "serves c" and h: "holds vols (Moving n k False) vr h" and kv: "keyAt vols k = (r, v)"
    and vol: "vol \<in> set vols" "vt_name vol = v"
  shows "wp (runMigration c vr vol r v a b) (settled vols (Moving n k False)) h"
proof -
  have fail: "wp (setFailed c vr m) (settled vols (Moving n k False)) g"
    if "holds vols (Moving n k False) vr g" for m g
    by (rule setFailed_settles [OF c that]) (auto intro: give_up)
  have look: "wp (GetPod c ns p) (\<lambda>r'. wp (case r' of Inl getErr \<Rightarrow> ret None
      | Inr pod \<Rightarrow>
          if pod_phase pod = PodRunning \<or> pod_phase pod = PodPending then ret (Some (requeueAfter (second * 10)))
          else if pod_phase pod = PodFailed
          then do { out \<leftarrow> setFailed c vr ''migration pod failed''; ret (Some out) }
          else ret None) (\<lambda>early. wp (case early of Some out \<Rightarrow> ret out
      | None \<Rightarrow> do { _ \<leftarrow> cleanupMigratorPod c p' ns'; swapVolume c vr vol r v }) (settled vols (Moving n k False)))) g"
    if "holds vols (Moving n k False) vr g" for ns p ns' p' g
    by (rule wp_untouched [OF pod_calls_leave(4) that])
      (auto intro: settled_simps fail wp_untouched [OF pod_calls_leave(2)] swapVolume_settles [OF c _ kv vol] split: sum.split)
  have await: "wp (awaitMigration c vr pod) (\<lambda>early. wp (case early of Some out \<Rightarrow> ret out
      | None \<Rightarrow> do { _ \<leftarrow> cleanupMigratorPod c p' ns'; swapVolume c vr vol r v }) (settled vols (Moving n k False))) g"
    if "holds vols (Moving n k False) vr g" for pod p' ns' g
    unfolding awaitMigration_def wp_bind
    by (rule wp_untouched [OF _ that])
      (auto simp: look [unfolded wp_bind] intro: leave_rules wp_untouched [OF pod_calls_leave(2)] swapVolume_settles [OF c _ kv vol]
        split: option.split)
  show ?thesis
    unfolding runMigration_def wp_bind
    by (rule wp_untouched [OF pod_calls_leave(3) h])
      (auto simp: fail await [unfolded wp_bind] split: sum.split)
qed

lemma stopPod_settles:
  assumes c: "serves c" and h: "holds vols (Moving n k False) vr h" and kv: "keyAt vols k = (r, v)"
    and vol: "vol \<in> set vols" "vt_name vol = v"
  shows "wp (stopPod c vr vol r v a b) (settled vols (Moving n k False)) h"
  unfolding stopPod_def Let_def wp_bind
  by (rule wp_untouched [OF pod_calls_leave(1) h], rule wp_untouched [OF quiet_leaves [OF waitForPodTermination_only]], assumption)
    (auto intro: settled_simps runMigration_settles [OF c _ kv vol] split: option.split)

lemma setFailed_early:
  assumes c: "serves c" and h: "holds vols (Moving n k False) vr h"
    and out: "\<And>out h'. settled vols (Moving n k False) out h' \<Longrightarrow> Q (Inl out) h'"
  shows "wp (setFailed c vr m) (\<lambda>out. Q (Inl out)) h"
  by (rule wp_mono [OF setFailed_settles [OF c h give_up]]) (auto intro: out)

lemma markSTSDeleted_settles:
  assumes c: "serves c" and h: "holds vols a vr h"
    and out: "\<And>out h'. settled vols a out h' \<Longrightarrow> Q (Inl out) h'"
    and marked: "\<And>w h'. holds vols a w h' \<Longrightarrow> Q (Inr w) h'"
  shows "wp (markSTSDeleted c vr) Q h"
proof -
  have name: "wp (StatusUpdateVR c (withStatus (\<lambda>s. s\<lparr>st_backupConfigMapName := nm\<rparr>) w))
      (\<lambda>u. wp (case u of Inl err \<Rightarrow> ret (Inl (failWith err)) | Inr w \<Rightarrow> ret (Inr w)) Q) g"
    if g: "holds vols a w g" for w nm g
  proof (rule wp_write [OF c g, where b = a])
    have "progress ((vr_status w)\<lparr>st_backupConfigMapName := nm\<rparr>) = progress (vr_status w)"
      by (simp add: progress_def)
    from represents_progress [OF this, of vols a]
    show "represents vols a (vr_status (withStatus (\<lambda>s. s\<lparr>st_backupConfigMapName := nm\<rparr>) w))"
      using holdsD(4) [OF g] by simp
  qed (auto intro: out settled_simps marked)
  show ?thesis
    unfolding markSTSDeleted_def wp_bind
    by (rule wp_touch [OF c h]) (auto intro: out settled_simps name)
qed

lemma orphanSTS_settles:
  assumes c: "serves c" and h: "holds vols (Moving n k False) vr h"
    and out: "\<And>out h'. settled vols (Moving n k False) out h' \<Longrightarrow> Q (Inl out) h'"
    and gone: "\<And>w h'. holds vols (Moving n k False) w h' \<Longrightarrow> Q (Inr w) h'"
  shows "wp (orphanSTS c vr) Q h"
proof -
  have fail: "wp (setFailed c vr m) (\<lambda>out. Q (Inl out)) g" if "holds vols (Moving n k False) vr g" for m g
    by (rule setFailed_early [OF c that]) (rule out)
  have delete: "wp (deleteSTSOrphan c sts) (\<lambda>d. wp (case d of
        Inl err \<Rightarrow> do { out \<leftarrow> setFailed c vr (m err); ret (Inl out) }
      | Inr _ \<Rightarrow> markSTSDeleted c vr) Q) g" if "holds vols (Moving n k False) vr g" for sts m g
    by (rule wp_untouched [OF _ that])
      (auto simp: fail intro: leave_rules out gone markSTSDeleted_settles [OF c] split: sum.split)
  have backup: "wp (backupSTSToConfigMap c vr sts) (\<lambda>b. wp (case b of
        Some err \<Rightarrow> do { out \<leftarrow> setFailed c vr (m err); ret (Inl out) }
      | None \<Rightarrow> do {
          d \<leftarrow> deleteSTSOrphan c sts;
          case d of Inl err \<Rightarrow> do { out \<leftarrow> setFailed c vr (m' err); ret (Inl out) }
          | Inr _ \<Rightarrow> markSTSDeleted c vr }) Q) g" if "holds vols (Moving n k False) vr g" for sts m m' g
    by (rule wp_untouched [OF _ that])
      (auto simp: fail delete [unfolded wp_bind] intro: leave_rules split: option.split)
  have "wp (GetSTS c ns s) (\<lambda>r. wp (case r of
        Inl err \<Rightarrow> if \<not> IsNotFound err then ret (Inl (failWith err)) else ret (Inr vr)
      | Inr sts \<Rightarrow> do {
          b \<leftarrow> backupSTSToConfigMap c vr sts;
          case b of
            Some err \<Rightarrow> do { out \<leftarrow> setFailed c vr (m err); ret (Inl out) }
          | None \<Rightarrow> do {
              d \<leftarrow> deleteSTSOrphan c sts;
              case d of Inl err \<Rightarrow> do { out \<leftarrow> setFailed c vr (m' err); ret (Inl out) }
              | Inr _ \<Rightarrow> markSTSDeleted c vr } }) Q) h" for ns s m m'
    by (rule wp_untouched [OF pod_calls_leave(5) h])
      (auto simp: backup [unfolded wp_bind] intro: out gone settled_simps split: sum.split)
  then show ?thesis
    unfolding orphanSTS_def using gone [OF h] by (auto simp: wp_if)
qed

lemma retainOldVolume_settles:
  assumes c: "serves c" and h: "holds vols (Moving n k False) vr h" and kv: "keyAt vols k = (r, v)"
    and vol: "vol \<in> set vols" "vt_name vol = v"
  shows "wp (retainOldVolume c vr vol r v a b p) (settled vols (Moving n k False)) h"
proof -
  have go: "wp (orphanSTS c w) (\<lambda>o'. wp (case o' of Inl out \<Rightarrow> ret out | Inr w \<Rightarrow> stopPod c w vol r v a b)
      (settled vols (Moving n k False))) g" if "holds vols (Moving n k False) w g" for w g
    by (rule orphanSTS_settles [OF c that]) (auto intro: stopPod_settles [OF c _ kv vol])
  show ?thesis
    unfolding retainOldVolume_def Let_def wp_bind
    by (rule wp_untouched [OF _ h])
      (auto intro: leave_rules setFailed_settles [OF c] give_up intro!: go holds_record [OF holds_mark] simp: kv split: option.split)
qed

lemma prepareClaims_settles:
  assumes c: "serves c" and h: "holds vols (Moving n k False) vr h" and kv: "keyAt vols k = (r, v)"
  shows "wp (prepareClaims c vr r v) (settled vols (Moving n k False)) h"
proof -
  have "vols \<noteq> []" and vols: "vrVolumes vr = vols"
    using holdsD(1,2) [OF h] by (simp_all add: plannable_def)
  then have "v \<in> vt_name ` set vols"
    using kv by (auto simp: keyAt_def)
  then have vol: "findTarget v vols \<in> set vols" "vt_name (findTarget v vols) = v"
    by (simp_all add: findTarget_in findTarget_name)
  have fail: "wp (setFailed c vr m) (settled vols (Moving n k False)) g" if "holds vols (Moving n k False) vr g" for m g
    by (rule setFailed_settles [OF c that]) (auto intro: give_up)
  have bind: "wp (mustWaitForBinding c t) (\<lambda>w. wp (if w \<and> pvc_phase t \<noteq> ClaimBound then ret (requeueAfter (second * 5))
      else retainOldVolume c vr (findTarget v vols) r v a b p) (settled vols (Moving n k False))) g"
    if "holds vols (Moving n k False) vr g" for t a b p g
    by (rule wp_untouched [OF _ that]) (auto intro: leave_rules settled_simps retainOldVolume_settles [OF c _ kv vol])
  have temp: "wp (createTempPVC c vr (findTarget v vols) q r) (\<lambda>t. wp (case t of Inl err \<Rightarrow> setFailed c vr (m err)
      | Inr t \<Rightarrow> do {
          w \<leftarrow> mustWaitForBinding c t;
          if w \<and> pvc_phase t \<noteq> ClaimBound then ret (requeueAfter (second * 5))
          else retainOldVolume c vr (findTarget v vols) r v a b p }) (settled vols (Moving n k False))) g"
    if "holds vols (Moving n k False) vr g" for q a b p m g
    by (rule wp_untouched [OF _ that])
      (auto simp: fail bind [unfolded wp_bind] intro: leave_rules split: sum.split)
  show ?thesis
    unfolding prepareClaims_def Let_def wp_bind vols
    by (rule wp_untouched [OF getPVC_leaves h]) (auto simp: fail temp [unfolded wp_bind] split: sum.split)
qed

subsection \<open>The handlers and the reconciler settle\<close>

lemma handleSyncing_settles:
  assumes c: "serves c" and h: "holds vols (Moving n k b) vr h" and begun: "list_all looking h"
  shows "wp (handleSyncing c vr) (settled vols (Moving n k b)) h"
proof -
  have rep: "represents vols (Moving n k b) (vr_status vr)" and p: "plannable vols"
    using holdsD [OF h] by blast+
  have at: "st_currentReplica (vr_status vr) = Some (fst (keyAt vols k))" "st_currentVolume (vr_status vr) = snd (keyAt vols k)"
    and done_iff: "entryDone (st_volumeStatuses (vr_status vr) ! k) \<longleftrightarrow> b"
    using rep moving_entry(4) [OF p rep] by simp_all
  have "currentCompleted vr (fst (keyAt vols k)) (snd (keyAt vols k)) \<longleftrightarrow> b"
    using currentCompleted_schedule [OF p, of n k vr] rep done_iff by (simp add: entryDone_def)
  then show ?thesis
    using advance_settles [OF c, of vols n k vr h] prepareClaims_settles [OF c, of vols n k vr h] h
    by (cases b) (auto simp: handleSyncing_def at Let_def resumed_def begun)
qed

text \<open>
  The replica count that validation reads decides the length of the schedule; it must be positive
  when it is read.
\<close>

definition positive_replicas :: "client \<Rightarrow> history \<Rightarrow> bool" where
  "positive_replicas c h \<longleftrightarrow> (\<forall>ns n s. c_getSTS c h ns n = Inr s \<longrightarrow> 0 < sint (replicasOf s))"

lemma validateSizes_quiet: "only quiet (validateSizes c ns s vols)"
  by (induction vols) (auto intro!: only_bind validateSizeReduction_only)

lemma runChecks_settles:
  assumes pos: "positive_replicas c h" and h: "holds vols Checking vr h"
    and bad: "\<And>m h'. holds vols Checking vr h' \<Longrightarrow> Q (Inl m) h'"
    and good: "\<And>sts h'. holds vols Checking vr h' \<Longrightarrow> 0 < sint (replicasOf sts) \<Longrightarrow> Q (Inr sts) h'"
  shows "wp (runChecks c vr) Q h"
proof -
  have pdb: "wp (validatePDBAllowsDisruption c sts) (\<lambda>res. wp (if \<not> vres_valid res then ret (Inl (vres_message res))
      else ret (Inr sts)) Q) g" if "holds vols Checking vr g" "0 < sint (replicasOf sts)" for sts g
    by (rule wp_untouched [OF _ that(1)]) (use that(2) in \<open>auto intro: leave_rules bad good\<close>)
  have sizes: "wp (validateSizes c ns s vs) (\<lambda>res. wp (if \<not> vres_valid res then ret (Inl (vres_message res))
      else do {
        res \<leftarrow> validatePDBAllowsDisruption c sts;
        if \<not> vres_valid res then ret (Inl (vres_message res)) else ret (Inr sts) }) Q) g"
    if "holds vols Checking vr g" "0 < sint (replicasOf sts)" for sts ns s vs g
    by (rule wp_untouched [OF quiet_leaves [OF validateSizes_quiet] that(1)])
      (use that(2) in \<open>auto simp: pdb [unfolded wp_bind] intro: bad\<close>)
  show ?thesis
  proof (cases "c_getSTS c h (vrNamespace vr) (vrSTS vr)")
    case (Inl e)
    then show ?thesis
      using h by (auto simp: runChecks_def validateStatefulSetExists_def GetSTS_def wp_perform bad)
  next
    case (Inr sts)
    then have "0 < sint (replicasOf sts)"
      using pos by (simp add: positive_replicas_def)
    with Inr h show ?thesis
      by (auto simp: runChecks_def validateStatefulSetExists_def GetSTS_def wp_perform wp_if Let_def
          sizes [unfolded wp_bind] intro: bad)
  qed
qed

lemma represents_planned:
  assumes "plannable vols" and "0 < sint replicas" and "st_volumeStatuses s = []"
  shows "represents vols (Moving (nat (sint replicas)) 0 False) (s\<lparr>
     st_volumeStatuses := st_volumeStatuses s @ initialStatuses vols 0 replicas, st_phase := PhaseSyncing,
     st_currentReplica := Some 0, st_currentVolume := vt_name (hd vols), st_message := m\<rparr>)"
proof -
  have keys: "map key (initialStatuses vols 0 replicas) = schedule vols (nat (sint replicas))"
    by (rule initialStatuses_schedule)
  have pending: "\<not> entryDone (initialStatuses vols 0 replicas ! j)" if "j < nat (sint replicas) * length vols" for j
  proof -
    have "j < length (initialStatuses vols 0 replicas)"
      using that arg_cong [OF keys, of length] by simp
    then show ?thesis
      using initialStatuses_pending [OF nth_mem] by (simp add: entryDone_def)
  qed
  have "nat (sint replicas) < 2 ^ 31"
    using sint_lt [of replicas] by simp
  with assms keys pending plannable_length [OF assms(1)] show ?thesis
    by (simp add: keyAt_def plannable_def hd_conv_nth)
qed

lemma startSyncing_settles:
  assumes c: "serves c" and h: "holds vols Checking vr h" and pos: "0 < sint (replicasOf sts)"
  shows "wp (startSyncing c vr sts) (settled vols Checking) h"
proof -
  let ?n = "nat (sint (replicasOf sts))"
  have p: "plannable vols" and vols: "vrVolumes vr = vols" and empty: "st_volumeStatuses (vr_status vr) = []"
    using holdsD [OF h] by simp_all
  obtain v0 vs where v0: "vols = v0 # vs"
    using p by (cases vols) (auto simp: plannable_def)
  have step: "life_step (length vols) Checking (Moving ?n 0 False)"
    using pos sint_lt [of "replicasOf sts"] by (intro plan) simp_all
  show ?thesis
    unfolding startSyncing_def vols v0 list.case wp_bind
    by (rule wp_write [OF c h [unfolded v0], where b = "Moving ?n 0 False"])
      (use step represents_planned [OF p pos empty] in \<open>auto simp: v0 intro: settled_simps settledI\<close>)
qed

lemma handleValidating_settles:
  assumes c: "serves c" and pos: "positive_replicas c h" and h: "holds vols Checking vr h"
  shows "wp (handleValidating c vr) (settled vols Checking) h"
  unfolding handleValidating_def wp_bind
  by (rule runChecks_settles [OF pos h])
    (auto intro: setFailed_settles [OF c] reject startSyncing_settles [OF c])

lemma handlePending_settles:
  assumes c: "serves c" and h: "holds vols Fresh vr h"
  shows "wp (handlePending c vr) (settled vols Fresh) h"
proof -
  have step: "life_step (length vols) Fresh Checking"
    by (rule begin_checks)
  have send: "wp (StatusUpdateVR c (withStatus (\<lambda>s. s\<lparr>st_startTime := Some now, st_volumeStatuses := [],
        st_phase := PhaseValidating, st_message := m\<rparr>) vr))
      (\<lambda>u. wp (case u of Inl err \<Rightarrow> ret (failWith err) | Inr _ \<Rightarrow> ret requeue) (settled vols Fresh)) g"
    if "holds vols Fresh vr g" for now m g
    by (rule wp_write [OF c that, where b = Checking]) (use step in \<open>auto intro: settled_simps settledI\<close>)
  show ?thesis
    unfolding handlePending_def wp_bind
    by (rule wp_untouched [OF pod_calls_leave(6) h]) (rule send)
qed

lemma dispatch_settles:
  assumes c: "serves c" and pos: "positive_replicas c h" and h: "holds vols a vr h" and begun: "list_all looking h"
  shows "wp (dispatch c vr) (settled vols a) h"
proof (cases a)
  case Fresh
  then show ?thesis
    using holdsD(4) [OF h] handlePending_settles [OF c] h by (auto simp: dispatch_def Let_def)
next
  case Checking
  then show ?thesis
    using holdsD(4) [OF h] handleValidating_settles [OF c pos] h by (auto simp: dispatch_def Let_def phase_defs)
next
  case (Moving n k b)
  then show ?thesis
    using holdsD(4) [OF h] handleSyncing_settles [OF c] h begun by (auto simp: dispatch_def Let_def phase_defs)
next
  case (Done n)
  then show ?thesis
    using holdsD(4) [OF h] settled_simps(1) [OF h] by (auto simp: dispatch_def Let_def phase_defs)
next
  case Stopped
  then show ?thesis
    using holdsD(4) [OF h] settled_simps(1) [OF h] by (auto simp: dispatch_def Let_def phase_defs)
qed

end
