(* ===== verification/Operator.thy ===== *)
theory Operator
  imports Lifecycle
begin

section \<open>Reconciling, again and again\<close>

text \<open>
  One call of \<open>Reconcile\<close>, and then any number of them: with another client each time, as the
  cluster changes in between, cut off anywhere, since the process can die between two calls, and
  with the metadata of the object edited by others. The life cycle of theory Lifecycle is proved of
  every object that such a history can reach.
\<close>

subsection \<open>One call\<close>

lemma holds_first_read:
  assumes "c_getVR c [] ns n = Inr vr" and "plannable (vrVolumes vr)" and "represents (vrVolumes vr) a (vr_status vr)"
  shows "holds (vrVolumes vr) a vr (snoc [] (EvGetVR ns n (Inr vr)))"
  using assms by (simp add: holds_def)

lemma handleDeletion_settles:
  assumes c: "serves c" and h: "holds vols a vr h"
  shows "wp (handleDeletion c vr) (\<lambda>out h'. settled vols a out h') h"
proof -
  have pvcs: "leaves_vr (deletePVCs c ps)" for ps
    by (induction ps) (auto simp: run_defs intro!: only_bind)
  have pods: "leaves_vr (deletePods c ps)" for ps
    by (induction ps) (auto simp: run_defs intro!: only_bind)
  have last: "wp (UpdateVR c (withMeta (\<lambda>m. m\<lparr>om_finalizers := f m\<rparr>) vr))
      (\<lambda>u. wp (case u of Inl err \<Rightarrow> ret (failWith err) | Inr _ \<Rightarrow> ret finished) (settled vols a)) g"
    if "holds vols a vr g" for f g
    by (rule wp_touch [OF c that]) (auto simp: same_object_def intro: settled_simps)
  have leaves: "leaves_vr (do {
      pvcList \<leftarrow> ListPVC c ns LabelMigrationName n;
      _ \<leftarrow> (case pvcList of Inl err \<Rightarrow> ret () | Inr items \<Rightarrow> deletePVCs c items);
      podList \<leftarrow> ListPods c ns LabelMigrationName n;
      (case podList of Inl err \<Rightarrow> ret () | Inr items \<Rightarrow> deletePods c items) })" for ns n
    by (auto simp: run_defs intro!: only_bind only_sum pvcs pods)
  show ?thesis
    using wp_untouched [OF leaves h last] unfolding handleDeletion_def wp_bind .
qed

lemma Reconcile_compliant:
  assumes c: "serves c" "positive_replicas c [EvGetVR ns n (Inr vr)]" and vr: "c_getVR c [] ns n = Inr vr"
    and p: "plannable (vrVolumes vr)" and rep: "represents (vrVolumes vr) a (vr_status vr)"
  shows "compliant (life_policy (vrVolumes vr)) (trace (Reconcile c ns n) [])"
    and "result (Reconcile c ns n) [] = Panicked s \<Longrightarrow> Panicked s = nilMapPanic"
    and "om_deletionTimestamp (vr_meta vr) = None \<Longrightarrow> l_containsFinalizer c (om_finalizers (vr_meta vr)) FinalizerName \<Longrightarrow>
      settled (vrVolumes vr) a (result (Reconcile c ns n) []) (trace (Reconcile c ns n) [])"
proof -
  let ?h = "snoc [] (EvGetVR ns n (Inr vr))" and ?vols = "vrVolumes vr"
  have pos: "positive_replicas c ?h"
    using c(2) by (simp add: snoc_def)
  have h: "holds ?vols a vr ?h"
    using vr p rep by (rule holds_first_read)
  have begun: "list_all looking ?h"
    by (simp add: snoc_def)
  have add: "wp (UpdateVR c (withMeta (\<lambda>m. m\<lparr>om_finalizers := f m\<rparr>) vr))
      (\<lambda>u. wp (case u of Inl err \<Rightarrow> ret (failWith err) | Inr _ \<Rightarrow> ret requeue)
        (\<lambda>out h. compliant (life_policy ?vols) h \<and> (\<forall>s. out = Panicked s \<longrightarrow> out = nilMapPanic))) ?h" for f
    by (rule wp_touch [OF c(1) h]) (auto simp: same_object_def dest: holdsD(3))
  have calm: "wp m (\<lambda>out h. compliant (life_policy ?vols) h \<and> (\<forall>s. out = Panicked s \<longrightarrow> out = nilMapPanic)) ?h"
    if "wp m (settled ?vols a) ?h" for m
    by (rule wp_mono [OF that]) (auto simp: settled_def)
  have "wp (Reconcile c ns n) (\<lambda>out h. compliant (life_policy ?vols) h \<and> (\<forall>s. out = Panicked s \<longrightarrow> out = nilMapPanic)) []"
    using add calm [OF handleDeletion_settles [OF c(1) h]] calm [OF dispatch_settles [OF c(1) pos h begun]]
    by (simp add: Reconcile_def GetVR_def wp_perform vr)
  then show "compliant (life_policy ?vols) (trace (Reconcile c ns n) [])"
    "result (Reconcile c ns n) [] = Panicked s \<Longrightarrow> Panicked s = nilMapPanic"
    by (simp_all add: wp_iff)
  assume "om_deletionTimestamp (vr_meta vr) = None" "l_containsFinalizer c (om_finalizers (vr_meta vr)) FinalizerName"
  then have "wp (Reconcile c ns n) (settled ?vols a) []"
    using dispatch_settles [OF c(1) pos h begun] by (simp add: Reconcile_def GetVR_def wp_perform vr)
  then show "settled ?vols a (result (Reconcile c ns n) []) (trace (Reconcile c ns n) [])"
    by (simp add: wp_iff)
qed

text \<open>A compliant event leaves an object that stands for the same state or the next.\<close>

lemma compliant_step:
  assumes "life_policy vols h e" and "h \<noteq> []" and "latest h = Some w" and "represents vols b (vr_status w)"
  shows "\<exists>x d. latest (h @ [e]) = Some x \<and> represents vols d (vr_status x) \<and> (life_step (length vols))\<^sup>=\<^sup>= b d \<and> same_object x w \<and>
    earned vols w h b d"
proof (cases "answered e")
  case None
  with assms(3,4) show ?thesis
    using latest_append [of h e] by auto
next
  case (Some x)
  then have "same_object x w \<and> (\<exists>d. (life_step (length vols))\<^sup>=\<^sup>= b d \<and> represents vols d (vr_status x) \<and>
      earned vols w h b d)"
    using assms by (cases "(vols, h, e)" rule: life_policy.cases) (auto split: sum.splits)
  with Some show ?thesis
    using latest_append [of h e] by auto
qed

text \<open>A compliant history follows the machine, at each of its points.\<close>

lemma compliant_path:
  assumes "compliant (life_policy vols) (h @ t)" and "h \<noteq> []" and "latest h = Some u" and "represents vols a (vr_status u)"
  shows "\<exists>b w. latest (h @ t) = Some w \<and> represents vols b (vr_status w) \<and> life_path (length vols) a b \<and> same_object w u"
  using assms(1)
proof (induction t rule: rev_induct)
  case Nil
  then show ?case using assms(3,4) by auto
next
  case (snoc e t)
  then have "compliant (life_policy vols) (h @ t)" and e: "life_policy vols (h @ t) e"
    using compliant_snoc [of "life_policy vols" "h @ t" e] by simp_all
  then obtain b w where w: "latest (h @ t) = Some w" "represents vols b (vr_status w)" "life_path (length vols) a b" "same_object w u"
    using snoc.IH by auto
  obtain x d where x: "latest ((h @ t) @ [e]) = Some x" "represents vols d (vr_status x)" "(life_step (length vols))\<^sup>=\<^sup>= b d" "same_object x w"
    using compliant_step [OF e _ w(1,2)] assms(2) by auto
  then have "life_path (length vols) a d" "same_object x u"
    using w(3,4) by (auto intro: rtranclp.rtrancl_into_rtrancl same_object_trans)
  with x(1,2) show ?case by auto
qed

subsection \<open>The calls a handler can make\<close>

text \<open>Handlers never read the object again, create or delete one, or print.\<close>

fun handler_event :: "event \<Rightarrow> bool" where
  "handler_event (EvGetVR _ _ _) = False"
| "handler_event (EvCreateVR _ _) = False"
| "handler_event (EvDeleteVR _ _ _) = False"
| "handler_event (EvListVR _ _) = False"
| "handler_event (EvPrint _) = False"
| "handler_event (EvPrintErr _) = False"
| "handler_event _ = True"

lemma handler_kinds:
  "only claim_event m \<Longrightarrow> only handler_event m" "only sts_event m' \<Longrightarrow> only handler_event m'"
  "only quiet m'' \<Longrightarrow> only handler_event m''"
proof -
  show "only claim_event m \<Longrightarrow> only handler_event m"
    by (erule only_mono) (elim claim_event.elims; simp)
  show "only sts_event m' \<Longrightarrow> only handler_event m'"
    by (erule only_mono) (elim sts_event.elims; simp)
  show "only quiet m'' \<Longrightarrow> only handler_event m''"
    by (erule only_mono) (auto simp: quiet_def elim!: is_read.elims)
qed

lemma setFailed_handler: "only handler_event (setFailed c vr m)"
  by (auto simp: setFailed_def run_defs intro!: only_bind only_sum)

lemma advance_handler: "only handler_event (advance c vr r v)"
  by (auto simp: advance_def run_defs split: option.split intro!: only_bind only_sum)

lemma awaitPod_handler: "only handler_event (awaitPod c vr r v)"
  by (auto simp: awaitPod_def run_defs intro!: only_bind only_sum advance_handler)

lemmas library_handler = handler_kinds(1) [OF createTempPVC_only] handler_kinds(1) [OF setRetainOnPV_only]
  handler_kinds(1) [OF replacePVC_only] handler_kinds(2) [OF backupSTSToConfigMap_only]
  handler_kinds(2) [OF deleteSTSOrphan_only] handler_kinds(2) [OF getSTSFromBackupConfigMap_only]
  handler_kinds(2) [OF recreateSTS_only] handler_kinds(3) [OF waitForPodTermination_only]
  handler_kinds(3) [OF waitForMigrationComplete_only] handler_kinds(3) [OF mustWaitForBinding_reads]
  handler_kinds(3) [OF validateStatefulSetExists_only] handler_kinds(3) [OF validatePDBAllowsDisruption_only]
  handler_kinds(3) [OF validateSizes_quiet]

lemma restoreSTS_handler: "only handler_event (restoreSTS c vr r v)"
  by (auto simp: restoreSTS_def UpdateVR_def
      intro!: only_bind only_sum only_option library_handler setFailed_handler awaitPod_handler split: option.split)

lemma swapVolume_handler: "only handler_event (swapVolume c vr vol r v)"
  by (auto simp: swapVolume_def StatusUpdateVR_def Let_def
      intro!: only_bind only_sum only_option library_handler setFailed_handler restoreSTS_handler)

lemma awaitMigration_handler: "only handler_event (awaitMigration c vr pod)"
  by (auto simp: awaitMigration_def GetPod_def
      intro!: only_bind only_sum only_option library_handler setFailed_handler)

lemma runMigration_handler: "only handler_event (runMigration c vr vol r v a b)"
  by (auto simp: runMigration_def createMigratorPod_def cleanupMigratorPod_def GetPod_def CreatePod_def DeletePod_def Let_def
      intro!: only_bind only_sum only_option setFailed_handler awaitMigration_handler swapVolume_handler)

lemma stopPod_handler: "only handler_event (stopPod c vr vol r v a b)"
  by (auto simp: stopPod_def deletePod_def DeletePod_def Let_def
      intro!: only_bind only_option library_handler runMigration_handler)

lemma orphanSTS_handler: "only handler_event (orphanSTS c vr)"
  by (auto simp: orphanSTS_def markSTSDeleted_def GetSTS_def UpdateVR_def StatusUpdateVR_def
      intro!: only_bind only_sum only_option library_handler setFailed_handler)

lemma retainOldVolume_handler: "only handler_event (retainOldVolume c vr vol r v a b p)"
  by (auto simp: retainOldVolume_def Let_def
      intro!: only_bind only_sum only_option library_handler setFailed_handler orphanSTS_handler stopPod_handler)

lemma handleSyncing_handler: "only handler_event (handleSyncing c vr)"
  by (auto simp: handleSyncing_def prepareClaims_def getPVC_eq GetPVC_def Let_def split: option.split
      intro!: only_bind only_sum library_handler setFailed_handler advance_handler retainOldVolume_handler)

lemma handleValidating_handler: "only handler_event (handleValidating c vr)"
  by (auto simp: handleValidating_def runChecks_def startSyncing_def StatusUpdateVR_def Let_def split: list.split prod.split option.split
      intro!: only_bind only_sum library_handler setFailed_handler)

lemma deletions_handler: "only handler_event (deletePVCs c ps)" "only handler_event (deletePods c qs)"
  by (induction ps, auto simp: run_defs intro!: only_bind) (induction qs, auto simp: run_defs intro!: only_bind)

lemma handleDeletion_handler: "only handler_event (handleDeletion c vr)"
  by (auto simp: handleDeletion_def run_defs intro!: only_bind only_sum deletions_handler)

lemma dispatch_handler: "only handler_event (dispatch c vr)"
  by (auto simp: dispatch_def Let_def handlePending_def handleReplacing_def run_defs
      intro!: only_bind only_sum handleSyncing_handler handleValidating_handler)

text \<open>A call of \<open>Reconcile\<close> reads the object, and then only does what handlers do.\<close>

lemma Reconcile_trace: "\<exists>t. trace (Reconcile c ns n) [] = EvGetVR ns n (c_getVR c [] ns n) # t \<and> list_all handler_event t"
proof -
  have rest: "only handler_event (case r of
      Inl err \<Rightarrow> if IsNotFound err then ret finished else ret (failWith err)
    | Inr vr \<Rightarrow>
        if om_deletionTimestamp (vr_meta vr) \<noteq> None then handleDeletion c vr
        else if \<not> l_containsFinalizer c (om_finalizers (vr_meta vr)) FinalizerName
        then do {
          u \<leftarrow> UpdateVR c (withMeta (\<lambda>m. m\<lparr>om_finalizers := l_addFinalizer c (om_finalizers m) FinalizerName\<rparr>) vr);
          case u of Inl err \<Rightarrow> ret (failWith err) | Inr _ \<Rightarrow> ret requeue
        }
        else dispatch c vr)" for r
    by (auto simp: UpdateVR_def intro!: only_bind only_sum handleDeletion_handler dispatch_handler)
  show ?thesis
    using spec [OF rest [of "c_getVR c [] ns n", unfolded only_def], of "[EvGetVR ns n (c_getVR c [] ns n)]"]
    by (auto simp: Reconcile_def GetVR_def)
qed

subsection \<open>Any number of calls\<close>

text \<open>
  One step of the object's history: a call of \<open>Reconcile\<close> that read it, as far as it came
  (\<open>t\<close> is what was cut off), or an edit of its metadata by someone else.
\<close>

inductive evolves :: "string \<Rightarrow> string \<Rightarrow> VolumeResize \<Rightarrow> VolumeResize \<Rightarrow> bool" for ns n where
  reconciled: "serves c \<Longrightarrow> positive_replicas c [EvGetVR ns n (Inr vr)] \<Longrightarrow> c_getVR c [] ns n = Inr vr \<Longrightarrow>
     trace (Reconcile c ns n) [] = h @ t \<Longrightarrow> latest h = Some vr' \<Longrightarrow> evolves ns n vr vr'"
| edited: "vr_spec vr' = vr_spec vr \<Longrightarrow> vr_status vr' = vr_status vr \<Longrightarrow> evolves ns n vr vr'"

text \<open>At every point of a call the stored object has followed the machine from where it was read.\<close>

lemma Reconcile_point:
  assumes c: "serves c" "positive_replicas c [EvGetVR ns n (Inr vr)]" and vr: "c_getVR c [] ns n = Inr vr"
    and p: "plannable (vrVolumes vr)" and rep: "represents (vrVolumes vr) a (vr_status vr)"
    and cut: "trace (Reconcile c ns n) [] = h @ t" "h \<noteq> []"
  shows "\<exists>b w. latest h = Some w \<and> represents (vrVolumes vr) b (vr_status w) \<and>
    life_path (length (vrVolumes vr)) a b \<and> same_object w vr"
proof -
  let ?first = "EvGetVR ns n (Inr vr)"
  obtain u where "trace (Reconcile c ns n) [] = ?first # u"
    using Reconcile_trace [of c ns n] vr by auto
  then obtain g where g: "h = [?first] @ g"
    using cut by (cases h) auto
  have "compliant (life_policy (vrVolumes vr)) (h @ t)"
    using Reconcile_compliant(1) [OF c vr p rep] cut(1) by simp
  then have "compliant (life_policy (vrVolumes vr)) ([?first] @ g)"
    using compliant_prefix g by metis
  moreover have "latest [?first] = Some vr"
    using latest_append [of "[]" ?first] by simp
  ultimately show ?thesis
    using compliant_path [of "vrVolumes vr" "[?first]" g vr a] rep g by auto
qed

text \<open>An accepted write of the status is a step of the machine, or none, and earned.\<close>

lemma status_write_step:
  assumes c: "serves c" "positive_replicas c [EvGetVR ns n (Inr vr)]" and vr: "c_getVR c [] ns n = Inr vr"
    and p: "plannable (vrVolumes vr)" and rep: "represents (vrVolumes vr) a (vr_status vr)"
    and run: "trace (Reconcile c ns n) [] = pre @ EvStatusVR v (Inr w) # post"
  obtains u b d where "latest pre = Some u" "represents (vrVolumes vr) b (vr_status u)" "same_object u vr"
    "life_path (length (vrVolumes vr)) a b" "(life_step (length (vrVolumes vr)))\<^sup>=\<^sup>= b d"
    "represents (vrVolumes vr) d (vr_status w)" "earned (vrVolumes vr) u pre b d"
proof -
  have "pre \<noteq> []"
    using vr run Reconcile_trace [of c ns n] by auto
  from Reconcile_point [OF c vr p rep run this]
  obtain b u where u: "latest pre = Some u" "represents (vrVolumes vr) b (vr_status u)" "life_path (length (vrVolumes vr)) a b"
    "same_object u vr"
    by auto
  have "compliant (life_policy (vrVolumes vr)) (pre @ EvStatusVR v (Inr w) # post)"
    using Reconcile_compliant(1) [OF c vr p rep] run by simp
  then have "life_policy (vrVolumes vr) pre (EvStatusVR v (Inr w))"
    by (rule compliant_event)
  from compliant_step [OF this \<open>pre \<noteq> []\<close> u(1,2)] obtain d where
    "(life_step (length (vrVolumes vr)))\<^sup>=\<^sup>= b d" "represents (vrVolumes vr) d (vr_status w)" "earned (vrVolumes vr) u pre b d"
    by auto
  with u that show ?thesis by blast
qed

lemma evolves_path:
  assumes "evolves ns n vr vr'" and "plannable (vrVolumes vr)" and "represents (vrVolumes vr) a (vr_status vr)"
  shows "vr_spec vr' = vr_spec vr \<and>
    (\<exists>b. life_path (length (vrVolumes vr)) a b \<and> represents (vrVolumes vr) b (vr_status vr'))"
  using assms
proof (induction rule: evolves.induct)
  case (reconciled c vr h t vr')
  then have "h \<noteq> []" by auto
  from Reconcile_point [OF reconciled(1-3,6,7,4) this] show ?case
    using reconciled(5) by (auto simp: same_object_def)
qed auto

abbreviation reaches :: "string \<Rightarrow> string \<Rightarrow> VolumeResize \<Rightarrow> VolumeResize \<Rightarrow> bool" where
  "reaches ns n \<equiv> (evolves ns n)\<^sup>*\<^sup>*"

lemma reaches_path:
  assumes "reaches ns n vr vr'" and "plannable (vrVolumes vr)" and "represents (vrVolumes vr) a (vr_status vr)"
  shows "vr_spec vr' = vr_spec vr \<and>
    (\<exists>b. life_path (length (vrVolumes vr)) a b \<and> represents (vrVolumes vr) b (vr_status vr'))"
  using assms(1)
proof (induction rule: rtranclp_induct)
  case base
  then show ?case using assms(3) by auto
next
  case (step v w)
  then obtain b where b: "vr_spec v = vr_spec vr" "life_path (length (vrVolumes vr)) a b"
    "represents (vrVolumes vr) b (vr_status v)" by auto
  then show ?case
    using evolves_path [OF step.hyps(2), of b] assms(2) by (auto intro: rtranclp_trans)
qed

text \<open>A new object: nothing in its status says otherwise.\<close>

definition new_resize :: "VolumeResize \<Rightarrow> bool" where
  "new_resize vr \<longleftrightarrow> plannable (vrVolumes vr) \<and> (vrPhase vr = '''' \<or> vrPhase vr = PhasePending)"

lemma reachable_life:
  assumes "reaches ns n vr vr'" and "new_resize vr"
  obtains b where "life_path (length (vrVolumes vr)) Fresh b" "represents (vrVolumes vr) b (vr_status vr')"
    "vr_spec vr' = vr_spec vr" "plannable (vrVolumes vr)"
  using reaches_path [OF assms(1), of Fresh] assms(2) by (auto simp: new_resize_def)

subsection \<open>Changes to the cluster are justified\<close>

text \<open>Outside the phase Syncing a handler only reads and writes the status.\<close>

definition status_only :: "event \<Rightarrow> bool" where
  "status_only e \<longleftrightarrow> quiet e \<or> (\<exists>v res. e = EvStatusVR v res)"

lemma status_only_simps [simp]: "status_only (EvStatusVR v res)" "status_only (EvNow t)"
  by (simp_all add: status_only_def)

lemma quiet_status_only: "only quiet m \<Longrightarrow> only status_only m"
  by (erule only_mono) (simp add: status_only_def)

lemma setFailed_status_only: "only status_only (setFailed c vr m)"
  by (auto simp: setFailed_def run_defs intro!: only_bind only_sum)

lemma handleValidating_status_only: "only status_only (handleValidating c vr)"
  by (auto simp: handleValidating_def runChecks_def startSyncing_def StatusUpdateVR_def Let_def
      split: list.split prod.split option.split
      intro!: only_bind only_sum setFailed_status_only quiet_status_only [OF validateStatefulSetExists_only]
        quiet_status_only [OF validateSizes_quiet] quiet_status_only [OF validatePDBAllowsDisruption_only])

lemma dispatch_status_only: "vrPhase vr \<noteq> PhaseSyncing \<Longrightarrow> only status_only (dispatch c vr)"
  by (auto simp: dispatch_def Let_def handlePending_def handleReplacing_def run_defs
      intro!: only_bind only_sum handleValidating_status_only)

text \<open>Any call of a run that neither reads nor touches the VolumeResize follows the protocol of the swap.\<close>

lemma Reconcile_justified:
  assumes c: "keeps_object c" and vr: "c_getVR c [] ns n = Inr vr" and alive: "om_deletionTimestamp (vr_meta vr) = None"
    and v: "st_currentVolume (vr_status vr) \<in> vt_name ` set (vrVolumes vr)"
    and e: "trace (Reconcile c ns n) [] = pre @ e # post" "\<not> quiet e" "\<not> touches_vr e"
  shows "vrPhase vr = PhaseSyncing \<and> (\<exists>r. st_currentReplica (vr_status vr) = Some r \<and>
    swap_policy c vr r (st_currentVolume (vr_status vr)) pre e)"
proof -
  let ?h = "[EvGetVR ns n (Inr vr)]" and ?v = "st_currentVolume (vr_status vr)"
  have in_run: "e \<in> set (trace (Reconcile c ns n) [])"
    using e(1) by simp
  have finalizer: "l_containsFinalizer c (om_finalizers (vr_meta vr)) FinalizerName"
  proof (rule ccontr)
    assume "\<not> l_containsFinalizer c (om_finalizers (vr_meta vr)) FinalizerName"
    then have "\<exists>w res res'. trace (Reconcile c ns n) [] = [EvGetVR ns n res, EvUpdateVR w res']"
      using vr alive by (auto simp: Reconcile_def GetVR_def UpdateVR_def split: sum.split)
    then show False using in_run e(3) by auto
  qed
  then have run: "trace (Reconcile c ns n) [] = trace (dispatch c vr) ?h"
    using vr alive by (simp add: Reconcile_def GetVR_def)
  have phase: "vrPhase vr = PhaseSyncing"
  proof (rule ccontr)
    assume "vrPhase vr \<noteq> PhaseSyncing"
    then have "only status_only (dispatch c vr)"
      by (rule dispatch_status_only)
    then obtain t where "trace (dispatch c vr) ?h = ?h @ t" "list_all status_only t"
      unfolding only_def by blast
    then show False
      using in_run run e(2,3) by (auto simp: list_all_iff status_only_def)
  qed
  then have sync: "dispatch c vr = handleSyncing c vr"
    by (simp add: dispatch_def Let_def phase_defs)
  obtain r where r: "st_currentReplica (vr_status vr) = Some r"
    using in_run run e(3) by (cases "st_currentReplica (vr_status vr)") (auto simp: sync handleSyncing_def)
  have "compliant (swap_policy c vr r ?v) ?h"
    using compliant_snoc [of "swap_policy c vr r ?v" "[]"] by simp
  then have "compliant (swap_policy c vr r ?v) (pre @ e # post)"
    using handleSyncing_compliant [OF c findTarget_name [OF v] r] run sync e(1) by simp
  then show ?thesis
    using phase r compliant_event by blast
qed

end
