(* ===== verification/Simulation.thy ===== *)
theory Simulation
  imports Operator
begin

section \<open>A small cluster\<close>

text \<open>
  The theorems of this development hold for every client. To see that their hypotheses can be met
  and that a migration can in fact be carried through, this theory gives one client in full: a
  cluster with one StatefulSet that serves every call from its objects, provisions a volume for
  every new claim, starts the pods of the StatefulSet, and lets every migrator pod succeed.
\<close>

record cluster =
  cl_sts :: "StatefulSet option"
  cl_pvc :: "string \<Rightarrow> PersistentVolumeClaim option"
  cl_pv :: "string \<Rightarrow> PersistentVolume option"
  cl_pod :: "string \<Rightarrow> Pod option"
  cl_cm :: "string \<Rightarrow> ConfigMap option"

definition runningPod :: "string \<Rightarrow> Pod" where
  "runningPod name = \<lparr>pod_meta = zeroMeta\<lparr>om_name := name\<rparr>, pod_restartPolicy = ''Always'',
     pod_runAsUser = None, pod_runAsGroup = None, pod_containers = [], pod_volumes = [], pod_phase = PodRunning\<rparr>"

definition startPods :: "StatefulSet \<Rightarrow> (string \<Rightarrow> Pod option) \<Rightarrow> string \<Rightarrow> Pod option" where
  "startPods sts pods = fold (\<lambda>r m. let name = getPodName (om_name (sts_meta sts)) r in m(name \<mapsto> runningPod name))
     (map word_of_nat [0..<nat (sint (replicasOf sts))]) pods"

text \<open>A new claim is bound at once; if it names no volume one is provisioned for it.\<close>

definition bindClaim :: "PersistentVolumeClaim \<Rightarrow> PersistentVolumeClaim" where
  "bindClaim p = p\<lparr>pvc_phase := ClaimBound,
     pvc_volumeName := if pvc_volumeName p = '''' then ''pv-'' @ om_name (pvc_meta p) else pvc_volumeName p\<rparr>"

fun happens :: "event \<Rightarrow> cluster \<Rightarrow> cluster" where
  "happens (EvCreateSTS s None) k = k\<lparr>cl_sts := Some s, cl_pod := startPods s (cl_pod k)\<rparr>"
| "happens (EvDeleteSTS ns n policy None) k = k\<lparr>cl_sts := None\<rparr>"
| "happens (EvCreatePVC p (Inr q)) k = k\<lparr>cl_pvc := (cl_pvc k)(om_name (pvc_meta q) \<mapsto> q)\<rparr>"
| "happens (EvDeletePVC ns n None) k = k\<lparr>cl_pvc := (cl_pvc k)(n := None)\<rparr>"
| "happens (EvUpdatePV p (Inr q)) k = k\<lparr>cl_pv := (cl_pv k)(om_name (pv_meta q) \<mapsto> q)\<rparr>"
| "happens (EvCreatePod p (Inr q)) k = k\<lparr>cl_pod := (cl_pod k)(om_name (pod_meta q) \<mapsto> q\<lparr>pod_phase := PodSucceeded\<rparr>)\<rparr>"
| "happens (EvDeletePod ns n None) k = k\<lparr>cl_pod := (cl_pod k)(n := None)\<rparr>"
| "happens (EvCreateCM m None) k = k\<lparr>cl_cm := (cl_cm k)(om_name (cm_meta m) \<mapsto> m)\<rparr>"
| "happens _ k = k"

definition present :: "cluster \<Rightarrow> history \<Rightarrow> cluster" where
  "present k h = fold happens h k"

definition notFound :: go_error where
  "notFound = GoError ReasonNotFound ''not found''"

definition fetch :: "'a option \<Rightarrow> go_error + 'a" where
  "fetch x = (case x of None \<Rightarrow> Inl notFound | Some y \<Rightarrow> Inr y)"

definition gone :: "'a option \<Rightarrow> go_error option" where
  "gone x = (case x of None \<Rightarrow> Some notFound | Some y \<Rightarrow> None)"

definition storedVR :: "VolumeResize \<Rightarrow> history \<Rightarrow> VolumeResize" where
  "storedVR vr h = (case latest h of None \<Rightarrow> vr | Some u \<Rightarrow> u)"

text \<open>The client; the backup text stands for the StatefulSet the cluster begins with.\<close>

definition cluster_client :: "VolumeResize \<Rightarrow> StatefulSet \<Rightarrow> cluster \<Rightarrow> client" where
  "cluster_client vr sts k = \<lparr>
     c_drift = (\<lambda>h. 0), c_cancelled = (\<lambda>h. False), c_ctxErr = errorf ''cancelled'',
     c_getVR = (\<lambda>h ns n. Inr (storedVR vr h)),
     c_updateVR = (\<lambda>h v. Inr (v\<lparr>vr_status := vr_status (case latest h of None \<Rightarrow> v | Some u \<Rightarrow> u)\<rparr>)),
     c_statusVR = (\<lambda>h v. Inr v),
     c_getSTS = (\<lambda>h ns n. fetch (cl_sts (present k h))),
     c_createSTS = (\<lambda>h s. None),
     c_deleteSTS = (\<lambda>h ns n policy. gone (cl_sts (present k h))),
     c_getPVC = (\<lambda>h ns n. fetch (cl_pvc (present k h) n)),
     c_createPVC = (\<lambda>h p. Inr (bindClaim p)),
     c_deletePVC = (\<lambda>h ns n. gone (cl_pvc (present k h) n)),
     c_listPVC = (\<lambda>h ns key val. Inr []),
     c_getPV = (\<lambda>h n. fetch (cl_pv (present k h) n)),
     c_updatePV = (\<lambda>h p. Inr p),
     c_getPod = (\<lambda>h ns n. fetch (cl_pod (present k h) n)),
     c_createPod = (\<lambda>h p. Inr p),
     c_deletePod = (\<lambda>h ns n. gone (cl_pod (present k h) n)),
     c_listPods = (\<lambda>h ns key val. Inr []),
     c_getCM = (\<lambda>h ns n. fetch (cl_cm (present k h) n)),
     c_createCM = (\<lambda>h m. None),
     c_getSC = (\<lambda>h n. Inl notFound),
     c_listPDB = (\<lambda>h ns. Inr []),
     c_inClusterConfig = Inr ''config'',
     c_buildConfig = (\<lambda>path. Inr path),
     c_newClient = (\<lambda>config. None),
     c_createVR = (\<lambda>h v. Inr v),
     c_deleteVR = (\<lambda>h ns n. None),
     c_listVR = (\<lambda>h ns. Inr [storedVR vr h]),
     l_quantityCmp = (\<lambda>a b. int (length a) - int (length b)),
     l_quantityString = (\<lambda>q. q),
     l_parseQuantity = (\<lambda>s. Inr s),
     l_storageRequest = (\<lambda>m. goLookup m ResourceStorage),
     l_selectorFromSet = (\<lambda>l. Inr (\<lambda>p. False)),
     l_containsFinalizer = (\<lambda>fs f. f \<in> set fs),
     l_addFinalizer = (\<lambda>fs f. if f \<in> set fs then fs else fs @ [f]),
     l_removeFinalizer = (\<lambda>fs f. filter (\<lambda>g. g \<noteq> f) fs),
     l_marshalSTS = (\<lambda>s. Inr ''json''),
     l_unmarshalSTS = (\<lambda>j. Inr sts),
     l_formatTime = (\<lambda>layout t. showInt t)\<rparr>"

lemma cluster_client_serves: "serves (cluster_client vr sts k)"
  by (auto simp: serves_def keeps_object_def cluster_client_def same_object_def)

subsection \<open>One volume of one replica\<close>

definition demoVCT :: PersistentVolumeClaim where
  "demoVCT = \<lparr>pvc_meta = zeroMeta\<lparr>om_name := ''data''\<rparr>, pvc_accessModes = [''ReadWriteOnce''],
     pvc_storageClassName = None, pvc_volumeName = '''', pvc_requests = Some [ResourceStorage \<mapsto> ''10Gi''],
     pvc_phase = '''', pvc_rest = ''''\<rparr>"

definition demoSTS :: StatefulSet where
  "demoSTS = \<lparr>sts_meta = zeroMeta\<lparr>om_name := ''web'', om_namespace := ''d'', om_uid := ''7''\<rparr>,
     sts_replicas = Some 1, sts_templateLabels = None, sts_volumeClaimTemplates = [demoVCT],
     sts_specRest = ''spec'', sts_statusRest = ''status''\<rparr>"

definition demoPV :: "string \<Rightarrow> PersistentVolume" where
  "demoPV n = \<lparr>pv_meta = zeroMeta\<lparr>om_name := n\<rparr>, pv_reclaimPolicy = ''Delete'', pv_claimRef = Some n, pv_rest = ''''\<rparr>"

definition demoClaim :: "string \<Rightarrow> PersistentVolumeClaim option" where
  "demoClaim n = (if n = ''data-web-0'' then Some (demoVCT\<lparr>
     pvc_meta := zeroMeta\<lparr>om_name := n, om_namespace := ''d''\<rparr>, pvc_volumeName := ''old'', pvc_phase := ClaimBound\<rparr>) else None)"

definition demoCluster :: cluster where
  "demoCluster = \<lparr>cl_sts = Some demoSTS, cl_pvc = demoClaim, cl_pv = (\<lambda>n. Some (demoPV n)),
     cl_pod = startPods demoSTS Map.empty, cl_cm = Map.empty\<rparr>"

definition demoVR :: "VolumeResizeStatus \<Rightarrow> VolumeResize" where
  "demoVR s = \<lparr>vr_meta = zeroMeta\<lparr>om_name := ''r'', om_namespace := ''d'', om_finalizers := [FinalizerName]\<rparr>,
     vr_spec = \<lparr>spec_statefulSetName = ''web'', spec_volumes = [\<lparr>vt_name = ''data'', vt_newSize = ''1Gi'', vt_storageClass = None\<rparr>]\<rparr>,
     vr_status = s\<rparr>"

definition demoSyncing :: VolumeResizeStatus where
  "demoSyncing = zeroStatus\<lparr>st_phase := PhaseSyncing, st_currentReplica := Some 0, st_currentVolume := ''data'',
     st_volumeStatuses := [initialStatus \<lparr>vt_name = ''data'', vt_newSize = ''1Gi'', vt_storageClass = None\<rparr> 0]\<rparr>"

definition demoClient :: client where
  "demoClient = cluster_client (demoVR demoSyncing) demoSTS demoCluster"

text \<open>What a call was and which object it named.\<close>

datatype call = Call string string

fun callOf :: "event \<Rightarrow> call" where
  "callOf (EvNow t) = Call ''Now'' ''''"
| "callOf (EvSleep d) = Call ''Sleep'' ''''"
| "callOf (EvWaitOrCancel d b) = Call ''Wait'' ''''"
| "callOf (EvGetVR ns n r) = Call ''GetVR'' n"
| "callOf (EvUpdateVR v r) = Call ''UpdateVR'' (vrName v)"
| "callOf (EvStatusVR v r) = Call ''StatusVR'' (vrPhase v)"
| "callOf (EvGetSTS ns n r) = Call ''GetSTS'' n"
| "callOf (EvCreateSTS s r) = Call ''CreateSTS'' (om_name (sts_meta s))"
| "callOf (EvDeleteSTS ns n policy r) = Call ''DeleteSTS'' n"
| "callOf (EvGetPVC ns n r) = Call ''GetPVC'' n"
| "callOf (EvCreatePVC p r) = Call ''CreatePVC'' (om_name (pvc_meta p))"
| "callOf (EvDeletePVC ns n r) = Call ''DeletePVC'' n"
| "callOf (EvListPVC ns lbl val r) = Call ''ListPVC'' val"
| "callOf (EvGetPV n r) = Call ''GetPV'' n"
| "callOf (EvUpdatePV p r) = Call ''UpdatePV'' (om_name (pv_meta p))"
| "callOf (EvGetPod ns n r) = Call ''GetPod'' n"
| "callOf (EvCreatePod p r) = Call ''CreatePod'' (om_name (pod_meta p))"
| "callOf (EvDeletePod ns n r) = Call ''DeletePod'' n"
| "callOf (EvListPods ns lbl val r) = Call ''ListPods'' val"
| "callOf (EvGetCM ns n r) = Call ''GetCM'' n"
| "callOf (EvCreateCM m r) = Call ''CreateCM'' (om_name (cm_meta m))"
| "callOf (EvGetSC n r) = Call ''GetSC'' n"
| "callOf (EvListPDB ns r) = Call ''ListPDB'' ns"
| "callOf _ = Call '''' ''''"

lemma callOf_writes:
  "callOf e = Call ''DeletePVC'' n \<Longrightarrow> \<exists>ns res. e = EvDeletePVC ns n res"
  "callOf e = Call ''CreatePVC'' n \<Longrightarrow> \<exists>p res. e = EvCreatePVC p res \<and> om_name (pvc_meta p) = n"
  "callOf e = Call ''DeleteSTS'' n \<Longrightarrow> \<exists>ns policy res. e = EvDeleteSTS ns n policy res"
  "callOf e = Call ''CreateSTS'' n \<Longrightarrow> \<exists>s res. e = EvCreateSTS s res \<and> om_name (sts_meta s) = n"
  "callOf e = Call ''CreatePod'' n \<Longrightarrow> \<exists>p res. e = EvCreatePod p res \<and> om_name (pod_meta p) = n"
  "callOf e = Call ''UpdatePV'' n \<Longrightarrow> \<exists>p res. e = EvUpdatePV p res \<and> om_name (pv_meta p) = n"
  "callOf e = Call ''DeletePod'' n \<Longrightarrow> \<exists>ns res. e = EvDeletePod ns n res"
  "callOf e = Call ''CreateCM'' n \<Longrightarrow> \<exists>m res. e = EvCreateCM m res \<and> om_name (cm_meta m) = n"
  by (cases e; simp)+

definition demoRun :: history where
  "demoRun = trace (Reconcile demoClient ''d'' ''r'') []"

text \<open>The run of the one call that migrates the volume, call by call.\<close>

lemma demo_calls: "map callOf demoRun =
  [Call ''GetVR'' ''r'', Call ''GetPVC'' ''data-web-0'', Call ''GetPVC'' ''data-web-0-new'',
   Call ''CreatePVC'' ''data-web-0-new'', Call ''GetPV'' ''old'', Call ''UpdatePV'' ''old'',
   Call ''GetSTS'' ''web'', Call ''GetCM'' ''r-sts-backup'', Call ''CreateCM'' ''r-sts-backup'',
   Call ''DeleteSTS'' ''web'', Call ''UpdateVR'' ''r'', Call ''StatusVR'' ''Syncing'',
   Call ''DeletePod'' ''web-0'', Call ''Now'' '''', Call ''Now'' '''', Call ''GetPod'' ''web-0'',
   Call ''GetPod'' ''r-migrator-0-data'', Call ''CreatePod'' ''r-migrator-0-data'', Call ''Now'' '''', Call ''Now'' '''',
   Call ''GetPod'' ''r-migrator-0-data'', Call ''DeletePod'' ''r-migrator-0-data'',
   Call ''GetPVC'' ''data-web-0-new'', Call ''GetPVC'' ''data-web-0'',
   Call ''GetPV'' ''pv-data-web-0-new'', Call ''UpdatePV'' ''pv-data-web-0-new'', Call ''DeletePVC'' ''data-web-0-new'',
   Call ''GetPVC'' ''data-web-0-new'', Call ''GetPV'' ''pv-data-web-0-new'', Call ''UpdatePV'' ''pv-data-web-0-new'',
   Call ''DeletePVC'' ''data-web-0'', Call ''GetPVC'' ''data-web-0'', Call ''CreatePVC'' ''data-web-0'',
   Call ''StatusVR'' ''Syncing'', Call ''GetCM'' ''r-sts-backup'', Call ''CreateSTS'' ''web'', Call ''UpdateVR'' ''r'',
   Call ''GetPod'' ''web-0'', Call ''Now'' '''', Call ''StatusVR'' ''Completed'']"
  by code_simp

lemma demo_at:
  assumes "i < 40"
  shows "callOf (demoRun ! i) = map callOf demoRun ! i" and "demoRun = take i demoRun @ demoRun ! i # drop (Suc i) demoRun"
proof -
  have "length (map callOf demoRun) = 40"
    unfolding demo_calls by simp
  then have "i < length demoRun"
    using assms by simp
  then show "callOf (demoRun ! i) = map callOf demoRun ! i" "demoRun = take i demoRun @ demoRun ! i # drop (Suc i) demoRun"
    by (simp_all add: id_take_nth_drop)
qed

text \<open>The call at a position, as the shape that the theorems about runs ask for.\<close>

lemma demo_run_at: "i < 40 \<Longrightarrow> map callOf demoRun ! i = x \<Longrightarrow>
   callOf (demoRun ! i) = x \<and> trace (Reconcile demoClient ''d'' ''r'') [] = take i demoRun @ demoRun ! i # drop (Suc i) demoRun"
  using demo_at by (simp add: demoRun_def)

lemma demo_client:
  "serves demoClient" "keeps_object demoClient"
  "c_getVR demoClient [] ns n = Inr (demoVR demoSyncing)"
  "om_deletionTimestamp (vr_meta (demoVR demoSyncing)) = None"
  "st_currentVolume (vr_status (demoVR demoSyncing)) = ''data''"
  "st_currentReplica (vr_status (demoVR demoSyncing)) = Some 0"
  "map vt_name (vrVolumes (demoVR demoSyncing)) = [''data'']"
proof -
  show s: "serves demoClient"
    by (simp add: demoClient_def cluster_client_serves)
  then show "keeps_object demoClient"
    by (rule servesD(1))
qed (simp_all add: demoClient_def cluster_client_def storedVR_def demoVR_def demoSyncing_def zeroMeta_def zeroStatus_def)

text \<open>The demonstration run at one of its calls, with the hypotheses on client and object.\<close>

lemma demo_hypotheses:
  "st_currentVolume (vr_status (demoVR demoSyncing)) \<in> vt_name ` set (vrVolumes (demoVR demoSyncing))"
  using demo_client(5,7) by (metis image_set list.set_intros(1))

lemmas demo_live = demo_client(2-4) demo_hypotheses

lemma demo_represents: "represents (vrVolumes (demoVR demoSyncing)) (Moving 1 0 False) (vr_status (demoVR demoSyncing))"
  by (simp add: demoVR_def demoSyncing_def zeroStatus_def schedule_def keyAt_def key_def initialStatus_def entryDone_def)

lemma demo_positive: "positive_replicas demoClient [EvGetVR ns n (Inr vr)]"
  by (auto simp: positive_replicas_def demoClient_def cluster_client_def present_def fetch_def demoCluster_def
      demoSTS_def replicasOf_def split: option.splits)

lemma demo_plannable: "plannable (vrVolumes (demoVR s))"
  by (simp add: plannable_def demoVR_def)

subsection \<open>A whole life\<close>

lemma latest_answered: "answered e = Some v \<Longrightarrow> latest (e # t) \<noteq> None"
  by (induction t rule: rev_induct)
    (auto simp: latest_append [of "[]", simplified] append_Cons [symmetric] simp del: append_Cons split: option.split)

text \<open>A call on the small cluster meets the hypotheses.\<close>

lemma cluster_call:
  fixes k sts vr
  assumes "\<And>s. cl_sts k = Some s \<Longrightarrow> 0 < sint (replicasOf s)"
  defines "c \<equiv> cluster_client vr sts k"
  shows "serves c" and "positive_replicas c [EvGetVR ns n (Inr vr)]" and "c_getVR c [] ns n = Inr vr"
    and "latest (trace (Reconcile c ns n) []) = Some (storedVR vr (trace (Reconcile c ns n) []))"
proof -
  show "serves c"
    unfolding c_def by (rule cluster_client_serves)
  show read: "c_getVR c [] ns n = Inr vr"
    by (simp add: c_def cluster_client_def storedVR_def)
  show "positive_replicas c [EvGetVR ns n (Inr vr)]"
    using assms(1) by (auto simp: c_def positive_replicas_def cluster_client_def present_def fetch_def split: option.splits)
  have "latest (trace (Reconcile c ns n) []) \<noteq> None"
    using Reconcile_trace [of c ns n] read latest_answered [of "EvGetVR ns n (Inr vr)"] by fastforce
  then show "latest (trace (Reconcile c ns n) []) = Some (storedVR vr (trace (Reconcile c ns n) []))"
    by (auto simp: storedVR_def)
qed

lemma cluster_evolves:
  assumes "\<And>s. cl_sts k = Some s \<Longrightarrow> 0 < sint (replicasOf s)"
  shows "evolves ns n vr (storedVR vr (trace (Reconcile (cluster_client vr sts k) ns n) []))"
  using reconciled [OF cluster_call(1-3) [OF assms] _ cluster_call(4) [OF assms], where t = "[]"] by simp

text \<open>The object and the cluster after some calls, from the moment the object was created.\<close>

fun demoLife :: "nat \<Rightarrow> VolumeResize \<times> cluster" where
  "demoLife 0 = (demoVR zeroStatus, demoCluster)"
| "demoLife (Suc i) = (case demoLife i of (vr, k) \<Rightarrow>
     let h = trace (Reconcile (cluster_client vr demoSTS k) ''d'' ''r'') [] in (storedVR vr h, present k h))"

lemma demo_life_ready:
  "map_option (sint \<circ> replicasOf) (cl_sts (snd (demoLife 0))) = Some 1"
  "map_option (sint \<circ> replicasOf) (cl_sts (snd (demoLife 1))) = Some 1"
  "map_option (sint \<circ> replicasOf) (cl_sts (snd (demoLife 2))) = Some 1"
  by code_simp+

text \<open>
  What is to be seen of an object and a cluster: the phase; volume and size of the claim; the policies
  of the old and the new volume; whether the temporary claim and the migrator pod are there; the
  sizes in the templates of the StatefulSet; the phase of its pod.
\<close>

fun report :: "VolumeResize \<times> cluster \<Rightarrow> string \<times> (string \<times> quantity option) option \<times> string option \<times> string option \<times>
    bool \<times> bool \<times> quantity option list option \<times> string option" where
  "report (vr, k) =
     (vrPhase vr,
      map_option (\<lambda>p. (pvc_volumeName p, goLookup (pvc_requests p) ResourceStorage)) (cl_pvc k ''data-web-0''),
      map_option pv_reclaimPolicy (cl_pv k ''old''), map_option pv_reclaimPolicy (cl_pv k ''pv-data-web-0-new''),
      \<not> Option.is_none (cl_pvc k ''data-web-0-new''), \<not> Option.is_none (cl_pod k ''r-migrator-0-data''),
      map_option (\<lambda>s. map (\<lambda>t. goLookup (pvc_requests t) ResourceStorage) (sts_volumeClaimTemplates s)) (cl_sts k),
      map_option pod_phase (cl_pod k ''web-0''))"

text \<open>The end of the life, with the volumes of the entries.\<close>

fun summary :: "VolumeResize \<times> cluster \<Rightarrow> (string \<times> (string \<times> quantity option) option \<times> string option \<times> string option \<times>
    bool \<times> bool \<times> quantity option list option \<times> string option) \<times> string list" where
  "summary (vr, k) = (report (vr, k), map vs_volumeName (st_volumeStatuses (vr_status vr)))"

lemma demo_end: "summary (demoLife 3) =
  ((PhaseCompleted, Some (''pv-data-web-0-new'', Some ''1Gi''), Some ReclaimRetain, Some ReclaimRetain,
    False, False, Some [Some ''1Gi''], Some PodRunning), [''data''])"
  by code_simp

lemma demo_phases:
  "vrPhase (fst (demoLife 1)) = PhaseValidating"
  "vrPhase (fst (demoLife 2)) = PhaseSyncing"
  "vrPhase (fst (demoLife 3)) = PhaseCompleted"
proof -
  show "vrPhase (fst (demoLife 1)) = PhaseValidating" "vrPhase (fst (demoLife 2)) = PhaseSyncing"
    by code_simp+
  show "vrPhase (fst (demoLife 3)) = PhaseCompleted"
    using demo_end by (cases "demoLife 3") simp
qed

lemma demo_entry: "map vs_volumeName (st_volumeStatuses (vr_status (fst (demoLife 3)))) = [''data'']"
  using demo_end by (cases "demoLife 3") simp

lemma demo_evolves:
  assumes "map_option (sint \<circ> replicasOf) (cl_sts (snd (demoLife i))) = Some 1"
  shows "evolves ''d'' ''r'' (fst (demoLife i)) (fst (demoLife (Suc i)))"
proof -
  have "0 < sint (replicasOf s)" if "cl_sts (snd (demoLife i)) = Some s" for s
    using assms that by simp
  from cluster_evolves [OF this] show ?thesis
    by (cases "demoLife i") (simp add: Let_def)
qed

lemma demo_reaches:
  "reaches ''d'' ''r'' (demoVR zeroStatus) (fst (demoLife 1))"
  "reaches ''d'' ''r'' (demoVR zeroStatus) (fst (demoLife 2))"
  "reaches ''d'' ''r'' (demoVR zeroStatus) (fst (demoLife 3))"
proof -
  have "evolves ''d'' ''r'' (demoVR zeroStatus) (fst (demoLife 1))"
    using demo_evolves [of 0] demo_life_ready(1) by (simp del: demoLife.simps(2))
  then show one: "reaches ''d'' ''r'' (demoVR zeroStatus) (fst (demoLife 1))"
    by (rule r_into_rtranclp)
  have "evolves ''d'' ''r'' (fst (demoLife 1)) (fst (demoLife 2))"
    using demo_evolves [OF demo_life_ready(2)] by (simp only: Suc_1)
  with one show two: "reaches ''d'' ''r'' (demoVR zeroStatus) (fst (demoLife 2))"
    by (rule rtranclp.rtrancl_into_rtrancl)
  have "evolves ''d'' ''r'' (fst (demoLife 2)) (fst (demoLife 3))"
    using demo_evolves [OF demo_life_ready(3)] by (simp only: eval_nat_numeral)
  with two show "reaches ''d'' ''r'' (demoVR zeroStatus) (fst (demoLife 3))"
    by (rule rtranclp.rtrancl_into_rtrancl)
qed

lemma demo_new: "new_resize (demoVR zeroStatus)"
  by (simp add: new_resize_def plannable_def demoVR_def zeroStatus_def)

lemma demo_spec: "length (vrVolumes (demoVR s)) = 1"
  by (simp add: demoVR_def)

end
