(* ===== verification/Operations.thy ===== *)
theory Operations
  imports Simulation
begin

section \<open>What single operations achieve\<close>

text \<open>
  Properties of operations with effects, for any client: the swap of the claims, creation of what
  may be there already, backup and restore of the StatefulSet, cleanup on deletion, validation, the
  wait for the migrator. Those with hypotheses are applied to the small cluster of theory
  Simulation.
\<close>

subsection \<open>The claims are swapped\<close>

text \<open>
  C17: When \<open>replacePVC\<close> reports success, its last call was the accepted creation of a claim with
  the original name, labels and the new size on the volume of the temporary claim; that claim was
  bound, its volume was retained and then released, and the original claim was deleted, before.
\<close>

theorem replacePVC_success:
  assumes "result (replacePVC c vr vol r) h = None"
  shows "swapped vr vol r (trace (replacePVC c vr vol r) h)"
  using replacePVC_swaps [of c vr vol r h] assms by (simp add: wp_iff)

definition demoTarget :: VolumeResizeTarget where
  "demoTarget = \<lparr>vt_name = ''data'', vt_newSize = ''1Gi'', vt_storageClass = None\<rparr>"

theorem replacePVC_success_witness:
  "swapped (demoVR demoSyncing) demoTarget 0 (trace (replacePVC demoClient (demoVR demoSyncing) demoTarget 0) (take 22 demoRun))"
proof (rule replacePVC_success)
  show "result (replacePVC demoClient (demoVR demoSyncing) demoTarget 0) (take 22 demoRun) = None"
    by code_simp
qed

subsection \<open>What exists is used again\<close>

text \<open>
  A temporary claim or a migrator pod that is there already is taken as it is: the operation
  that would create it reads it, returns it, and writes nothing.
\<close>

theorem existing_objects_reused:
  assumes "c_getPVC c h (vrNamespace vr) (getTempPVCName (vt_name vol) (vrSTS vr) r) = Inr p"
    and "c_getPod c h (vrNamespace vr) (getMigratorPodName (vrName vr) (vt_name vol) r) = Inr pod"
  shows "run_state (createTempPVC c vr vol q r) h =
      (Inr p, h @ [EvGetPVC (vrNamespace vr) (getTempPVCName (vt_name vol) (vrSTS vr) r) (Inr p)]) \<and>
    run_state (createMigratorPod c vr vol r old new) h =
      (Inr pod, h @ [EvGetPod (vrNamespace vr) (getMigratorPodName (vrName vr) (vt_name vol) r) (Inr pod)])"
  using temp_claim.op_existing [of c vr vol r h p q] migrator_pod.op_existing [of c vr vol r h pod old new] assms
  by (simp add: GetPVC_def GetPod_def result_def trace_def perform_def prod_eq_iff)

theorem existing_objects_reused_witness:
  "\<exists>p pod. run_state (createTempPVC demoClient (demoVR demoSyncing) demoTarget demoVCT 0) (take 18 demoRun) =
      (Inr p, take 18 demoRun @ [EvGetPVC ''d'' ''data-web-0-new'' (Inr p)]) \<and>
    run_state (createMigratorPod demoClient (demoVR demoSyncing) demoTarget 0 ''a'' ''b'') (take 18 demoRun) =
      (Inr pod, take 18 demoRun @ [EvGetPod ''d'' ''r-migrator-0-data'' (Inr pod)])"
proof -
  have "\<not> Option.is_none (cl_pvc (present demoCluster (take 18 demoRun)) ''data-web-0-new'') \<and>
    \<not> Option.is_none (cl_pod (present demoCluster (take 18 demoRun)) ''r-migrator-0-data'')"
    by code_simp
  then obtain p pod where there: "cl_pvc (present demoCluster (take 18 demoRun)) ''data-web-0-new'' = Some p"
    "cl_pod (present demoCluster (take 18 demoRun)) ''r-migrator-0-data'' = Some pod"
    by (auto simp: Option.is_none_def)
  have names: "vrNamespace (demoVR demoSyncing) = ''d''" "getTempPVCName (vt_name demoTarget) (vrSTS (demoVR demoSyncing)) 0 = ''data-web-0-new''"
    "getMigratorPodName (vrName (demoVR demoSyncing)) (vt_name demoTarget) 0 = ''r-migrator-0-data''"
    by code_simp+
  show ?thesis
    using existing_objects_reused [of demoClient "take 18 demoRun" "demoVR demoSyncing" demoTarget 0 p pod] there
    unfolding names by (auto simp: demoClient_def cluster_client_def fetch_def)
qed

subsection \<open>Backup and restore\<close>

text \<open>
  C30: What is backed up can be restored. When the text of a StatefulSet reads back as that
  StatefulSet and no backup exists yet, a successful backup looks for the ConfigMap and creates it,
  and the restore gets the same StatefulSet whenever the ConfigMap reads as it was created.
\<close>

theorem backup_restores:
  assumes "c_getCM c h (vrNamespace vr) (getSTSBackupConfigMapName (vrName vr)) = Inl err" and "IsNotFound err"
    and "l_marshalSTS c sts = Inr json" and "l_unmarshalSTS c json = Inr sts"
    and "result (backupSTSToConfigMap c vr sts) h = None"
    and "c_getCM c h' (vrNamespace vr) (getSTSBackupConfigMapName (vrName vr)) = Inr (backupConfigMap vr json)"
  shows "trace (backupSTSToConfigMap c vr sts) h = h @
      [EvGetCM (vrNamespace vr) (getSTSBackupConfigMapName (vrName vr)) (Inl err), EvCreateCM (backupConfigMap vr json) None] \<and>
    result (getSTSFromBackupConfigMap c (vrNamespace vr) (vrName vr)) h' = Inr sts"
  using assms
  by (auto simp: backupSTSToConfigMap_def getSTSFromBackupConfigMap_def GetCM_def CreateCM_def
      backupConfigMap_def split: option.splits)

theorem backup_restores_witness:
  "result (getSTSFromBackupConfigMap demoClient ''d'' ''r'')
     (trace (backupSTSToConfigMap demoClient (demoVR demoSyncing) demoSTS) []) = Inr demoSTS"
proof -
  let ?vr = "demoVR demoSyncing"
  let ?h = "[EvGetCM ''d'' ''r-sts-backup'' (Inl notFound), EvCreateCM (backupConfigMap ?vr ''json'') None]"
  have vr: "vrNamespace ?vr = ''d''" "getSTSBackupConfigMapName ''r'' = ''r-sts-backup''" "vrName ?vr = ''r''"
    by code_simp+
  have name: "om_name (cm_meta (backupConfigMap ?vr ''json'')) = ''r-sts-backup''"
    by (simp add: backupConfigMap_def vr getSTSBackupConfigMapName_def)
  have read: "c_getCM demoClient [] ''d'' ''r-sts-backup'' = Inl notFound"
    "c_getCM demoClient ?h ''d'' ''r-sts-backup'' = Inr (backupConfigMap ?vr ''json'')"
    by (simp_all add: demoClient_def cluster_client_def present_def demoCluster_def fetch_def name)
  have json: "l_marshalSTS demoClient demoSTS = Inr ''json''" "l_unmarshalSTS demoClient ''json'' = Inr demoSTS"
    by (simp_all add: demoClient_def cluster_client_def)
  have ok: "result (backupSTSToConfigMap demoClient ?vr demoSTS) [] = None"
    by code_simp
  have missing: "IsNotFound notFound"
    by (simp add: notFound_def IsNotFound_def)
  from backup_restores [of demoClient "[]" ?vr notFound demoSTS "''json''" ?h, unfolded vr, OF read(1) missing json ok read(2)]
  show ?thesis by simp
qed

subsection \<open>Deletion\<close>

text \<open>One attempt per listed object, in order.\<close>

definition deletesClaims :: "PersistentVolumeClaim list \<Rightarrow> history \<Rightarrow> bool" where
  "deletesClaims ps t \<longleftrightarrow> list_all2 (\<lambda>p e. \<exists>res. e = EvDeletePVC (om_namespace (pvc_meta p)) (om_name (pvc_meta p)) res) ps t"

definition deletesPods :: "Pod list \<Rightarrow> history \<Rightarrow> bool" where
  "deletesPods ps t \<longleftrightarrow> list_all2 (\<lambda>p e. \<exists>res. e = EvDeletePod (om_namespace (pod_meta p)) (om_name (pod_meta p)) res) ps t"

lemma deletePVCs_trace: "\<exists>t. trace (deletePVCs c ps) h = h @ t \<and> deletesClaims ps t"
proof (induction ps arbitrary: h)
  case Nil
  then show ?case by (simp add: deletesClaims_def)
next
  case (Cons p ps)
  let ?e = "EvDeletePVC (om_namespace (pvc_meta p)) (om_name (pvc_meta p))
    (c_deletePVC c h (om_namespace (pvc_meta p)) (om_name (pvc_meta p)))"
  obtain t where "trace (deletePVCs c ps) (h @ [?e]) = (h @ [?e]) @ t" "deletesClaims ps t"
    using Cons.IH by blast
  then show ?case
    by (intro exI [of _ "?e # t"]) (simp add: DeletePVC_def deletesClaims_def)
qed

lemma deletePods_trace: "\<exists>t. trace (deletePods c ps) h = h @ t \<and> deletesPods ps t"
proof (induction ps arbitrary: h)
  case Nil
  then show ?case by (simp add: deletesPods_def)
next
  case (Cons p ps)
  let ?e = "EvDeletePod (om_namespace (pod_meta p)) (om_name (pod_meta p))
    (c_deletePod c h (om_namespace (pod_meta p)) (om_name (pod_meta p)))"
  obtain t where "trace (deletePods c ps) (h @ [?e]) = (h @ [?e]) @ t" "deletesPods ps t"
    using Cons.IH by blast
  then show ?case
    by (intro exI [of _ "?e # t"]) (simp add: DeletePod_def deletesPods_def)
qed

definition listed :: "go_error + 'a list \<Rightarrow> 'a list" where
  "listed r = (case r of Inl err \<Rightarrow> [] | Inr items \<Rightarrow> items)"

lemma sum_ret: "(case x of Inl a \<Rightarrow> ret (f a) | Inr b \<Rightarrow> ret (g b)) = ret (case x of Inl a \<Rightarrow> f a | Inr b \<Rightarrow> g b)"
  by (simp split: sum.split)

text \<open>
  C29: Cleanup does exactly this, whatever fails on the way: it lists the claims that carry the
  label of this VolumeResize and tries to delete each of them once; the same for the pods; then it
  updates the object with the finalizer removed. No other call is made, and an error of the
  last one is the error returned.
\<close>

theorem deletion_cleans_up:
  "\<exists>claims pods ts us u. trace (handleDeletion c vr) h = h @
      EvListPVC (vrNamespace vr) LabelMigrationName (vrName vr) claims # ts @
      EvListPods (vrNamespace vr) LabelMigrationName (vrName vr) pods # us @
      [EvUpdateVR (vr\<lparr>vr_meta := (vr_meta vr)\<lparr>om_finalizers := l_removeFinalizer c (om_finalizers (vr_meta vr)) FinalizerName\<rparr>\<rparr>) u] \<and>
    deletesClaims (listed claims) ts \<and> deletesPods (listed pods) us \<and>
    result (handleDeletion c vr) h = (case u of Inl err \<Rightarrow> failWith err | Inr _ \<Rightarrow> finished)"
proof -
  define claims where "claims = c_listPVC c h (vrNamespace vr) LabelMigrationName (vrName vr)"
  define h1 where "h1 = h @ [EvListPVC (vrNamespace vr) LabelMigrationName (vrName vr) claims]"
  obtain ts where ts: "trace (case claims of Inl err \<Rightarrow> ret () | Inr items \<Rightarrow> deletePVCs c items) h1 = h1 @ ts"
    "deletesClaims (listed claims) ts"
    using deletePVCs_trace [of c _ h1] by (cases claims) (auto simp: listed_def deletesClaims_def)
  define pods where "pods = c_listPods c (h1 @ ts) (vrNamespace vr) LabelMigrationName (vrName vr)"
  define h2 where "h2 = (h1 @ ts) @ [EvListPods (vrNamespace vr) LabelMigrationName (vrName vr) pods]"
  obtain us where us: "trace (case pods of Inl err \<Rightarrow> ret () | Inr items \<Rightarrow> deletePods c items) h2 = h2 @ us"
    "deletesPods (listed pods) us"
    using deletePods_trace [of c _ h2] by (cases pods) (auto simp: listed_def deletesPods_def)
  define w where "w = vr\<lparr>vr_meta := (vr_meta vr)\<lparr>om_finalizers := l_removeFinalizer c (om_finalizers (vr_meta vr)) FinalizerName\<rparr>\<rparr>"
  define u where "u = c_updateVR c (h2 @ us) w"
  have "trace (handleDeletion c vr) h = (h2 @ us) @ [EvUpdateVR w u]"
    "result (handleDeletion c vr) h = (case u of Inl err \<Rightarrow> failWith err | Inr _ \<Rightarrow> finished)"
    using ts(1) us(1)
    by (simp_all add: handleDeletion_def ListPVC_def ListPods_def UpdateVR_def withMeta_def sum_ret
        claims_def [symmetric] h1_def [symmetric] pods_def [symmetric] h2_def [symmetric] w_def [symmetric] u_def [symmetric]
        del: append_assoc)
  then show ?thesis
    using ts(2) us(2) unfolding w_def h2_def h1_def
    by (intro exI [of _ claims] exI [of _ pods] exI [of _ ts] exI [of _ us] exI [of _ u]) simp
qed

subsection \<open>Validation\<close>

text \<open>Everything the four checks establish, as a fact of the history.\<close>

definition smaller :: "client \<Rightarrow> VolumeResize \<Rightarrow> history \<Rightarrow> VolumeResizeTarget \<Rightarrow> bool" where
  "smaller c vr h vol \<longleftrightarrow> (\<exists>p cur. gotOriginal vr 0 (vt_name vol) p h \<and>
     l_storageRequest c (pvc_requests p) = Some cur \<and> l_quantityCmp c (vt_newSize vol) cur < 0)"

definition checked :: "client \<Rightarrow> VolumeResize \<Rightarrow> StatefulSet \<Rightarrow> history \<Rightarrow> bool" where
  "checked c vr sts h \<longleftrightarrow> EvGetSTS (vrNamespace vr) (vrSTS vr) (Inr sts) \<in> set h \<and>
     vt_name ` set (vrVolumes vr) \<subseteq> (\<lambda>t. om_name (pvc_meta t)) ` set (sts_volumeClaimTemplates sts) \<and>
     list_all (smaller c vr h) (vrVolumes vr) \<and>
     (\<exists>items. EvListPDB (om_namespace (sts_meta sts)) (Inr items) \<in> set h \<and>
        \<not> list_ex (blocks c (sts_templateLabels sts)) items)"

lemma smaller_here:
  "l_storageRequest c (pvc_requests p) = Some cur \<Longrightarrow> l_quantityCmp c (vt_newSize vol) cur < 0 \<Longrightarrow>
   smaller c vr (snoc h (EvGetPVC (vrNamespace vr) (getOriginalPVCName (vt_name vol) (vrSTS vr) 0) (Inr p))) vol"
  unfolding smaller_def using gotClaim_here by blast

lemma smaller_mono: "smaller c vr h vol \<Longrightarrow> grows h h' \<Longrightarrow> smaller c vr h' vol"
  unfolding smaller_def by (blast intro: gotClaim_mono)

lemma validateSizes_checks:
  "wp (validateSizes c (vrNamespace vr) (vrSTS vr) vols)
     (\<lambda>res h'. grows h h' \<and> (vres_valid res \<longrightarrow> list_all (smaller c vr h') vols)) h"
proof (induction vols arbitrary: h)
  case Nil
  then show ?case by simp
next
  case (Cons vol vols)
  have one: "wp (validateSizeReduction c (vrNamespace vr) (vrSTS vr) vol)
      (\<lambda>res h'. grows h h' \<and> (vres_valid res \<longrightarrow> smaller c vr h' vol)) h"
    by (auto simp: validateSizeReduction_def getPVC_eq GetPVC_def Let_def wp_cases
        intro!: wp_call smaller_here split: sum.split option.split)
  show ?case
    unfolding validateSizes.simps wp_bind
  proof (rule wp_mono [OF one])
    fix res :: ValidationResult and h'
    assume now: "grows h h' \<and> (vres_valid res \<longrightarrow> smaller c vr h' vol)"
    have "wp (validateSizes c (vrNamespace vr) (vrSTS vr) vols)
        (\<lambda>res g. grows h g \<and> (vres_valid res \<longrightarrow> list_all (smaller c vr g) (vol # vols))) h'" if "vres_valid res"
      by (rule wp_mono [OF Cons.IH [of h']])
        (use now that in \<open>auto intro: grows_trans smaller_mono\<close>)
    with now show "wp (if \<not> vres_valid res then ret res else validateSizes c (vrNamespace vr) (vrSTS vr) vols)
        (\<lambda>res g. grows h g \<and> (vres_valid res \<longrightarrow> list_all (smaller c vr g) (vol # vols))) h'"
      by (auto simp: wp_if)
  qed
qed

lemma pdb_checks:
  "wp (validatePDBAllowsDisruption c sts) (\<lambda>res h'. grows h h' \<and> (vres_valid res \<longrightarrow>
     (\<exists>items. EvListPDB (om_namespace (sts_meta sts)) (Inr items) \<in> set h' \<and>
        \<not> list_ex (blocks c (sts_templateLabels sts)) items))) h"
proof -
  have free: "vres_valid (checkPDBs c l items) \<longleftrightarrow> \<not> list_ex (blocks c l) items" for l items
    by (auto simp: pdbs.scan_valid_iff checkPDB_eq list_ex_iff)
  show ?thesis
    by (auto simp: validatePDBAllowsDisruption_def ListPDB_def wp_cases free intro!: wp_call split: sum.split)
qed

lemma runChecks_checks:
  "wp (runChecks c vr) (\<lambda>res h'. \<forall>sts. res = Inr sts \<longrightarrow> checked c vr sts h') h"
proof -
  have last: "wp (validatePDBAllowsDisruption c sts) (\<lambda>res. wp (if \<not> vres_valid res then ret (Inl (vres_message res)) else ret (Inr sts))
      (\<lambda>res h'. \<forall>sts. res = Inr sts \<longrightarrow> checked c vr sts h')) h'"
    if "EvGetSTS (vrNamespace vr) (vrSTS vr) (Inr sts) \<in> set h'" "list_all (smaller c vr h') (vrVolumes vr)"
      "vres_valid (validateVolumeTargets sts (vrVolumes vr))" for sts h'
    by (rule wp_mono [OF pdb_checks [of c sts h']])
      (use that in \<open>auto simp: wp_if checked_def validateVolumeTargets_iff intro: growsD smaller_mono list.pred_mono_strong\<close>)
  have sizes: "wp (validateSizes c (vrNamespace vr) (vrSTS vr) (vrVolumes vr)) (\<lambda>res. wp (if \<not> vres_valid res then ret (Inl (vres_message res))
        else do { res \<leftarrow> validatePDBAllowsDisruption c sts;
                  if \<not> vres_valid res then ret (Inl (vres_message res)) else ret (Inr sts) })
      (\<lambda>res h'. \<forall>sts. res = Inr sts \<longrightarrow> checked c vr sts h')) h'"
    if "EvGetSTS (vrNamespace vr) (vrSTS vr) (Inr sts) \<in> set h'" "vres_valid (validateVolumeTargets sts (vrVolumes vr))" for sts h'
    by (rule wp_mono [OF validateSizes_checks]) (use that in \<open>auto simp: wp_if intro!: last [unfolded wp_bind] intro: growsD\<close>)
  show ?thesis
    unfolding runChecks_def validateStatefulSetExists_def wp_bind GetSTS_def
    by (rule wp_call) (auto simp: Let_def wp_if intro!: sizes [unfolded wp_bind] split: sum.split)
qed

text \<open>Writing the phase Syncing needs a validated history.\<close>

fun validation_policy :: "client \<Rightarrow> VolumeResize \<Rightarrow> policy" where
  "validation_policy c vr h (EvStatusVR v res) \<longleftrightarrow> (st_phase (vr_status v) = PhaseSyncing \<longrightarrow> (\<exists>sts. checked c vr sts h))"
| "validation_policy c vr h _ \<longleftrightarrow> True"

interpretation validation: policy_free "validation_policy c vr" quiet for c vr
proof
  show "quiet e \<Longrightarrow> validation_policy c vr h e" for h e
    by (cases e) (simp_all add: quiet_def)
qed

lemma runChecks_quiet: "only quiet (runChecks c vr)"
  by (auto simp: runChecks_def Let_def split: prod.split option.split
      intro!: only_bind validateStatefulSetExists_only validateSizes_quiet validatePDBAllowsDisruption_only)

lemma handleValidating_checked:
  assumes "compliant (validation_policy c vr) h"
  shows "wp (handleValidating c vr) (stays (validation_policy c vr)) h"
proof -
  have "wp (runChecks c vr) (\<lambda>res h'. compliant (validation_policy c vr) h' \<and>
      (\<forall>sts. res = Inr sts \<longrightarrow> checked c vr sts h')) h"
    by (rule wp_conj [OF validation.wp_only [OF runChecks_quiet assms] runChecks_checks])
  then show ?thesis
    unfolding handleValidating_def wp_bind
    by (rule wp_mono) (auto simp: setFailed_def startSyncing_def StatusUpdateVR_def phase_defs
        intro!: wp_call split: sum.splits list.split)
qed

text \<open>
  C18: The operator starts to migrate only what it has validated: a status with the phase Syncing is
  written by a call on a validating object only after the same call has read the StatefulSet,
  found every volume among its claim templates, read for every volume the claim of replica 0 with
  a larger storage request, and seen no disruption budget that blocks.
\<close>

theorem sync_starts_validated:
  assumes "c_getVR c [] ns n = Inr vr" and "om_deletionTimestamp (vr_meta vr) = None" and "vrPhase vr = PhaseValidating"
    and "trace (Reconcile c ns n) [] = pre @ EvStatusVR v res # post" and "vrPhase v = PhaseSyncing"
  shows "\<exists>sts. checked c vr sts pre"
proof -
  let ?h = "[EvGetVR ns n (Inr vr)]"
  have start: "compliant (validation_policy c vr) ?h"
    using compliant_snoc [of "validation_policy c vr" "[]"] by simp
  have sync: "dispatch c vr = handleValidating c vr"
    using assms(3) by (simp add: dispatch_def Let_def phase_defs)
  have "compliant (validation_policy c vr) (trace (Reconcile c ns n) [])"
  proof (cases "l_containsFinalizer c (om_finalizers (vr_meta vr)) FinalizerName")
    case True
    then show ?thesis
      using handleValidating_checked [OF start] assms(1,2) sync by (simp add: Reconcile_def GetVR_def wp_iff)
  next
    case False
    have two: "compliant (validation_policy c vr) [EvGetVR ns n (Inr vr), EvUpdateVR w r]" for w r
      using start compliant_snoc [of "validation_policy c vr" ?h "EvUpdateVR w r"] by simp
    then show ?thesis
      using False assms(1,2) by (simp add: Reconcile_def GetVR_def UpdateVR_def sum_ret)
  qed
  from compliant_event [OF this [unfolded assms(4)]] show ?thesis
    using assms(5) by simp
qed

definition demoValidating :: client where
  "demoValidating = cluster_client (demoVR (zeroStatus\<lparr>st_phase := PhaseValidating\<rparr>)) demoSTS demoCluster"

theorem sync_starts_validated_witness:
  "\<exists>sts. checked demoValidating (demoVR (zeroStatus\<lparr>st_phase := PhaseValidating\<rparr>)) sts
     (take 4 (trace (Reconcile demoValidating ''d'' ''r'') []))"
proof -
  let ?tr = "trace (Reconcile demoValidating ''d'' ''r'') []"
  have "map callOf ?tr = [Call ''GetVR'' ''r'', Call ''GetSTS'' ''web'', Call ''GetPVC'' ''data-web-0'',
      Call ''ListPDB'' ''d'', Call ''StatusVR'' ''Syncing'']"
    by code_simp
  note calls = this
  have "length (map callOf ?tr) = 5" and "map callOf ?tr ! 4 = Call ''StatusVR'' ''Syncing''"
    unfolding calls by simp_all
  then have len: "length ?tr = 5" and at: "callOf (?tr ! 4) = Call ''StatusVR'' ''Syncing''"
    by simp_all
  then obtain v res where e: "?tr ! 4 = EvStatusVR v res" "vrPhase v = ''Syncing''"
    by (cases "?tr ! 4") auto
  have "?tr = take 4 ?tr @ EvStatusVR v res # drop 5 ?tr"
    using id_take_nth_drop [of 4 ?tr] len e(1) by simp
  then show ?thesis
    using sync_starts_validated [of demoValidating "''d''" "''r''" "demoVR (zeroStatus\<lparr>st_phase := PhaseValidating\<rparr>)"] e(2)
    by (auto simp: demoValidating_def cluster_client_def storedVR_def demoVR_def zeroMeta_def zeroStatus_def phase_defs)
qed

subsection \<open>The wait for the migrator\<close>

lemma awaitMigration_None:
  assumes "result (awaitMigration c vr pod) h = None"
  obtains pre res where
    "trace (awaitMigration c vr pod) h = pre @ [EvGetPod (vrNamespace vr) (om_name (pod_meta pod)) res]"
    "case res of Inl err \<Rightarrow> True | Inr p \<Rightarrow> pod_phase p \<notin> {PodRunning, PodPending, PodFailed}"
proof (cases "result (waitForMigrationComplete c (om_name (pod_meta pod)) (vrNamespace vr) hour) h")
  case None
  then obtain pre p where
    "trace (waitForMigrationComplete c (om_name (pod_meta pod)) (vrNamespace vr) hour) h =
       pre @ [EvGetPod (vrNamespace vr) (om_name (pod_meta pod)) (Inr p)]" "pod_phase p = PodSucceeded"
    by (rule waitForMigrationComplete_succeeded)
  with None show ?thesis
    by (intro that [of pre "Inr p"]) (simp_all add: awaitMigration_def)
next
  case (Some err)
  let ?h = "trace (waitForMigrationComplete c (om_name (pod_meta pod)) (vrNamespace vr) hour) h"
  let ?res = "c_getPod c ?h (vrNamespace vr) (om_name (pod_meta pod))"
  have "case ?res of Inl err \<Rightarrow> True | Inr p \<Rightarrow> pod_phase p \<notin> {PodRunning, PodPending, PodFailed}"
    using assms Some by (auto simp: awaitMigration_def GetPod_def split: sum.splits if_splits)
  moreover from this have "trace (awaitMigration c vr pod) h = ?h @ [EvGetPod (vrNamespace vr) (om_name (pod_meta pod)) ?res]"
    using Some by (auto simp: awaitMigration_def GetPod_def split: sum.splits)
  ultimately show ?thesis
    by (intro that [of ?h ?res])
qed

text \<open>
  The volume is swapped only when the last look at the migrator pod did not show it pending,
  running or failed. That leaves the phase Succeeded, but also a look that failed.
\<close>

theorem migration_gate:
  assumes "result (awaitMigration c vr pod) h = None"
  shows "\<exists>res. last (trace (awaitMigration c vr pod) h) = EvGetPod (vrNamespace vr) (om_name (pod_meta pod)) res \<and>
    (case res of Inl err \<Rightarrow> True | Inr p \<Rightarrow> pod_phase p \<notin> {PodRunning, PodPending, PodFailed})"
  using awaitMigration_None [OF assms] by (metis snoc_eq_iff_butlast)

definition demoMigrator :: Pod where
  "demoMigrator = buildMigratorPod (demoVR demoSyncing) demoTarget 0 ''data-web-0'' ''data-web-0-new''"

theorem migration_gate_witness:
  "\<exists>res. last (trace (awaitMigration demoClient (demoVR demoSyncing) demoMigrator) (take 18 demoRun)) =
      EvGetPod (vrNamespace (demoVR demoSyncing)) (om_name (pod_meta demoMigrator)) res \<and>
    (case res of Inl err \<Rightarrow> True | Inr p \<Rightarrow> pod_phase p \<notin> {PodRunning, PodPending, PodFailed})"
proof (rule migration_gate)
  have "Option.is_none (result (awaitMigration demoClient (demoVR demoSyncing) demoMigrator) (take 18 demoRun))"
    by code_simp
  then show "result (awaitMigration demoClient (demoVR demoSyncing) demoMigrator) (take 18 demoRun) = None"
    by (simp add: Option.is_none_def)
qed

section \<open>What goes wrong\<close>

text \<open>A cluster in which the migrator pod is gone whenever anyone looks.\<close>

definition vanishingClient :: client where
  "vanishingClient = demoClient\<lparr>c_getPod := \<lambda>h ns n.
     if n = ''r-migrator-0-data'' then Inl notFound else c_getPod demoClient h ns n\<rparr>"

fun sawMigratorSucceed :: "event \<Rightarrow> bool" where
  "sawMigratorSucceed (EvGetPod ns n (Inr p)) \<longleftrightarrow> n = ''r-migrator-0-data'' \<and> pod_phase p = PodSucceeded"
| "sawMigratorSucceed _ \<longleftrightarrow> False"

fun deletedClaim :: "string \<Rightarrow> event \<Rightarrow> bool" where
  "deletedClaim claim (EvDeletePVC ns n None) \<longleftrightarrow> n = claim"
| "deletedClaim claim _ \<longleftrightarrow> False"


text \<open>
  The completed status is persisted before the StatefulSet exists again, and the next call does
  not look for it. When the process dies between the two, the next call on the cluster as it was left
  reports the whole migration as completed, with no StatefulSet and no pod of the application there.
\<close>

theorem completed_without_statefulset:
  "let t = take 34 demoRun; k = present demoCluster t;
       t' = trace (Reconcile (cluster_client (storedVR (demoVR demoSyncing) t) demoSTS k) ''d'' ''r'') []
   in map_option vrPhase (latest t') = Some PhaseCompleted \<and>
      Option.is_none (cl_sts (present k t')) \<and> Option.is_none (cl_pod (present k t') ''web-0'')"
  by code_simp

text \<open>
  With a StatefulSet of no replicas, validation creates no entries and the call that follows can
  never mark anything as completed: it takes the migration of replica 0 up again each time it is
  called, and its updates of the entry in progress change nothing.
\<close>

theorem zero_replicas_never_complete:
  assumes "sint replicas \<le> 0" and "st_volumeStatuses (vr_status vr) = initialStatuses (vrVolumes vr) 0 replicas"
    and "st_currentReplica (vr_status vr) = Some r"
  shows "handleSyncing c vr = prepareClaims c vr r (st_currentVolume (vr_status vr)) \<and>
    updateVolumeStatus vr v r' p m = vr"
proof -
  have "initialStatuses (vrVolumes vr) 0 replicas = []"
    using assms(1) by (simp add: initialStatuses.simps [of _ 0] word_sless_alt)
  then show ?thesis
    using assms(2,3) by (simp add: handleSyncing_def Let_def currentCompleted_def updateVolumeStatus_def withStatus_def)
qed

theorem zero_replicas_never_complete_witness:
  "handleSyncing demoClient (demoVR (demoSyncing\<lparr>st_volumeStatuses := []\<rparr>)) =
     prepareClaims demoClient (demoVR (demoSyncing\<lparr>st_volumeStatuses := []\<rparr>)) 0 ''data''"
proof -
  have "initialStatuses vols 0 0 = []" for vols
    by (simp add: initialStatuses.simps [of _ 0])
  then show ?thesis
    using zero_replicas_never_complete [of 0 "demoVR (demoSyncing\<lparr>st_volumeStatuses := []\<rparr>)" 0 demoClient]
    by (simp add: demoVR_def demoSyncing_def)
qed

text \<open>A cluster on which the copy fails: a migrator pod, once it is there, has the phase Failed.\<close>

definition brokenCopyClient :: client where
  "brokenCopyClient = demoClient\<lparr>c_getPod := \<lambda>h ns n.
     if n = ''r-migrator-0-data''
     then map_sum id (\<lambda>p. p\<lparr>pod_phase := PodFailed\<rparr>) (c_getPod demoClient h ns n) else c_getPod demoClient h ns n\<rparr>"


text \<open>A budget that selects, by expression, pods of another application.\<close>

definition otherBudget :: PodDisruptionBudget where
  "otherBudget = \<lparr>pdb_meta = zeroMeta\<lparr>om_name := ''other''\<rparr>,
     pdb_selector = Some \<lparr>ls_matchLabels = None, ls_matchExpressions = [''app in (other)'']\<rparr>, pdb_disruptionsAllowed = 0\<rparr>"

theorem expressions_ignored_witness:
  "result (validatePDBAllowsDisruption (demoClient\<lparr>l_selectorFromSet := \<lambda>l. Inr (\<lambda>p. l = None),
       c_listPDB := \<lambda>h ns. Inr [otherBudget]\<rparr>) demoSTS) [] = invalid (disruptionBlocked otherBudget)"
  by (rule expressions_ignored) (simp_all add: otherBudget_def)

section \<open>A migration from beginning to end\<close>

text \<open>
  On the small cluster three calls carry a new VolumeResize through: it is completed; the claim
  has its old name, is bound to the new volume and asks for the new size; the old and the new volume
  are retained; the temporary claim and the migrator pod are gone; the StatefulSet is back with the
  new size in its template, and its pod runs.
\<close>

theorem migration_completes:
  "report (demoLife 3) =
     (PhaseCompleted, Some (''pv-data-web-0-new'', Some ''1Gi''), Some ReclaimRetain, Some ReclaimRetain,
      False, False, Some [Some ''1Gi''], Some PodRunning)"
  using demo_end by (cases "demoLife 3") simp

end
