(* ===== verification/Terminal.thy ===== *)
theory Terminal
  imports Prelude
begin

section \<open>Text for the terminal\<close>

text \<open>
  What the command line tool uses of Go's standard library to show things, on strings that are lists
  of bytes, as in Go: UTF-8 (\<^verbatim>\<open>utf8.RuneCount\<close>), padding (\<^verbatim>\<open>%-12s\<close>), the column writer
  \<^verbatim>\<open>text/tabwriter\<close> with the parameters the tool gives it (minimal width 0, padding of two
  spaces, left-aligned), the text of a \<^verbatim>\<open>time.Duration\<close>, its rounding, and differences of times.
\<close>

subsection \<open>Bytes and runes\<close>

definition nl :: string where "nl = [CHR 0x0A]"
definition tab :: string where "tab = [CHR 0x09]"

text \<open>The well-formed sequences of more than one byte, as ranges of bytes (RFC 3629).\<close>

definition encodings :: "(nat \<times> nat) list list" where
  "encodings =
     [[(0xC2, 0xDF), (0x80, 0xBF)],
      [(0xE0, 0xE0), (0xA0, 0xBF), (0x80, 0xBF)],
      [(0xE1, 0xEC), (0x80, 0xBF), (0x80, 0xBF)],
      [(0xED, 0xED), (0x80, 0x9F), (0x80, 0xBF)],
      [(0xEE, 0xEF), (0x80, 0xBF), (0x80, 0xBF)],
      [(0xF0, 0xF0), (0x90, 0xBF), (0x80, 0xBF), (0x80, 0xBF)],
      [(0xF1, 0xF3), (0x80, 0xBF), (0x80, 0xBF), (0x80, 0xBF)],
      [(0xF4, 0xF4), (0x80, 0x8F), (0x80, 0xBF), (0x80, 0xBF)]]"

fun starts :: "(nat \<times> nat) list \<Rightarrow> string \<Rightarrow> bool" where
  "starts [] s = True"
| "starts (p # ps) [] = False"
| "starts ((lo, hi) # ps) (c # s) = (lo \<le> of_char c \<and> of_char c \<le> hi \<and> starts ps s)"

text \<open>Length in bytes of the first rune; a byte that begins no sequence is a rune by itself.\<close>

definition runeLen :: "string \<Rightarrow> nat" where
  "runeLen s = (case find (\<lambda>p. starts p s) encodings of None \<Rightarrow> 1 | Some p \<Rightarrow> length p)"

function runeCount :: "string \<Rightarrow> nat" where
  "runeCount [] = 0"
| "runeCount (c # s) = Suc (runeCount (drop (runeLen (c # s) - 1) s))"
  by pat_completeness auto

termination
  by (relation "measure length") auto

lemma starts_length: "starts p s \<Longrightarrow> length p \<le> length s"
  by (induction p s rule: starts.induct) auto

lemma runeLen_le: "runeLen (c # s) \<le> length (c # s)"
  by (auto simp: runeLen_def find_Some_iff dest!: starts_length nth_mem split: option.split)

text \<open>Spaces continue no sequence.\<close>

lemma starts_spaces:
  assumes "\<forall>(lo, hi) \<in> set p. 0x21 \<le> lo"
  shows "starts p (s @ replicate n (CHR '' '')) = starts p s"
  using assms
proof (induction p arbitrary: s)
  case (Cons q p)
  then show ?case
    by (cases q; cases s; cases n) auto
qed simp

lemma runeLen_spaces: "s \<noteq> [] \<Longrightarrow> runeLen (s @ replicate n (CHR '' '')) = runeLen s"
proof -
  have "starts p (s @ replicate n (CHR '' '')) = starts p s" if "p \<in> set encodings" for p
    by (rule starts_spaces) (use that in \<open>auto simp: encodings_def\<close>)
  then have "find (\<lambda>p. starts p (s @ replicate n (CHR '' ''))) encodings = find (\<lambda>p. starts p s) encodings"
    by (intro find_cong) auto
  then show ?thesis
    by (simp add: runeLen_def)
qed

lemma runeCount_replicate: "runeCount (replicate n (CHR '' '')) = n"
proof (induction n)
  case (Suc n)
  have "runeLen (CHR '' '' # s) = 1" for s
    by (simp add: runeLen_def encodings_def)
  with Suc show ?case by simp
qed simp

lemma runeCount_spaces [simp]: "runeCount (s @ replicate n (CHR '' '')) = runeCount s + n"
proof (induction s rule: runeCount.induct)
  case 1
  then show ?case by (simp add: runeCount_replicate)
next
  case (2 c s)
  have "runeLen (c # s @ replicate n (CHR '' '')) = runeLen (c # s)"
    using runeLen_spaces [of "c # s"] by simp
  moreover have "runeLen (c # s) - 1 \<le> length s"
    using runeLen_le [of c s] by simp
  ultimately show ?case
    using 2 by simp
qed

text \<open>\<^verbatim>\<open>%-12s\<close> and the cells of a table: spaces on the right up to a width in runes.\<close>

definition padRight :: "nat \<Rightarrow> string \<Rightarrow> string" where
  "padRight w s = s @ replicate (w - runeCount s) (CHR '' '')"

lemma runeCount_padRight: "runeCount s \<le> w \<Longrightarrow> runeCount (padRight w s) = w"
  by (simp add: padRight_def)

subsection \<open>Columns (text/tabwriter)\<close>

text \<open>The pieces of a text between the bytes that satisfy \<open>p\<close>.\<close>

fun splitAt :: "(char \<Rightarrow> bool) \<Rightarrow> string \<Rightarrow> string list" where
  "splitAt p [] = [[]]"
| "splitAt p (c # s) =
     (if p c then [] # splitAt p s
      else (case splitAt p s of [] \<Rightarrow> [[c]] | x # xs \<Rightarrow> (c # x) # xs))"

fun joinWith :: "string \<Rightarrow> string list \<Rightarrow> string" where
  "joinWith sep [] = []"
| "joinWith sep [x] = x"
| "joinWith sep (x # y # ys) = x @ sep @ joinWith sep (y # ys)"

text \<open>
  A cell belongs to a column when a tab ends it; the text after the last tab of a line does not. The
  width of a column is that of its widest cell, and two, in a run of adjacent lines that have it.
\<close>

definition hasColumn :: "nat \<Rightarrow> string list \<Rightarrow> bool" where
  "hasColumn j cells \<longleftrightarrow> Suc j < length cells"

definition columnRun :: "string list list \<Rightarrow> nat \<Rightarrow> nat \<Rightarrow> string list list" where
  "columnRun rows i j =
     rev (takeWhile (hasColumn j) (rev (take i rows))) @ takeWhile (hasColumn j) (drop i rows)"

definition columnWidth :: "string list list \<Rightarrow> nat \<Rightarrow> nat \<Rightarrow> nat" where
  "columnWidth rows i j = 2 + fold max (map (\<lambda>cells. runeCount (cells ! j)) (columnRun rows i j)) 0"

definition renderRow :: "string list list \<Rightarrow> nat \<Rightarrow> string" where
  "renderRow rows i =
     (let cells = rows ! i in
      concat (map (\<lambda>j. if hasColumn j cells then padRight (columnWidth rows i j) (cells ! j) else cells ! j)
        [0..<length cells]))"

text \<open>A line feed ends a line, a form feed a line and every column; tabs are horizontal or vertical.\<close>

definition formatColumns :: "string \<Rightarrow> string" where
  "formatColumns text =
     (let rows = map (splitAt (\<lambda>c. c = CHR 0x09 \<or> c = CHR 0x0B)) (splitAt (\<lambda>c. c = CHR 0x0A) text) in
      joinWith nl (map (renderRow rows) [0..<length rows]))"

definition tabwriter :: "string \<Rightarrow> string" where
  "tabwriter text = joinWith nl (map formatColumns (splitAt (\<lambda>c. c = CHR 0x0C) text))"

subsection \<open>Durations and times\<close>

text \<open>Go's division and remainder of signed integers round toward zero.\<close>

definition goDiv :: "int \<Rightarrow> int \<Rightarrow> int" where
  "goDiv a b = sgn a * sgn b * (\<bar>a\<bar> div \<bar>b\<bar>)"

definition goMod :: "int \<Rightarrow> int \<Rightarrow> int" where
  "goMod a b = a - goDiv a b * b"

definition minDuration :: duration where "minDuration = - (2 ^ 63)"
definition maxDuration :: duration where "maxDuration = 2 ^ 63 - 1"

text \<open>The zero time, January 1 of year 1, and \<^verbatim>\<open>Time.Sub\<close>, which saturates.\<close>

definition zeroTime :: int where "zeroTime = - 62135596800 * second"

definition timeSub :: "int \<Rightarrow> int \<Rightarrow> duration" where
  "timeSub t u = max minDuration (min maxDuration (t - u))"

text \<open>\<^verbatim>\<open>Duration.Round\<close>: to the nearest multiple, halves away from zero, saturating.\<close>

definition roundDuration :: "duration \<Rightarrow> duration \<Rightarrow> duration" where
  "roundDuration d m =
     (if m \<le> 0 then d
      else let r = \<bar>goMod d m\<bar> in
        if d < 0 then (if r + r < m then d + r else if minDuration \<le> d - m + r then d - m + r else minDuration)
        else (if r + r < m then d - r else if d + m - r \<le> maxDuration then d + m - r else maxDuration))"

text \<open>
  \<^verbatim>\<open>fmtFrac\<close>: the last \<open>prec\<close> digits of a number as a fraction, without trailing zeros, before the
  text \<open>acc\<close>; \<open>started\<close> says that a digit was written. The number without them is returned too.
\<close>

fun fmtFrac :: "int \<Rightarrow> nat \<Rightarrow> bool \<Rightarrow> string \<Rightarrow> string \<times> int" where
  "fmtFrac v 0 started acc = (if started then CHR ''.'' # acc else acc, v)"
| "fmtFrac v (Suc prec) started acc =
     (let digit = v mod 10; started' = (started \<or> digit \<noteq> 0) in
      fmtFrac (v div 10) prec started' (if started' then digitChar (nat digit) # acc else acc))"

text \<open>\<^verbatim>\<open>Duration.String\<close>: below a second in \<^verbatim>\<open>ns\<close>, \<^verbatim>\<open>\<mu>s\<close> or \<^verbatim>\<open>ms\<close>, else hours, minutes and seconds.\<close>

definition showMagnitude :: "int \<Rightarrow> string" where
  "showMagnitude u =
     (if u = 0 then ''0s''
      else if u < second then
        let (prec, unit) = (if u < 1000 then (0, ''ns'')
                            else if u < 1000000 then (3, [CHR 0xC2, CHR 0xB5, CHR ''s''])
                            else (6, ''ms''));
            (frac, v) = fmtFrac u prec False unit
        in showInt v @ frac
      else
        let (frac, secs) = fmtFrac u 9 False ''s'';
            mins = secs div 60; hours = mins div 60
        in (if 0 < hours then showInt hours @ ''h'' else '''') @
           (if 0 < mins then showInt (mins mod 60) @ ''m'' else '''') @ showInt (secs mod 60) @ frac)"

definition showDuration :: "duration \<Rightarrow> string" where
  "showDuration d = (if d < 0 then CHR ''-'' # showMagnitude (- d) else showMagnitude d)"

end
