(* ===== verification/Floating.thy ===== *)
theory Floating
  imports Prelude Complex_Main "HOL-Library.Log_Nat"
begin

section \<open>Floating point numbers\<close>

text \<open>
  Go's \<^verbatim>\<open>float64\<close>, as far as the methods \<^verbatim>\<open>Seconds\<close>, \<^verbatim>\<open>Minutes\<close> and \<^verbatim>\<open>Hours\<close> of a duration need it:
  a value is a rational number, and the result of an operation is the exact result rounded to 53
  significant bits, ties to even. All values are in the normal range, so exponents are not bounded.
\<close>

text \<open>The exponent \<open>e\<close> with \<open>2 ^ e \<le> x < 2 ^ (e + 1)\<close>, of a positive number.\<close>

definition magnitude :: "rat \<Rightarrow> int" where
  "magnitude x = (if 1 \<le> x then int (floorlog 2 (nat \<lfloor>x\<rfloor>)) - 1
                  else - int (floorlog 2 (nat (\<lceil>1 / x\<rceil> - 1))))"

definition roundEven :: "rat \<Rightarrow> int" where
  "roundEven x =
     (let n = \<lfloor>x\<rfloor>; frac = x - of_int n in
      if frac < 1 / 2 then n else if 1 / 2 < frac then n + 1 else if even n then n else n + 1)"

definition float64 :: "rat \<Rightarrow> rat" where
  "float64 x =
     (if x = 0 then 0
      else let e = magnitude \<bar>x\<bar> in
        if e \<le> 52 then of_int (roundEven (x * 2 ^ nat (52 - e))) / 2 ^ nat (52 - e)
        else of_int (roundEven (x / 2 ^ nat (e - 52))) * 2 ^ nat (e - 52))"

text \<open>Conversion to an integer cuts the fraction off.\<close>

definition truncInt :: "rat \<Rightarrow> int" where
  "truncInt x = (if x < 0 then - \<lfloor>- x\<rfloor> else \<lfloor>x\<rfloor>)"

subsection \<open>Rounding errors\<close>

lemma roundEven_error: "\<bar>of_int (roundEven x) - x\<bar> \<le> 1 / 2"
proof -
  have "of_int \<lfloor>x\<rfloor> \<le> x" "x < of_int \<lfloor>x\<rfloor> + 1"
    by linarith+
  then show ?thesis
    by (auto simp: roundEven_def Let_def abs_le_iff)
qed

lemma roundEven_ge: "of_int n \<le> x \<Longrightarrow> n \<le> roundEven x"
  by (auto simp: roundEven_def Let_def le_floor_iff) linarith+

lemma magnitude_le:
  assumes "0 < x" and "x < 2 ^ 53"
  shows "magnitude x \<le> 52"
proof (cases "1 \<le> x")
  case True
  have "\<lfloor>x\<rfloor> < int (2 ^ 53)" using assms(2) by (simp add: floor_less_iff)
  then have "nat \<lfloor>x\<rfloor> < 2 ^ 53" using True by (simp only: nat_less_iff zero_le_floor)
  then have "floorlog 2 (nat \<lfloor>x\<rfloor>) \<le> 53" by (intro floorlog_leI) auto
  with True show ?thesis by (simp add: magnitude_def)
qed (simp add: magnitude_def)

text \<open>In units of the last place a number has at least 53 digits.\<close>

lemma magnitude_scaled:
  assumes "0 < x" and "x < 2 ^ 53"
  shows "2 ^ 52 \<le> x * 2 ^ nat (52 - magnitude x)"
proof (cases "1 \<le> x")
  case True
  define k where "k = floorlog 2 (nat \<lfloor>x\<rfloor>)"
  have "0 < nat \<lfloor>x\<rfloor>" using True by simp
  then have k: "0 < k" using floorlog_eq_zero_iff [of 2 "nat \<lfloor>x\<rfloor>"] by (auto simp: k_def)
  then have "2 ^ (k - 1) \<le> nat \<lfloor>x\<rfloor>" using floorlog_geD [of k 2 "nat \<lfloor>x\<rfloor>"] by (simp add: k_def)
  then have "rat_of_nat (2 ^ (k - 1)) \<le> rat_of_nat (nat \<lfloor>x\<rfloor>)" by (simp only: of_nat_le_iff)
  also have "rat_of_nat (nat \<lfloor>x\<rfloor>) = of_int \<lfloor>x\<rfloor>" using True by simp
  also have "\<dots> \<le> x" by simp
  finally have low: "2 ^ (k - 1) \<le> x" by simp
  have e: "magnitude x = int (k - 1)" using True k by (simp add: magnitude_def k_def of_nat_diff)
  then have "k - 1 \<le> 52" using magnitude_le [OF assms] by simp
  then have "(2 :: rat) ^ 52 = 2 ^ (k - 1) * 2 ^ (52 - (k - 1))" by (simp flip: power_add)
  also have "\<dots> \<le> x * 2 ^ (52 - (k - 1))" using low by simp
  also have "52 - (k - 1) = nat (52 - magnitude x)" by (simp add: e nat_diff_distrib)
  finally show ?thesis .
next
  case False
  define k where "k = floorlog 2 (nat (\<lceil>1 / x\<rceil> - 1))"
  have "nat (\<lceil>1 / x\<rceil> - 1) < 2 ^ k" by (rule floorlog_leD) (simp_all add: k_def)
  then have "\<lceil>1 / x\<rceil> - 1 < 2 ^ k" by (simp add: nat_less_iff zless_nat_conj)
  then have "\<lceil>1 / x\<rceil> \<le> 2 ^ k" by simp
  then have "1 / x \<le> 2 ^ k" by (simp add: ceiling_le_iff)
  then have "1 \<le> x * 2 ^ k" using assms(1) by (simp add: field_simps)
  then have "(2 :: rat) ^ 52 \<le> x * 2 ^ k * 2 ^ 52" by simp
  also have "\<dots> = x * 2 ^ nat (52 - magnitude x)"
    using False by (simp add: magnitude_def k_def nat_add_distrib power_add)
  finally show ?thesis .
qed

lemma float64_eq:
  assumes "0 < x" and "x < 2 ^ 53"
  shows "float64 x = of_int (roundEven (x * 2 ^ nat (52 - magnitude x))) / 2 ^ nat (52 - magnitude x)"
  using assms magnitude_le [OF assms] by (simp add: float64_def Let_def)

text \<open>Rounding does not pass an integer, and errs by at most one part in \<open>2 ^ 53\<close>.\<close>

lemma float64_ge:
  assumes "0 \<le> n" and "of_int n \<le> x" and "x < 2 ^ 53"
  shows "of_int n \<le> float64 x"
proof (cases "x = 0")
  case True
  then show ?thesis using assms by (simp add: float64_def)
next
  case False
  with assms have x: "0 < x" by (metis of_int_0_le_iff order_le_less order_trans)
  let ?k = "nat (52 - magnitude x)"
  have "of_int (n * 2 ^ ?k) \<le> x * 2 ^ ?k" using assms(2) by simp
  then have "n * 2 ^ ?k \<le> roundEven (x * 2 ^ ?k)" by (rule roundEven_ge)
  then have "rat_of_int (n * 2 ^ ?k) \<le> of_int (roundEven (x * 2 ^ ?k))" by (simp only: of_int_le_iff)
  then show ?thesis by (simp add: float64_eq [OF x assms(3)] field_simps)
qed

lemma float64_le:
  assumes "0 \<le> x" and "x < 2 ^ 53"
  shows "float64 x \<le> x * (1 + 1 / 2 ^ 53)"
proof (cases "x = 0")
  case True
  then show ?thesis by (simp add: float64_def)
next
  case False
  with assms have x: "0 < x" by simp
  let ?u = "2 ^ nat (52 - magnitude x) :: rat"
  have "of_int (roundEven (x * ?u)) \<le> x * ?u + 1 / 2" using roundEven_error [of "x * ?u"] by linarith
  also have "\<dots> \<le> x * ?u + x * ?u / 2 ^ 53" using magnitude_scaled [OF x assms(2)] by simp
  also have "\<dots> = x * (1 + 1 / 2 ^ 53) * ?u" by (simp add: algebra_simps)
  finally show ?thesis by (simp add: float64_eq [OF x assms(2)] field_simps)
qed

end
