(* ===== verification/Volmig.thy ===== *)
theory Volmig
  imports Trace_Logic Terminal Floating
begin

section \<open>The command line tool: environment and plain commands (cmd/volmig/cmd)\<close>

text \<open>
  The user's side of the system: \<^verbatim>\<open>volmig\<close> creates, lists, shows and deletes VolumeResize objects.
  A command is the function that cobra calls with the parsed flags and one argument; its result is
  the exit status of the process, and its history records what it wrote to the terminal and its calls
  with their responses. The API server, the configuration, the clock and the time zone are the
  \<open>client\<close>, as for the operator. The commands that may watch a migration are in theory Watch.
\<close>

subsection \<open>Flags\<close>

text \<open>The global variables that the flags of the commands set (\<^verbatim>\<open>root.go\<close>, \<^verbatim>\<open>create.go\<close>, \<dots>).\<close>

record flags =
  f_kubeconfig :: string
  f_namespace :: string
  f_statefulSetName :: string
  f_volumeName :: string
  f_newSize :: string
  f_storageClass :: string
  f_watch :: bool
  f_allNamespaces :: bool
  f_outputFormat :: string
  f_followStatus :: bool

text \<open>\<^verbatim>\<open>'%s'\<close>\<close>

definition quoted :: "string \<Rightarrow> string" where
  "quoted s = [CHR 0x27] @ s @ [CHR 0x27]"

subsection \<open>root.go\<close>

definition phasePending :: string where "phasePending = ''Pending''"
definition phaseCompleted :: string where "phaseCompleted = ''Completed''"
definition phaseFailed :: string where "phaseFailed = ''Failed''"
definition outputFormatWide :: string where "outputFormatWide = ''wide''"

definition getKubeConfig :: "client \<Rightarrow> flags \<Rightarrow> go_error + string" where
  "getKubeConfig c f =
     (case c_inClusterConfig c of
        Inr config \<Rightarrow> Inr config
      | Inl _ \<Rightarrow>
          if f_kubeconfig f = ''''
          then Inl (errorf ''kubeconfig not specified and not running in cluster'')
          else c_buildConfig c (f_kubeconfig f))"

text \<open>The model has one client; what is returned is the error, if none could be made.\<close>

definition getClient :: "client \<Rightarrow> flags \<Rightarrow> go_error option" where
  "getClient c f =
     (case getKubeConfig c f of
        Inl e \<Rightarrow> Some (wrapf ''failed to get kubeconfig'' e)
      | Inr config \<Rightarrow>
          (case c_newClient c config of
             Some e \<Rightarrow> Some (wrapf ''failed to create client'' e)
           | None \<Rightarrow> None))"

definition exitWithError :: "string \<Rightarrow> go_error \<Rightarrow> int io" where
  "exitWithError msg e = do { _ \<leftarrow> PrintErr (''Error: '' @ msg @ '': '' @ errText e @ nl); ret 1 }"

text \<open>
  The opening that \<open>delete\<close>, \<open>status\<close>, \<open>describe\<close> share: the client, then the object of that
  name; \<open>Inl\<close> is the exit status after an error.
\<close>

definition openResize :: "client \<Rightarrow> flags \<Rightarrow> string \<Rightarrow> (int + VolumeResize) io" where
  "openResize c f name =
     (case getClient c f of
        Some e \<Rightarrow> do { code \<leftarrow> exitWithError ''failed to create kubernetes client'' e; ret (Inl code) }
      | None \<Rightarrow> do {
          r \<leftarrow> GetVR c (f_namespace f) name;
          case r of
            Inl e \<Rightarrow> do { code \<leftarrow> exitWithError ''failed to get volumeresize'' e; ret (Inl code) }
          | Inr vr \<Rightarrow> ret (Inr vr)
        })"

subsection \<open>version.go, delete.go\<close>

text \<open>The three variables are set when the program is built.\<close>

definition runVersion :: "string \<Rightarrow> string \<Rightarrow> string \<Rightarrow> int io" where
  "runVersion Version GitCommit BuildDate = do {
     _ \<leftarrow> Print (''volmig version '' @ Version @ nl @
              ''  Git commit: '' @ GitCommit @ nl @
              ''  Build date: '' @ BuildDate @ nl);
     ret 0
   }"

definition runDelete :: "client \<Rightarrow> flags \<Rightarrow> string \<Rightarrow> int io" where
  "runDelete c f name = do {
     r \<leftarrow> openResize c f name;
     case r of
       Inl code \<Rightarrow> ret code
     | Inr vr \<Rightarrow> do {
         d \<leftarrow> DeleteVR c (vrNamespace vr) (vrName vr);
         case d of
           Some e \<Rightarrow> exitWithError ''failed to delete volumeresize'' e
         | None \<Rightarrow> do { _ \<leftarrow> Print (''VolumeResize '' @ quoted name @ '' deleted'' @ nl); ret 0 }
       }
   }"

end
