(* ===== verification/Listing.thy ===== *)
theory Listing
  imports Volmig
begin

section \<open>Listing and describing (cmd/volmig/cmd/list.go, describe.go)\<close>

text \<open>
  What \<^verbatim>\<open>volmig list\<close> and \<^verbatim>\<open>volmig describe\<close> write. The text is built as in the code, line by
  line; \<open>line\<close> is a \<^verbatim>\<open>Println\<close> of one string.
\<close>

definition line :: "string \<Rightarrow> string" where
  "line s = s @ nl"

text \<open>A line that is written only when the value is there (not nil, not empty).\<close>

definition lineIf :: "string \<Rightarrow> string \<Rightarrow> string" where
  "lineIf prefix s = (if s \<noteq> '''' then line (prefix @ s) else '''')"

definition dateTime :: string where "dateTime = ''2006-01-02 15:04:05''"

text \<open>A \<^verbatim>\<open>metav1.Time\<close> that is not a pointer: the zero time when nothing was set.\<close>

definition timeValue :: "int option \<Rightarrow> int" where
  "timeValue t = (case t of None \<Rightarrow> zeroTime | Some n \<Rightarrow> n)"

text \<open>An empty phase is shown as Pending.\<close>

definition shownPhase :: "VolumeResize \<Rightarrow> string" where
  "shownPhase vr = (if vrPhase vr = '''' then phasePending else vrPhase vr)"

text \<open>\<^verbatim>\<open>message[:n-3] + "..."\<close> when there are more than \<open>n\<close> bytes.\<close>

definition shorten :: "nat \<Rightarrow> string \<Rightarrow> string" where
  "shorten n message = (if n < length message then take (n - 3) message @ ''...'' else message)"

subsection \<open>Ages\<close>

text \<open>\<^verbatim>\<open>Seconds\<close>, \<^verbatim>\<open>Minutes\<close> and \<^verbatim>\<open>Hours\<close> of a duration: its whole units plus the rest as a fraction.\<close>

definition inUnits :: "duration \<Rightarrow> duration \<Rightarrow> rat" where
  "inUnits unit d = float64 (of_int (goDiv d unit) + float64 (of_int (goMod d unit) / of_int unit))"

definition formatAge :: "duration \<Rightarrow> string" where
  "formatAge d =
     (if d < minute then showInt (truncInt (inUnits second d)) @ ''s''
      else if d < hour then showInt (truncInt (inUnits minute d)) @ ''m''
      else if d < 24 * hour then showInt (truncInt (inUnits hour d)) @ ''h''
      else showInt (truncInt (float64 (inUnits hour d / 24))) @ ''d'')"

subsection \<open>list.go\<close>

definition listHeader :: "flags \<Rightarrow> string" where
  "listHeader f =
     (if f_allNamespaces f then ''NAMESPACE'' @ tab else '''') @
     ''NAME'' @ tab @ ''STATEFULSET'' @ tab @ ''PHASE'' @ tab @ ''REPLICA'' @ tab @ ''MESSAGE'' @
     (if f_outputFormat f = outputFormatWide then tab @ ''VOLUMES'' @ tab @ ''AGE'' else '''')"

text \<open>The builder of lines 134-140: a comma before every volume but the first.\<close>

definition volumesText :: "client \<Rightarrow> VolumeResizeTarget list \<Rightarrow> string" where
  "volumesText c vols =
     concat (map (\<lambda>(i, vol). (if 0 < i then '','' else '''') @
         vt_name vol @ '':'' @ l_quantityString c (vt_newSize vol)) (enumerate 0 vols))"

text \<open>The row of an object; \<open>now\<close> is the clock, which the wide format reads once per row.\<close>

definition listRow :: "client \<Rightarrow> flags \<Rightarrow> int \<Rightarrow> VolumeResize \<Rightarrow> string" where
  "listRow c f now vr =
     (let phase = shownPhase vr;
          replica = (case st_currentReplica (vr_status vr) of None \<Rightarrow> ''-'' | Some r \<Rightarrow> showInt32 r);
          maxMsgLen = (if f_outputFormat f = outputFormatWide then 60 else 40);
          message = shorten maxMsgLen (st_message (vr_status vr))
      in (if f_allNamespaces f then vrNamespace vr @ tab else '''') @
         vrName vr @ tab @ vrSTS vr @ tab @ phase @ tab @ replica @ tab @ message @
         (if f_outputFormat f = outputFormatWide
          then tab @ volumesText c (vrVolumes vr) @ tab @
               formatAge (timeSub now (timeValue (om_creationTimestamp (vr_meta vr))))
          else ''''))"

fun listRows :: "client \<Rightarrow> flags \<Rightarrow> VolumeResize list \<Rightarrow> string io" where
  "listRows c f [] = ret ''''"
| "listRows c f (vr # vrs) = do {
     now \<leftarrow> (if f_outputFormat f = outputFormatWide then Now c else ret 0);
     rest \<leftarrow> listRows c f vrs;
     ret (line (listRow c f now vr) @ rest)
   }"

definition runList :: "client \<Rightarrow> flags \<Rightarrow> int io" where
  "runList c f =
     (case getClient c f of
        Some e \<Rightarrow> exitWithError ''failed to create kubernetes client'' e
      | None \<Rightarrow> do {
          r \<leftarrow> ListVR c (if f_allNamespaces f then None else Some (f_namespace f));
          case r of
            Inl e \<Rightarrow> exitWithError ''failed to list volumeresizes'' e
          | Inr items \<Rightarrow>
              if items = [] then do {
                _ \<leftarrow> Print (line (if f_allNamespaces f then ''No VolumeResize resources found in any namespace''
                            else ''No VolumeResize resources found in namespace '' @ quoted (f_namespace f)));
                ret 0
              }
              else do {
                rows \<leftarrow> listRows c f items;
                _ \<leftarrow> Print (tabwriter (line (listHeader f) @ rows));
                ret 0
              }
        })"

subsection \<open>describe.go\<close>

definition describeVolume :: "client \<Rightarrow> VolumeResizeTarget \<Rightarrow> string" where
  "describeVolume c vol =
     line (''    - Name:     '' @ vt_name vol) @
     line (''      NewSize:  '' @ l_quantityString c (vt_newSize vol)) @
     (case vt_storageClass vol of None \<Rightarrow> '''' | Some sc \<Rightarrow> line (''      StorageClass: '' @ sc))"

text \<open>The times of \<^verbatim>\<open>status\<close> and \<^verbatim>\<open>describe\<close>, which differ in the text before them.\<close>

definition timingText :: "client \<Rightarrow> string \<Rightarrow> string \<Rightarrow> string \<Rightarrow> VolumeResizeStatus \<Rightarrow> string" where
  "timingText c started completed took s =
     (case st_startTime s of None \<Rightarrow> '''' | Some t \<Rightarrow> line (started @ l_formatTime c dateTime t)) @
     (case st_completionTime s of None \<Rightarrow> ''''
      | Some t \<Rightarrow> line (completed @ l_formatTime c dateTime t) @
          (case st_startTime s of None \<Rightarrow> ''''
           | Some u \<Rightarrow> line (took @ showDuration (roundDuration (timeSub t u) 1))))"

definition describeEntry :: "VolumeStatus \<Rightarrow> string" where
  "describeEntry vs =
     line (''  - Volume: '' @ vs_volumeName vs @ '', Replica: '' @ showInt32 (vs_replica vs)) @
     line (''    Phase:    '' @ vs_phase vs) @
     lineIf ''    OldPVC:   '' (vs_oldPVCName vs) @
     lineIf ''    NewPVC:   '' (vs_newPVCName vs) @
     lineIf ''    OldPV:    '' (vs_oldPVName vs) @
     lineIf ''    Message:  '' (vs_message vs)"

definition describeCondition :: "Condition \<Rightarrow> string" where
  "describeCondition cond =
     line (''  - Type: '' @ cond_type cond) @
     line (''    Status: '' @ cond_status cond) @
     lineIf ''    Reason: '' (cond_reason cond) @
     lineIf ''    Message: '' (cond_message cond)"

definition describeSpec :: "client \<Rightarrow> VolumeResize \<Rightarrow> string" where
  "describeSpec c vr =
     line (''Name:         '' @ vrName vr) @
     line (''Namespace:    '' @ vrNamespace vr) @
     line (''Created:      '' @ l_formatTime c dateTime (timeValue (om_creationTimestamp (vr_meta vr)))) @
     nl @
     line ''Spec:'' @
     line (''  StatefulSet:  '' @ vrSTS vr) @
     line ''  Volumes:'' @
     concat (map (describeVolume c) (vrVolumes vr)) @
     nl"

definition describeStatus :: "client \<Rightarrow> VolumeResize \<Rightarrow> string" where
  "describeStatus c vr =
     (let s = vr_status vr in
      line ''Status:'' @
      line (''  Phase:        '' @ shownPhase vr) @
      (case st_currentReplica s of None \<Rightarrow> '''' | Some r \<Rightarrow> line (''  CurrentReplica: '' @ showInt32 r)) @
      lineIf ''  CurrentVolume:  '' (st_currentVolume s) @
      lineIf ''  Message:      '' (st_message s) @
      lineIf ''  BackupConfigMap: '' (st_backupConfigMapName s) @
      timingText c ''  StartTime:    '' ''  CompletionTime: '' ''  Duration:     '' s @
      (if st_volumeStatuses s = [] then ''''
       else nl @ line ''Volume Statuses:'' @ concat (map describeEntry (st_volumeStatuses s))) @
      (if st_conditions s = [] then ''''
       else nl @ line ''Conditions:'' @ concat (map describeCondition (st_conditions s))))"

definition runDescribe :: "client \<Rightarrow> flags \<Rightarrow> string \<Rightarrow> int io" where
  "runDescribe c f name = do {
     r \<leftarrow> openResize c f name;
     case r of
       Inl code \<Rightarrow> ret code
     | Inr vr \<Rightarrow> do { _ \<leftarrow> Print (describeSpec c vr @ describeStatus c vr); ret 0 }
   }"

end
