(* ===== verification/Ages.thy ===== *)
theory Ages
  imports Listing
begin

section \<open>Ages and durations\<close>

text \<open>
  How far the texts of \<^verbatim>\<open>volmig\<close> are from the times they stand for: \<open>formatAge\<close> computes with
  floating point numbers, \<open>roundDuration\<close> saturates.
\<close>

subsection \<open>Whole units of a duration\<close>

lemma goDiv_nonneg: "0 \<le> d \<Longrightarrow> 0 < unit \<Longrightarrow> goDiv d unit = d div unit"
  by (cases "d = 0") (simp_all add: goDiv_def sgn_if)

lemma goMod_nonneg: "0 \<le> d \<Longrightarrow> 0 < unit \<Longrightarrow> goMod d unit = d mod unit"
  by (simp add: goMod_def goDiv_nonneg minus_div_mult_eq_mod)

lemma truncInt_nonneg: "0 \<le> x \<Longrightarrow> truncInt x = \<lfloor>x\<rfloor>"
  by (simp add: truncInt_def)

abbreviation ulp_factor :: rat where
  "ulp_factor \<equiv> 1 + 1 / 2 ^ 53"

text \<open>The number of units is at least the whole ones and at most two rounding errors too large.\<close>

lemma inUnits_bounds:
  assumes d: "0 \<le> d" "d \<le> maxDuration" and unit: "second \<le> unit"
  shows "of_int (d div unit) \<le> inUnits unit d"
    and "inUnits unit d \<le> of_int d / of_int unit * ulp_factor ^ 2"
    and "inUnits unit d < 2 ^ 53"
proof -
  have u: "0 < unit" using unit second_pos by linarith
  define q r where "q = d div unit" and "r = d mod unit"
  have q0: "0 \<le> q" and r0: "0 \<le> r" "r < unit" and split: "d = q * unit + r"
    using d(1) u by (simp_all add: q_def r_def pos_imp_zdiv_nonneg_iff)
  define x :: rat where "x = of_int r / of_int unit"
  have x: "0 \<le> x" "x < 1" using r0 u by (simp_all add: x_def)
  have exact: "of_int d / of_int unit = of_int q + x"
    using u by (simp add: split x_def add_divide_distrib)
  have "q \<le> d div second"
    unfolding q_def using unit d(1) second_pos by (intro zdiv_mono2) auto
  also have "\<dots> \<le> maxDuration div second"
    using d(2) second_pos by (intro zdiv_mono1) auto
  also have "\<dots> \<le> 10 ^ 10"
    by (simp add: maxDuration_def second_def)
  finally have "(of_int q :: rat) \<le> of_int (10 ^ 10)" by (simp only: of_int_le_iff)
  then have q1: "(of_int q :: rat) \<le> 10 ^ 10" by simp
  define y where "y = of_int q + float64 x"
  have fx: "0 \<le> float64 x" "float64 x \<le> x * ulp_factor"
    using float64_ge [of 0 x] float64_le [of x] x by simp_all
  have y: "of_int q \<le> y" "y \<le> (of_int q + x) * ulp_factor"
    using fx q0 by (simp_all add: y_def algebra_simps)
  have y53: "y < 2 ^ 53 - 2"
    using fx(2) x q1 by (simp add: y_def)
  have eq: "inUnits unit d = float64 y"
    by (simp add: inUnits_def goDiv_nonneg goMod_nonneg d(1) u y_def x_def q_def r_def)
  show "of_int (d div unit) \<le> inUnits unit d"
    using float64_ge [OF q0 y(1)] y53 by (simp add: eq q_def)
  have le: "float64 y \<le> y * ulp_factor"
    using float64_le [of y] y(1) q0 y53 by (simp add: order_trans [OF _ y(1)])
  also have "\<dots> \<le> (of_int q + x) * ulp_factor * ulp_factor"
    using y(2) by (intro mult_right_mono) auto
  finally show "inUnits unit d \<le> of_int d / of_int unit * ulp_factor ^ 2"
    by (simp add: eq exact power2_eq_square)
  show "inUnits unit d < 2 ^ 53"
    using le y53 by (simp add: eq)
qed

lemma inUnits_whole:
  assumes "0 \<le> d" and "d \<le> maxDuration" and "second \<le> unit" and "unit \<le> hour" and "d < 60 * unit"
  shows "truncInt (inUnits unit d) = d div unit"
proof -
  have u: "0 < unit" using assms(3) second_pos by linarith
  note bounds = inUnits_bounds [OF assms(1-3)]
  define q where "q = d div unit"
  have "d = q * unit + d mod unit" "d mod unit < unit"
    using u by (simp_all add: q_def)
  then have "d + 1 \<le> (q + 1) * unit"
    by (simp add: distrib_right)
  then have "rat_of_int (d + 1) \<le> of_int ((q + 1) * unit)"
    by (simp only: of_int_le_iff)
  then have top: "(of_int d :: rat) / of_int unit \<le> of_int q + 1 - 1 / of_int unit"
    using u by (simp add: field_simps)
  have "q * unit < 60 * unit"
    using \<open>d = q * unit + d mod unit\<close> pos_mod_sign [OF u, of d] assms(5) by linarith
  then have "q < 60" using u by simp
  then have q: "rat_of_int q \<le> 59" by simp
  have "1 / rat_of_int hour \<le> 1 / of_int unit"
    using assms(4) u by (intro divide_left_mono) (auto simp: hour_def minute_def second_def)
  with top have "of_int d / of_int unit \<le> rat_of_int q + 1 - 1 / of_int hour"
    by linarith
  then have "of_int d / of_int unit * ulp_factor ^ 2 \<le> (rat_of_int q + 1 - 1 / of_int hour) * ulp_factor ^ 2"
    by (intro mult_right_mono) auto
  also have "\<dots> < of_int q + 1"
    using q by (simp add: hour_def minute_def second_def power2_eq_square)
  finally have "inUnits unit d < of_int q + 1"
    using bounds(2) by linarith
  moreover have q0: "0 \<le> q" using assms(1) u by (simp add: q_def pos_imp_zdiv_nonneg_iff)
  ultimately have "\<lfloor>inUnits unit d\<rfloor> = q"
    using bounds(1) by (simp add: floor_eq_iff q_def)
  moreover have "0 \<le> inUnits unit d"
    using bounds(1) q0 by (simp add: q_def)
  ultimately show ?thesis
    by (simp add: truncInt_nonneg q_def)
qed

lemma whole_le: "0 < unit \<Longrightarrow> d div unit * unit \<le> d + 4096" for d :: int
  using div_mult_mod_eq [of d unit] pos_mod_sign [of unit d] by linarith

text \<open>The unit in which an age is shown, and its letter.\<close>

definition ageUnit :: "duration \<Rightarrow> duration \<times> string" where
  "ageUnit d = (if d < minute then (second, ''s'') else if d < hour then (minute, ''m'')
                else if d < 24 * hour then (hour, ''h'') else (24 * hour, ''d''))"

lemma days_bounds:
  assumes "24 * hour \<le> d" and "d \<le> maxDuration"
  defines "n \<equiv> truncInt (float64 (inUnits hour d / 24))"
  shows "d div (24 * hour) \<le> n" and "n * (24 * hour) \<le> d + 4096"
proof -
  have h: "0 < hour" "second \<le> hour" "0 \<le> d"
    using assms(1) by (simp_all add: hour_def minute_def second_def)
  note bounds = inUnits_bounds [OF h(3) assms(2) h(2)]
  let ?x = "inUnits hour d / 24"
  have "24 * (d div hour div 24) \<le> d div hour" by simp
  then have "rat_of_int (24 * (d div (24 * hour))) \<le> of_int (d div hour)"
    by (simp only: of_int_le_iff zdiv_zmult2_eq mult.commute [of 24 hour])
  then have whole: "of_int (d div (24 * hour)) \<le> ?x"
    using bounds(1) by (simp add: field_simps)
  have n0: "0 \<le> d div (24 * hour)"
    using h by (simp add: pos_imp_zdiv_nonneg_iff)
  have x: "0 \<le> ?x" "?x < 2 ^ 53"
    using whole n0 bounds(3) by (auto intro: order_trans [of _ "of_int (d div (24 * hour))"])
  have low: "of_int (d div (24 * hour)) \<le> float64 ?x"
    by (rule float64_ge [OF n0 whole x(2)])
  then have "0 \<le> float64 ?x"
    using n0 by (meson of_int_0_le_iff order_trans)
  then have n: "n = \<lfloor>float64 ?x\<rfloor>"
    by (simp add: n_def truncInt_nonneg)
  show "d div (24 * hour) \<le> n"
    using low by (simp add: n le_floor_iff)
  have "of_int n \<le> float64 ?x" by (simp add: n)
  also have "\<dots> \<le> ?x * ulp_factor" by (rule float64_le [OF x])
  also have "\<dots> \<le> of_int d / of_int hour * ulp_factor ^ 2 / 24 * ulp_factor"
    using bounds(2) by (intro mult_right_mono) auto
  finally have "of_int n * 24 * of_int hour \<le> of_int d * ulp_factor ^ 3"
    using h by (simp add: field_simps power2_eq_square power3_eq_cube)
  also have "of_int d * ulp_factor ^ 3 \<le> of_int d * (1 + 1 / 2 ^ 51 :: rat)"
    using h(3) by (intro mult_left_mono) (simp_all add: power3_eq_cube)
  also have "\<dots> \<le> of_int d + 4096"
  proof -
    have "rat_of_int d \<le> of_int maxDuration" using assms(2) by simp
    then show ?thesis by (simp add: maxDuration_def field_simps)
  qed
  finally have "rat_of_int (n * (24 * hour)) \<le> of_int (d + 4096)" by (simp add: mult.assoc)
  then show "n * (24 * hour) \<le> d + 4096" by (simp only: of_int_le_iff)
qed

text \<open>
  C40: The age that \<^verbatim>\<open>volmig list\<close> shows, in floating point arithmetic, is the number of whole
  seconds, minutes or hours, exactly; a number of days is at least the whole days, and more only when
  less than 4.1 microseconds are missing to the next day.
\<close>

theorem age_bounds:
  assumes "0 \<le> d" and "d \<le> maxDuration"
  shows "\<exists>n. formatAge d = showInt n @ snd (ageUnit d) \<and>
    d div fst (ageUnit d) \<le> n \<and> n * fst (ageUnit d) \<le> d + 4096 \<and> (d < 24 * hour \<longrightarrow> n = d div fst (ageUnit d))"
proof -
  have units: "second \<le> minute" "second \<le> hour" "minute \<le> hour" "0 < second" "0 < minute" "0 < hour"
    and sixty: "minute = 60 * second" "hour = 60 * minute" "24 * hour < 60 * hour"
    by (simp_all add: hour_def minute_def second_def)
  consider "d < minute" | "minute \<le> d" "d < hour" | "hour \<le> d" "d < 24 * hour" | "24 * hour \<le> d"
    by linarith
  then show ?thesis
  proof cases
    case 1
    with inUnits_whole [OF assms, of second] units sixty show ?thesis
      by (auto simp: formatAge_def ageUnit_def whole_le)
  next
    case 2
    with inUnits_whole [OF assms, of minute] units sixty show ?thesis
      by (auto simp: formatAge_def ageUnit_def whole_le)
  next
    case 3
    with inUnits_whole [OF assms, of hour] units sixty show ?thesis
      by (auto simp: formatAge_def ageUnit_def whole_le)
  next
    case 4
    with days_bounds [OF this assms(2)] units show ?thesis
      by (intro exI [of _ "truncInt (float64 (inUnits hour d / 24))"]) (auto simp: formatAge_def ageUnit_def)
  qed
qed

theorem age_bounds_witness: "\<exists>n. formatAge (90 * minute) = showInt n @ ''h'' \<and> n = 1"
  using age_bounds [of "90 * minute"]
  by (simp add: ageUnit_def maxDuration_def hour_def minute_def second_def)

subsection \<open>Rounding\<close>

lemma abs_goMod:
  assumes "0 < m"
  shows "\<bar>goMod d m\<bar> = \<bar>d\<bar> mod m"
proof -
  have "goMod d m = sgn d * (\<bar>d\<bar> - \<bar>d\<bar> div m * m)"
    using assms by (simp add: goMod_def goDiv_def right_diff_distrib mult_sgn_abs mult.assoc)
  then have "goMod d m = sgn d * (\<bar>d\<bar> mod m)"
    by (simp only: minus_div_mult_eq_mod)
  with assms show ?thesis
    by (cases "d = 0") (simp_all only: abs_mult abs_sgn_eq_1, simp_all)
qed

text \<open>
  The duration that is shown when a migration is completed is a multiple of the unit it was
  rounded to, and no multiple is nearer: it differs by at most half a unit. (Saturation is out of
  reach for durations and units below 146 years.)
\<close>

theorem round_to_nearest:
  assumes "0 < m" and "m \<le> 2 ^ 62" and "\<bar>d\<bar> \<le> 2 ^ 62"
  shows "m dvd roundDuration d m \<and> 2 * \<bar>roundDuration d m - d\<bar> \<le> m"
proof -
  define r where "r = \<bar>d\<bar> mod m"
  have r: "0 \<le> r" "r < m" using assms(1) by (simp_all add: r_def)
  have down: "m dvd \<bar>d\<bar> - r" by (simp add: r_def)
  have up: "m dvd \<bar>d\<bar> - r + m" using down by simp
  have g: "\<bar>goMod d m\<bar> = r"
    using assms(1) by (simp add: abs_goMod r_def)
  show ?thesis
  proof (cases "d < 0")
    case True
    have "m dvd - (\<bar>d\<bar> - r)" "m dvd - (\<bar>d\<bar> - r + m)" using down up by (simp_all only: dvd_minus_iff)
    with True g r assms show ?thesis
      by (auto simp: roundDuration_def Let_def minDuration_def algebra_simps)
  next
    case False
    with g r down up assms show ?thesis
      by (auto simp: roundDuration_def Let_def maxDuration_def algebra_simps)
  qed
qed

theorem round_to_nearest_witness:
  "second dvd roundDuration 1500000000 second \<and> 2 * \<bar>roundDuration 1500000000 second - 1500000000\<bar> \<le> second"
  by (rule round_to_nearest) (simp_all add: second_def)

end
