(* ===== verification/Schema.thy ===== *)
theory Schema
  imports Simulation
begin

section \<open>The status stays within the schema of the resource\<close>

text \<open>
  The resource definition restricts the phases, of the object and of each entry, to an enumeration
  (the \<^verbatim>\<open>Enum\<close> markers of \<^verbatim>\<open>volumeresize_types.go\<close>); the API server rejects anything else. The Go
  types do not know this: a phase is a string. This theory proves it of the handlers, as a type
  invariant of the object they pass along.
\<close>

subsection \<open>The schema\<close>

text \<open>Line 85 (an empty phase is omitted) and line 62.\<close>

definition objectPhases :: "string list" where
  "objectPhases = ['''', ''Pending'', ''Validating'', ''Syncing'', ''Replacing'', ''Completed'', ''Failed'']"

definition entryPhases :: "string list" where
  "entryPhases = [''Pending'', ''Syncing'', ''Synced'', ''Replacing'', ''Completed'', ''Failed'']"

definition wellFormed :: "VolumeResizeStatus \<Rightarrow> bool" where
  "wellFormed s \<longleftrightarrow> st_phase s \<in> set objectPhases \<and>
     list_all (\<lambda>e. vs_phase e \<in> set entryPhases) (st_volumeStatuses s)"

text \<open>What an API server with this schema answers to updates.\<close>

definition enforces_schema :: "client \<Rightarrow> bool" where
  "enforces_schema c \<longleftrightarrow>
     (\<forall>h v w. c_updateVR c h v = Inr w \<longrightarrow> wellFormed (vr_status w)) \<and>
     (\<forall>h v w. c_statusVR c h v = Inr w \<longrightarrow> wellFormed (vr_status w))"

fun schema_policy :: policy where
  "schema_policy h (EvUpdateVR v res) \<longleftrightarrow> wellFormed (vr_status v)"
| "schema_policy h (EvStatusVR v res) \<longleftrightarrow> wellFormed (vr_status v)"
| "schema_policy h (EvCreateVR v res) \<longleftrightarrow> wellFormed (vr_status v)"
| "schema_policy h _ \<longleftrightarrow> True"

interpretation schema: policy_free schema_policy "\<lambda>e. \<not> touches_vr e"
proof
  show "\<not> touches_vr e \<Longrightarrow> schema_policy h e" for h e
    by (cases e) simp_all
qed

subsection \<open>Changes of the status within the schema\<close>

lemma setFirstStatus_phases:
  "list_all (\<lambda>e. vs_phase e \<in> P) es \<Longrightarrow> p \<in> P \<Longrightarrow>
     list_all (\<lambda>e. vs_phase e \<in> P) (setFirstStatus v r p m es)"
  by (induction es) auto

lemma wellFormed_mark:
  "wellFormed (vr_status vr) \<Longrightarrow> p \<in> set entryPhases \<Longrightarrow> wellFormed (vr_status (updateVolumeStatus vr v r p m))"
  by (simp add: wellFormed_def updateVolumeStatus_def setFirstStatus_phases)

lemma wellFormed_record:
  "wellFormed s \<Longrightarrow> wellFormed (s\<lparr>st_volumeStatuses := updateVolumeStatusInList (st_volumeStatuses s) v r (recordNames a b p)\<rparr>)"
  by (auto simp: wellFormed_def updateVolumeStatusInList_def recordNames_def list_all_iff)

lemma entry_phases [simp]:
  "VolumeStatusPending \<in> set entryPhases" "VolumeStatusSyncing \<in> set entryPhases"
  "VolumeStatusSynced \<in> set entryPhases" "VolumeStatusCompleted \<in> set entryPhases"
  by (simp_all add: volume_status_defs entryPhases_def)

lemma object_phases [simp]:
  "PhaseValidating \<in> set objectPhases" "PhaseSyncing \<in> set objectPhases"
  "PhaseCompleted \<in> set objectPhases" "PhaseFailed \<in> set objectPhases"
  by (simp_all add: phase_defs objectPhases_def)

lemma initialStatuses_phases:
  "list_all (\<lambda>e. vs_phase e \<in> set entryPhases) (initialStatuses vols i n)"
proof (induction vols i n rule: initialStatuses.induct)
  case (1 vols i n)
  then show ?case
    by (subst initialStatuses.simps) (auto simp: initialStatus_def list_all_iff)
qed

lemma wellFormed_changes:
  assumes "wellFormed s"
  shows "wellFormed (s\<lparr>st_phase := PhaseFailed, st_message := m\<rparr>)"
    and "wellFormed (completedStatus now s)" and "wellFormed (nextStatus r v s)"
    and "wellFormed (s\<lparr>st_backupConfigMapName := nm\<rparr>)"
    and "wellFormed (s\<lparr>st_startTime := t, st_volumeStatuses := [], st_phase := PhaseValidating, st_message := m\<rparr>)"
    and "wellFormed (s\<lparr>st_phase := PhaseCompleted, st_completionTime := t, st_message := m\<rparr>)"
    and "wellFormed (s\<lparr>st_volumeStatuses := st_volumeStatuses s @ initialStatuses vols i n, st_phase := PhaseSyncing,
           st_currentReplica := r', st_currentVolume := v', st_message := m\<rparr>)"
  using assms
  by (simp_all add: wellFormed_def completedStatus_def nextStatus_def initialStatuses_phases)

subsection \<open>Every stage stays within the schema\<close>

abbreviation conforms :: "'a io \<Rightarrow> history \<Rightarrow> bool" where
  "conforms m h \<equiv> wp m (stays schema_policy) h"

lemma schema_StatusUpdateVR:
  assumes "enforces_schema c" and "compliant schema_policy h" and "wellFormed (vr_status v)"
    and "\<And>e h'. compliant schema_policy h' \<Longrightarrow> Q (Inl e) h'"
    and "\<And>w h'. compliant schema_policy h' \<Longrightarrow> wellFormed (vr_status w) \<Longrightarrow> Q (Inr w) h'"
  shows "wp (StatusUpdateVR c v) Q h"
  using assms by (cases "c_statusVR c h v") (auto simp: StatusUpdateVR_def wp_perform enforces_schema_def)

lemma schema_UpdateVR:
  assumes "enforces_schema c" and "compliant schema_policy h" and "wellFormed (vr_status v)"
    and "\<And>e h'. compliant schema_policy h' \<Longrightarrow> Q (Inl e) h'"
    and "\<And>w h'. compliant schema_policy h' \<Longrightarrow> wellFormed (vr_status w) \<Longrightarrow> Q (Inr w) h'"
  shows "wp (UpdateVR c v) Q h"
  using assms by (cases "c_updateVR c h v") (auto simp: UpdateVR_def wp_perform enforces_schema_def)

lemma schema_elsewhere:
  "leaves_vr m \<Longrightarrow> compliant schema_policy h \<Longrightarrow> (\<And>x h'. compliant schema_policy h' \<Longrightarrow> Q x h') \<Longrightarrow> wp m Q h"
  by (rule schema.wp_only)

lemma setFailed_conforms:
  assumes "enforces_schema c" "wellFormed (vr_status vr)" "compliant schema_policy h"
    and "\<And>out h'. compliant schema_policy h' \<Longrightarrow> Q out h'"
  shows "wp (setFailed c vr m) Q h"
  unfolding setFailed_def wp_bind
  by (rule schema_StatusUpdateVR [OF assms(1,3)]) (use assms in \<open>auto simp: wellFormed_changes\<close>)

lemma advance_conforms:
  assumes c: "enforces_schema c" and vr: "wellFormed (vr_status vr)" and h: "compliant schema_policy h"
  shows "conforms (advance c vr r v) h"
proof -
  have send: "wp (StatusUpdateVR c w) (\<lambda>u. wp (case u of Inl err \<Rightarrow> ret (failWith err) | Inr _ \<Rightarrow> ret requeue) (stays schema_policy)) h'"
    if "compliant schema_policy h'" "wellFormed (vr_status w)" for w h'
    by (rule schema_StatusUpdateVR [OF c that]) simp_all
  show ?thesis
    using h vr by (auto simp: advance_def Now_def wp_if wellFormed_changes
        intro!: send wp_call split: option.split)
qed

lemma awaitPod_conforms:
  assumes "enforces_schema c" "wellFormed (vr_status vr)" "compliant schema_policy h"
  shows "conforms (awaitPod c vr r v) h"
  unfolding awaitPod_def wp_bind
  by (rule schema_elsewhere [OF pod_calls_leave(4) assms(3)])
    (use assms in \<open>auto simp: wp_if intro: advance_conforms split: sum.split\<close>)

lemma restoreSTS_conforms:
  assumes c: "enforces_schema c" and vr: "wellFormed (vr_status vr)" and h: "compliant schema_policy h"
  shows "conforms (restoreSTS c vr r v) h"
proof -
  have clear: "wp (UpdateVR c (withMeta g vr)) (\<lambda>u. wp (case u of Inl err \<Rightarrow> ret (failWith err) | Inr w \<Rightarrow> awaitPod c w r v) (stays schema_policy)) h'"
    if "compliant schema_policy h'" for g h'
    by (rule schema_UpdateVR [OF c that]) (use vr in \<open>auto intro: awaitPod_conforms [OF c]\<close>)
  have again: "wp (recreateSTS c s) (\<lambda>created. wp (if (case created of None \<Rightarrow> False | Some err \<Rightarrow> \<not> IsAlreadyExists err)
      then setFailed c vr (m created)
      else do {
        u \<leftarrow> UpdateVR c (withMeta g vr);
        case u of Inl err \<Rightarrow> ret (failWith err) | Inr w \<Rightarrow> awaitPod c w r v }) (stays schema_policy)) h'"
    if "compliant schema_policy h'" for s m g h'
    by (rule schema_elsewhere [OF _ that])
      (auto simp: wp_case_result clear intro: leave_rules setFailed_conforms [OF c vr] split: option.split)
  show ?thesis
    unfolding restoreSTS_def wp_bind
    by (rule schema_elsewhere [OF _ h])
      (auto simp: again [unfolded wp_bind] intro: leave_rules setFailed_conforms [OF c vr] split: sum.split option.split)
qed

lemma swapVolume_conforms:
  assumes c: "enforces_schema c" and vr: "wellFormed (vr_status vr)" and h: "compliant schema_policy h"
  shows "conforms (swapVolume c vr vol r v) h"
proof -
  have synced: "wellFormed (vr_status (updateVolumeStatus vr v r VolumeStatusSynced m))" for m
    by (rule wellFormed_mark [OF vr]) simp
  have persist: "wp (StatusUpdateVR c (updateVolumeStatus w v r VolumeStatusCompleted m))
      (\<lambda>u. wp (case u of Inl err \<Rightarrow> ret (failWith err) | Inr vr \<Rightarrow> restoreSTS c vr r v) (stays schema_policy)) g"
    if "compliant schema_policy g" "wellFormed (vr_status w)" for w m g
    by (rule schema_StatusUpdateVR [OF c that(1) wellFormed_mark [OF that(2)]]) (auto intro: restoreSTS_conforms [OF c])
  show ?thesis
    unfolding swapVolume_def Let_def wp_bind
    by (rule schema_elsewhere [OF _ h])
      (auto simp: persist synced intro: leave_rules setFailed_conforms [OF c synced] split: option.split)
qed

lemma runMigration_conforms:
  assumes c: "enforces_schema c" and vr: "wellFormed (vr_status vr)" and h: "compliant schema_policy h"
  shows "conforms (runMigration c vr vol r v a b) h"
proof -
  let ?next = "\<lambda>ns' p'. \<lambda>early. wp (case early of Some out \<Rightarrow> ret out
      | None \<Rightarrow> do { _ \<leftarrow> cleanupMigratorPod c p' ns'; swapVolume c vr vol r v }) (stays schema_policy)"
  have swap: "wp (cleanupMigratorPod c p ns) (\<lambda>_. wp (swapVolume c vr vol r v) (stays schema_policy)) g"
    if "compliant schema_policy g" for p ns g
    by (rule schema_elsewhere [OF pod_calls_leave(2) that]) (rule swapVolume_conforms [OF c vr])
  have await: "wp (awaitMigration c vr pod) (?next ns' p') g" if "compliant schema_policy g" for pod p' ns' g
    unfolding awaitMigration_def wp_bind
    by (rule schema_elsewhere [OF quiet_leaves [OF waitForMigrationComplete_only] that])
      (auto simp: swap GetPod_def wp_if intro!: wp_call setFailed_conforms [OF c vr] split: option.split sum.split)
  show ?thesis
    unfolding runMigration_def wp_bind
    by (rule schema_elsewhere [OF pod_calls_leave(3) h])
      (auto simp: await [unfolded wp_bind] intro: setFailed_conforms [OF c vr] split: sum.split)
qed

lemma stopPod_conforms:
  assumes c: "enforces_schema c" and vr: "wellFormed (vr_status vr)" and h: "compliant schema_policy h"
  shows "conforms (stopPod c vr vol r v a b) h"
  unfolding stopPod_def Let_def wp_bind
  by (rule schema_elsewhere [OF pod_calls_leave(1) h], rule schema_elsewhere [OF quiet_leaves [OF waitForPodTermination_only]], assumption)
    (auto intro: runMigration_conforms [OF c vr] split: option.split)

lemma setFailed_early_conforms:
  assumes "enforces_schema c" "wellFormed (vr_status vr)" "compliant schema_policy h"
    and "\<And>out h'. compliant schema_policy h' \<Longrightarrow> Q (Inl out) h'"
  shows "wp (setFailed c vr m) (\<lambda>out. Q (Inl out)) h"
  by (rule setFailed_conforms [OF assms(1-3)]) (rule assms(4))

lemma markSTSDeleted_conforms:
  assumes c: "enforces_schema c" and vr: "wellFormed (vr_status vr)" and h: "compliant schema_policy h"
    and out: "\<And>out h'. compliant schema_policy h' \<Longrightarrow> Q (Inl out) h'"
    and marked: "\<And>w h'. compliant schema_policy h' \<Longrightarrow> wellFormed (vr_status w) \<Longrightarrow> Q (Inr w) h'"
  shows "wp (markSTSDeleted c vr) Q h"
proof -
  have name: "wp (StatusUpdateVR c (withStatus (\<lambda>s. s\<lparr>st_backupConfigMapName := nm\<rparr>) w))
      (\<lambda>u. wp (case u of Inl err \<Rightarrow> ret (Inl (failWith err)) | Inr w \<Rightarrow> ret (Inr w)) Q) g"
    if "compliant schema_policy g" "wellFormed (vr_status w)" for w nm g
    by (rule schema_StatusUpdateVR [OF c that(1)]) (use that in \<open>auto simp: wellFormed_changes intro: out marked\<close>)
  show ?thesis
    unfolding markSTSDeleted_def wp_bind
    by (rule schema_UpdateVR [OF c h]) (use vr in \<open>auto intro: out name\<close>)
qed

lemma orphanSTS_conforms:
  assumes c: "enforces_schema c" and vr: "wellFormed (vr_status vr)" and h: "compliant schema_policy h"
    and out: "\<And>out h'. compliant schema_policy h' \<Longrightarrow> Q (Inl out) h'"
    and gone: "\<And>w h'. compliant schema_policy h' \<Longrightarrow> wellFormed (vr_status w) \<Longrightarrow> Q (Inr w) h'"
  shows "wp (orphanSTS c vr) Q h"
proof -
  note fail = setFailed_early_conforms [where Q = Q, OF c vr _ out]
  have delete: "wp (deleteSTSOrphan c sts) (\<lambda>d. wp (case d of
        Inl err \<Rightarrow> do { out \<leftarrow> setFailed c vr (m err); ret (Inl out) }
      | Inr _ \<Rightarrow> markSTSDeleted c vr) Q) g" if "compliant schema_policy g" for sts m g
    by (rule schema_elsewhere [OF _ that])
      (auto simp: fail intro: leave_rules out gone markSTSDeleted_conforms [OF c vr] split: sum.split)
  have backup: "wp (backupSTSToConfigMap c vr sts) (\<lambda>b. wp (case b of
        Some err \<Rightarrow> do { out \<leftarrow> setFailed c vr (m err); ret (Inl out) }
      | None \<Rightarrow> do {
          d \<leftarrow> deleteSTSOrphan c sts;
          case d of Inl err \<Rightarrow> do { out \<leftarrow> setFailed c vr (m' err); ret (Inl out) }
          | Inr _ \<Rightarrow> markSTSDeleted c vr }) Q) g" if "compliant schema_policy g" for sts m m' g
    by (rule schema_elsewhere [OF _ that])
      (auto simp: fail delete [unfolded wp_bind] intro: leave_rules split: option.split)
  show ?thesis
    using h vr by (auto simp: orphanSTS_def wp_if GetSTS_def gone out
        intro!: wp_call backup [unfolded wp_bind] split: sum.split)
qed

lemma retainOldVolume_conforms:
  assumes c: "enforces_schema c" and vr: "wellFormed (vr_status vr)" and h: "compliant schema_policy h"
  shows "conforms (retainOldVolume c vr vol r v a b p) h"
proof -
  have recorded: "wellFormed (vr_status (withStatus (\<lambda>s. s\<lparr>st_volumeStatuses :=
      updateVolumeStatusInList (st_volumeStatuses s) v r (recordNames a b p)\<rparr>)
      (updateVolumeStatus vr v r VolumeStatusSyncing m)))" for m
    using wellFormed_mark [OF vr, of VolumeStatusSyncing v r m] by (simp add: wellFormed_record)
  show ?thesis
    unfolding retainOldVolume_def Let_def wp_bind
    by (rule schema_elsewhere [OF _ h])
      (auto intro: leave_rules setFailed_conforms [OF c vr] stopPod_conforms [OF c]
        intro!: orphanSTS_conforms [OF c recorded] split: option.split)
qed

lemma prepareClaims_conforms:
  assumes c: "enforces_schema c" and vr: "wellFormed (vr_status vr)" and h: "compliant schema_policy h"
  shows "conforms (prepareClaims c vr r v) h"
proof -
  have bind: "wp (mustWaitForBinding c t) (\<lambda>w. wp (if w \<and> pvc_phase t \<noteq> ClaimBound then ret (requeueAfter d)
      else retainOldVolume c vr vol r v a b p) (stays schema_policy)) g"
    if "compliant schema_policy g" for t d vol a b p g
    by (rule schema_elsewhere [OF quiet_leaves [OF mustWaitForBinding_reads] that])
      (auto simp: wp_if intro: retainOldVolume_conforms [OF c vr])
  have create: "wp (createTempPVC c vr vol q r) (\<lambda>t. wp (case t of Inl err \<Rightarrow> setFailed c vr (m err)
      | Inr tempPVC \<Rightarrow> do {
          w \<leftarrow> mustWaitForBinding c tempPVC;
          if w \<and> pvc_phase tempPVC \<noteq> ClaimBound then ret (requeueAfter d)
          else retainOldVolume c vr vol r v a b p }) (stays schema_policy)) g"
    if "compliant schema_policy g" for vol q m d a b p g
    by (rule schema_elsewhere [OF _ that])
      (auto simp: bind intro: leave_rules setFailed_conforms [OF c vr] split: sum.split)
  show ?thesis
    unfolding prepareClaims_def Let_def wp_bind
    by (rule schema_elsewhere [OF getPVC_leaves h])
      (auto simp: create [unfolded wp_bind] intro: setFailed_conforms [OF c vr] split: sum.split)
qed

lemma handleSyncing_conforms:
  assumes c: "enforces_schema c" and vr: "wellFormed (vr_status vr)" and h: "compliant schema_policy h"
  shows "conforms (handleSyncing c vr) h"
  using h by (auto simp: handleSyncing_def Let_def
      intro: advance_conforms [OF c vr] prepareClaims_conforms [OF c vr] split: option.split)

lemma handleValidating_conforms:
  assumes c: "enforces_schema c" and vr: "wellFormed (vr_status vr)" and h: "compliant schema_policy h"
  shows "conforms (handleValidating c vr) h"
proof -
  have checks: "leaves_vr (runChecks c vr)"
    by (auto simp: runChecks_def Let_def split: prod.split option.split
        intro!: only_bind leave_rules quiet_leaves [OF validateSizes_quiet])
  show ?thesis
    unfolding handleValidating_def startSyncing_def wp_bind
    by (rule schema_elsewhere [OF checks h])
      (auto simp: wellFormed_changes [OF vr] vr wp_if
        intro!: setFailed_conforms [OF c vr] schema_StatusUpdateVR [OF c] split: sum.split list.split)
qed

lemma deletions_leave: "leaves_vr (deletePVCs c ps)" "leaves_vr (deletePods c qs)"
  by (induction ps, auto simp: run_defs intro!: only_bind) (induction qs, auto simp: run_defs intro!: only_bind)

lemma handleDeletion_conforms:
  assumes c: "enforces_schema c" and vr: "wellFormed (vr_status vr)" and h: "compliant schema_policy h"
  shows "conforms (handleDeletion c vr) h"
proof -
  have last: "wp (UpdateVR c (withMeta g vr)) (\<lambda>u. wp (case u of Inl err \<Rightarrow> ret (failWith err) | Inr _ \<Rightarrow> ret finished) (stays schema_policy)) h'"
    if "compliant schema_policy h'" for g h'
    by (rule schema_UpdateVR [OF c that]) (use vr in simp_all)
  have lists: "leaves_vr (ListPVC c ns k v)" "leaves_vr (ListPods c ns k v)"
    "leaves_vr (case p of Inl err \<Rightarrow> ret () | Inr items \<Rightarrow> deletePVCs c items)"
    "leaves_vr (case q of Inl err \<Rightarrow> ret () | Inr items \<Rightarrow> deletePods c items)" for ns k v p q
    by (auto simp: ListPVC_def ListPods_def intro!: only_sum deletions_leave)
  show ?thesis
    unfolding handleDeletion_def wp_bind
    by (intro schema_elsewhere [OF lists(1) h] schema_elsewhere [OF lists(3)] schema_elsewhere [OF lists(2)]
        schema_elsewhere [OF lists(4)] last)
qed

lemma dispatch_conforms:
  assumes c: "enforces_schema c" and vr: "wellFormed (vr_status vr)" and h: "compliant schema_policy h"
  shows "conforms (dispatch c vr) h"
proof -
  have send: "wp (StatusUpdateVR c w) (\<lambda>u. wp (case u of Inl err \<Rightarrow> ret (f err) | Inr _ \<Rightarrow> ret x) (stays schema_policy)) h'"
    if "compliant schema_policy h'" "wellFormed (vr_status w)" for w f x h'
    by (rule schema_StatusUpdateVR [OF c that]) simp_all
  have "conforms (handlePending c vr) h" "conforms (handleReplacing c vr) h"
    using h by (auto simp: handlePending_def handleReplacing_def Now_def wellFormed_changes [OF vr] intro!: wp_call send)
  with h show ?thesis
    by (auto simp: dispatch_def Let_def intro: handleValidating_conforms [OF c vr] handleSyncing_conforms [OF c vr])
qed

text \<open>
  C15: The operator writes only what the schema of the resource allows: when the object that a call
  reads conforms to it, and so do the answers of the API server, then so does every object the
  call sends to the API server. No write is ever rejected for its phases.
\<close>

theorem writes_conform:
  assumes "enforces_schema c" and "c_getVR c [] ns n = Inr vr" and "wellFormed (vr_status vr)"
    and "trace (Reconcile c ns n) [] = pre @ e # post" and "e = EvStatusVR v res \<or> e = EvUpdateVR v res"
  shows "wellFormed (vr_status v)"
proof -
  let ?h = "[EvGetVR ns n (Inr vr)]"
  have start: "compliant schema_policy ?h"
    using compliant_snoc [of schema_policy "[]"] by simp
  have "conforms (Reconcile c ns n) []"
    using handleDeletion_conforms [OF assms(1,3) start] dispatch_conforms [OF assms(1,3) start]
      schema_UpdateVR [OF assms(1) start] assms(3)
    by (auto simp: Reconcile_def GetVR_def wp_perform snoc_def wp_if assms(2))
  then have "compliant schema_policy (pre @ e # post)"
    by (simp add: wp_iff assms(4))
  from compliant_event [OF this] assms(5) show ?thesis by auto
qed

text \<open>The small cluster, with an API server that rejects what does not conform.\<close>

definition strictClient :: client where
  "strictClient = (let c = cluster_client (demoVR zeroStatus) demoSTS demoCluster;
      strict = (\<lambda>r. case r of Inl e \<Rightarrow> Inl e | Inr w \<Rightarrow> if wellFormed (vr_status w) then Inr w else Inl (errorf ''invalid''))
    in c\<lparr>c_updateVR := \<lambda>h v. strict (c_updateVR c h v), c_statusVR := \<lambda>h v. strict (c_statusVR c h v)\<rparr>)"

lemma strict_client: "enforces_schema strictClient" "c_getVR strictClient [] ''d'' ''r'' = Inr (demoVR zeroStatus)"
  by (auto simp: enforces_schema_def strictClient_def cluster_client_def storedVR_def Let_def split: sum.splits if_splits)

theorem writes_conform_witness:
  "\<exists>v res. EvStatusVR v res \<in> set (trace (Reconcile strictClient ''d'' ''r'') []) \<and> wellFormed (vr_status v)"
proof -
  have "\<exists>v res. EvStatusVR v res \<in> set (trace (Reconcile strictClient ''d'' ''r'') [])"
    using strict_client(2)
    by (simp add: Reconcile_def GetVR_def demoVR_def zeroMeta_def zeroStatus_def dispatch_def handlePending_def Now_def
        StatusUpdateVR_def strictClient_def cluster_client_def Let_def sum.case_eq_if)
  then obtain v res pre post where
    at: "trace (Reconcile strictClient ''d'' ''r'') [] = pre @ EvStatusVR v res # post"
    by (metis in_set_conv_decomp)
  have "wellFormed (vr_status (demoVR zeroStatus))"
    by (simp add: wellFormed_def demoVR_def zeroStatus_def objectPhases_def)
  from writes_conform [OF strict_client this at] show ?thesis
    unfolding at by auto
qed

end
