(* ===== verification/Registration.thy ===== *)
theory Registration
  imports Api
begin

section \<open>The API group (api/v1alpha1/groupversion_info.go)\<close>

text \<open>
  Which kinds of objects the program can read and write: the package of the API registers its types under
  its group and version, and \<^verbatim>\<open>main.go\<close> and \<^verbatim>\<open>root.go\<close> build the scheme of their clients from these
  and from the kinds of Kubernetes. The registration itself is done by the libraries, which are a parameter.
\<close>

record group_version =
  gv_Group :: string
  gv_Version :: string

text \<open>A kind is known by its group and version and its name, which is that of the Go type.\<close>

type_synonym scheme = "(group_version \<times> string) list"

record builder =
  sb_GroupVersion :: group_version
  sb_objects :: "string list"

definition GroupVersion :: group_version where
  "GroupVersion = \<lparr>gv_Group = ''storage.maurice.fr'', gv_Version = ''v1alpha1''\<rparr>"

definition newSchemeBuilder :: builder where
  "newSchemeBuilder = \<lparr>sb_GroupVersion = GroupVersion, sb_objects = []\<rparr>"

definition Register :: "builder \<Rightarrow> string list \<Rightarrow> builder" where
  "Register b objects = b\<lparr>sb_objects := sb_objects b @ objects\<rparr>"

text \<open>After the \<^verbatim>\<open>init\<close> of the package.\<close>

definition SchemeBuilder :: builder where
  "SchemeBuilder = Register newSchemeBuilder [''VolumeResize'', ''VolumeResizeList'']"

record scheme_library =
  sl_clientgo :: "scheme \<Rightarrow> go_error + scheme"
  sl_build :: "builder \<Rightarrow> scheme \<Rightarrow> go_error + scheme"

definition AddToScheme :: "scheme_library \<Rightarrow> scheme \<Rightarrow> go_error + scheme" where
  "AddToScheme L s = sl_build L SchemeBuilder s"

text \<open>The \<^verbatim>\<open>init\<close> of both programs: the scheme, or the error with which \<^verbatim>\<open>Must\<close> panics.\<close>

definition initScheme :: "scheme_library \<Rightarrow> go_error + scheme" where
  "initScheme L =
     (case sl_clientgo L [] of
        Inl err \<Rightarrow> Inl err
      | Inr s \<Rightarrow>
          (case AddToScheme L s of
             Inl err \<Rightarrow> Inl err
           | Inr s \<Rightarrow> Inr s))"

subsection \<open>What the programs know\<close>

text \<open>What is asked of the libraries: a builder adds its objects, under its group and version, and removes nothing.\<close>

definition builds :: "scheme_library \<Rightarrow> bool" where
  "builds L \<longleftrightarrow> (\<forall>b s t. sl_build L b s = Inr t \<longrightarrow>
     set s \<union> (\<lambda>name. (sb_GroupVersion b, name)) ` set (sb_objects b) \<subseteq> set t)"

text \<open>A client with such a scheme knows the kinds of Kubernetes and those of the API group.\<close>

definition knows_kinds :: "scheme_library \<Rightarrow> scheme \<Rightarrow> bool" where
  "knows_kinds L t \<longleftrightarrow> {(GroupVersion, ''VolumeResize''), (GroupVersion, ''VolumeResizeList'')} \<subseteq> set t \<and>
     (\<exists>s. sl_clientgo L [] = Inr s \<and> set s \<subseteq> set t)"

lemma scheme_complete:
  assumes "builds L" and "initScheme L = Inr t"
  shows "knows_kinds L t"
proof -
  obtain s where s: "sl_clientgo L [] = Inr s" "sl_build L SchemeBuilder s = Inr t"
    using assms(2) by (auto simp: initScheme_def AddToScheme_def split: sum.splits)
  then have "set s \<union> (\<lambda>name. (GroupVersion, name)) ` {''VolumeResize'', ''VolumeResizeList''} \<subseteq> set t"
    using assms(1) unfolding builds_def by (fastforce simp: SchemeBuilder_def Register_def newSchemeBuilder_def)
  with s(1) show ?thesis by (auto simp: knows_kinds_def)
qed

text \<open>The names the operator puts on objects belong to the group.\<close>

definition inGroup :: "string \<Rightarrow> bool" where
  "inGroup name \<longleftrightarrow> take (Suc (length (gv_Group GroupVersion))) name = gv_Group GroupVersion @ ''/''"

lemma names_in_group:
  "list_all inGroup [AnnotationOldPVName, AnnotationManagedBy, AnnotationSTSDeleted, AnnotationSTSBackup,
     LabelMigrationName, LabelReplica, LabelVolumeName, FinalizerName]"
  by code_simp

end
