(* ===== verification/Startup.thy ===== *)
theory Startup
  imports Registration
begin

section \<open>Starting the operator (cmd/main.go)\<close>

text \<open>
  \<^verbatim>\<open>main\<close> turns the flags into the options of the controller manager, registers the reconciler and
  the probes, and runs the manager. The manager belongs to controller-runtime: what it answers to
  each step is a parameter. The flags of the logger and log lines are left out; parsing the command line is the flag package's, so \<open>main\<close> starts from the parsed flags.
\<close>

subsection \<open>Flags\<close>

record op_flags =
  metricsAddr :: string
  metricsCertPath :: string
  metricsCertName :: string
  metricsCertKey :: string
  webhookCertPath :: string
  webhookCertName :: string
  webhookCertKey :: string
  enableLeaderElection :: bool
  probeAddr :: string
  secureMetrics :: bool
  enableHTTP2 :: bool

text \<open>The values of flags that are not given.\<close>

definition defaultFlags :: op_flags where
  "defaultFlags = \<lparr>metricsAddr = ''0'', metricsCertPath = '''', metricsCertName = ''tls.crt'', metricsCertKey = ''tls.key'',
     webhookCertPath = '''', webhookCertName = ''tls.crt'', webhookCertKey = ''tls.key'',
     enableLeaderElection = False, probeAddr = '':8081'', secureMetrics = True, enableHTTP2 = False\<rparr>"

subsection \<open>Options\<close>

text \<open>A TLS configuration, as far as the program touches it, and the options of the servers.\<close>

record tls_config =
  NextProtos :: "string list"

record webhook_options =
  wo_TLSOpts :: "(tls_config \<Rightarrow> tls_config) list"
  wo_CertDir :: string
  wo_CertName :: string
  wo_KeyName :: string

record metrics_options =
  mo_BindAddress :: string
  mo_SecureServing :: bool
  mo_TLSOpts :: "(tls_config \<Rightarrow> tls_config) list"
  mo_FilterProvider :: "string option"
  mo_CertDir :: string
  mo_CertName :: string
  mo_KeyName :: string

record manager_options =
  op_Scheme :: scheme
  op_Metrics :: metrics_options
  op_WebhookServer :: webhook_options
  op_HealthProbeBindAddress :: string
  op_LeaderElection :: bool
  op_LeaderElectionID :: string

definition disableHTTP2 :: "tls_config \<Rightarrow> tls_config" where
  "disableHTTP2 c = c\<lparr>NextProtos := [''http/1.1'']\<rparr>"

definition tlsOpts :: "op_flags \<Rightarrow> (tls_config \<Rightarrow> tls_config) list" where
  "tlsOpts f = (if \<not> enableHTTP2 f then [disableHTTP2] else [])"

definition webhookServerOptions :: "op_flags \<Rightarrow> webhook_options" where
  "webhookServerOptions f =
     (let o1 = \<lparr>wo_TLSOpts = tlsOpts f, wo_CertDir = '''', wo_CertName = '''', wo_KeyName = ''''\<rparr> in
      if 0 < length (webhookCertPath f)
      then o1\<lparr>wo_CertDir := webhookCertPath f, wo_CertName := webhookCertName f, wo_KeyName := webhookCertKey f\<rparr>
      else o1)"

definition metricsServerOptions :: "op_flags \<Rightarrow> metrics_options" where
  "metricsServerOptions f =
     (let o1 = \<lparr>mo_BindAddress = metricsAddr f, mo_SecureServing = secureMetrics f, mo_TLSOpts = tlsOpts f,
            mo_FilterProvider = None, mo_CertDir = '''', mo_CertName = '''', mo_KeyName = ''''\<rparr>;
          o2 = (if secureMetrics f then o1\<lparr>mo_FilterProvider := Some ''WithAuthenticationAndAuthorization''\<rparr> else o1)
      in if 0 < length (metricsCertPath f)
         then o2\<lparr>mo_CertDir := metricsCertPath f, mo_CertName := metricsCertName f, mo_KeyName := metricsCertKey f\<rparr>
         else o2)"

definition managerOptions :: "scheme \<Rightarrow> op_flags \<Rightarrow> manager_options" where
  "managerOptions sch f = \<lparr>op_Scheme = sch, op_Metrics = metricsServerOptions f, op_WebhookServer = webhookServerOptions f,
     op_HealthProbeBindAddress = probeAddr f, op_LeaderElection = enableLeaderElection f,
     op_LeaderElectionID = ''5e073c33.maurice.fr''\<rparr>"

subsection \<open>Steps\<close>

text \<open>What \<open>main\<close> asks of the library, in order; an error of any of them ends the process with status 1.\<close>

datatype step =
    GetConfigOrDie
  | NewManager manager_options
  | CompleteController string string
  | AddHealthzCheck string
  | AddReadyzCheck string
  | StartManager

text \<open>\<^verbatim>\<open>SetupWithManager\<close>: the kind of object that is watched and the name of the controller.\<close>

definition SetupWithManager :: step where
  "SetupWithManager = CompleteController ''VolumeResize'' ''volumeresize''"

fun attempt :: "(step \<Rightarrow> go_error option) \<Rightarrow> step list \<Rightarrow> step list \<times> int" where
  "attempt lib [] = ([], 0)"
| "attempt lib (s # ss) =
     (case lib s of
        Some err \<Rightarrow> ([s], 1)
      | None \<Rightarrow> (case attempt lib ss of (made, code) \<Rightarrow> (s # made, code)))"

definition main :: "scheme \<Rightarrow> (step \<Rightarrow> go_error option) \<Rightarrow> op_flags \<Rightarrow> step list \<times> int" where
  "main sch lib f = attempt lib [GetConfigOrDie, NewManager (managerOptions sch f), SetupWithManager,
     AddHealthzCheck ''healthz'', AddReadyzCheck ''readyz'', StartManager]"

text \<open>The process: \<^verbatim>\<open>init\<close> builds the scheme, or panics; then \<^verbatim>\<open>main\<close> runs.\<close>

datatype process = PanicAtInit go_error | Ran "step list" int

definition operator :: "scheme_library \<Rightarrow> (step \<Rightarrow> go_error option) \<Rightarrow> op_flags \<Rightarrow> process" where
  "operator L lib f =
     (case initScheme L of
        Inl err \<Rightarrow> PanicAtInit err
      | Inr sch \<Rightarrow> (case main sch lib f of (made, code) \<Rightarrow> Ran made code))"

subsection \<open>Properties\<close>

text \<open>A server applies the functions of its TLS options one after the other.\<close>

definition applyTLS :: "(tls_config \<Rightarrow> tls_config) list \<Rightarrow> tls_config \<Rightarrow> tls_config" where
  "applyTLS opts c = fold (\<lambda>g c. g c) opts c"

lemma attempt_ran_before:
  "s \<in> set (fst (attempt lib (pre @ s # post))) \<Longrightarrow> s \<notin> set pre \<Longrightarrow> list_all (\<lambda>s. lib s = None) pre"
  by (induction pre) (auto split: option.splits prod.splits)

lemma attempt_succeeded: "snd (attempt lib ss) = 0 \<longleftrightarrow> list_all (\<lambda>s. lib s = None) ss"
  by (induction ss) (auto split: option.split prod.split)

lemma attempt_all: "list_all (\<lambda>s. lib s = None) ss \<Longrightarrow> fst (attempt lib ss) = ss"
  by (induction ss) (auto split: option.split prod.split)

definition main_steps :: "scheme \<Rightarrow> op_flags \<Rightarrow> step list" where
  "main_steps sch f = [GetConfigOrDie, NewManager (managerOptions sch f), SetupWithManager,
     AddHealthzCheck ''healthz'', AddReadyzCheck ''readyz'', StartManager]"

lemma main_attempt: "main sch lib f = attempt lib (main_steps sch f)"
  unfolding main_def main_steps_def by (rule refl)

lemma started_after:
  assumes "StartManager \<in> set (fst (main sch lib f))"
  shows "lib (NewManager (managerOptions sch f)) = None \<and> lib SetupWithManager = None \<and>
    lib (AddHealthzCheck ''healthz'') = None \<and> lib (AddReadyzCheck ''readyz'') = None"
  using attempt_ran_before [of StartManager lib
      "[GetConfigOrDie, NewManager (managerOptions sch f), SetupWithManager,
        AddHealthzCheck ''healthz'', AddReadyzCheck ''readyz'']" "[]"] assms
  by (simp add: main_def SetupWithManager_def)

lemma attempt_last: "s \<in> set (fst (attempt lib (pre @ [s]))) \<Longrightarrow> s \<notin> set pre \<Longrightarrow> fst (attempt lib (pre @ [s])) = pre @ [s]"
  by (induction pre) (auto split: option.splits prod.splits)

lemma started_all:
  assumes "StartManager \<in> set (fst (main sch lib f))"
  shows "fst (main sch lib f) = main_steps sch f"
  using attempt_last [of StartManager lib "[GetConfigOrDie, NewManager (managerOptions sch f), SetupWithManager,
      AddHealthzCheck ''healthz'', AddReadyzCheck ''readyz'']"] assms
  by (simp add: main_def main_steps_def SetupWithManager_def)

lemma succeeded_ran:
  assumes "snd (main sch lib f) = 0"
  shows "StartManager \<in> set (fst (main sch lib f)) \<and> lib StartManager = None"
proof -
  have ok: "list_all (\<lambda>s. lib s = None) (main_steps sch f)"
    using assms attempt_succeeded [of lib "main_steps sch f"] by (simp add: main_attempt)
  show ?thesis
    using ok attempt_all [OF ok] by (simp add: main_attempt main_steps_def)
qed

lemma http1_only:
  assumes "\<not> enableHTTP2 f"
  shows "NextProtos (applyTLS (wo_TLSOpts (op_WebhookServer (managerOptions sch f))) c) = [''http/1.1'']"
    "NextProtos (applyTLS (mo_TLSOpts (op_Metrics (managerOptions sch f))) c) = [''http/1.1'']"
  using assms
  by (simp_all add: managerOptions_def webhookServerOptions_def metricsServerOptions_def tlsOpts_def applyTLS_def
      disableHTTP2_def Let_def)

lemma metrics_protected:
  assumes "mo_SecureServing (op_Metrics (managerOptions sch f))"
  shows "mo_FilterProvider (op_Metrics (managerOptions sch f)) = Some ''WithAuthenticationAndAuthorization''"
  using assms by (simp add: managerOptions_def metricsServerOptions_def Let_def split: if_splits)

text \<open>
  C39: The operator starts safely. When a manager was made and started: unless HTTP/2 was asked for, both of its servers
  negotiate HTTP/1.1 only, whatever their configuration was before; metrics served over HTTPS need authentication;
  the reconciler and both probes were registered without an error before; and its client knows VolumeResizes and their lists
  beside the kinds of Kubernetes. The exit status is 0 only when the manager was started and no step failed.
\<close>

theorem starts_safely:
  assumes "builds L" and "operator L lib f = Ran made code"
  shows "(StartManager \<in> set made \<longrightarrow> (\<exists>sch. made = main_steps sch f \<and>
      lib (NewManager (managerOptions sch f)) = None \<and> lib SetupWithManager = None \<and>
      lib (AddHealthzCheck ''healthz'') = None \<and> lib (AddReadyzCheck ''readyz'') = None \<and>
      (\<not> enableHTTP2 f \<longrightarrow>
        NextProtos (applyTLS (wo_TLSOpts (op_WebhookServer (managerOptions sch f))) c) = [''http/1.1''] \<and>
        NextProtos (applyTLS (mo_TLSOpts (op_Metrics (managerOptions sch f))) c) = [''http/1.1'']) \<and>
      (mo_SecureServing (op_Metrics (managerOptions sch f)) \<longrightarrow>
        mo_FilterProvider (op_Metrics (managerOptions sch f)) = Some ''WithAuthenticationAndAuthorization'') \<and>
      knows_kinds L (op_Scheme (managerOptions sch f)))) \<and>
    (code = 0 \<longrightarrow> StartManager \<in> set made \<and> lib StartManager = None)"
proof -
  obtain sch where sch: "initScheme L = Inr sch" "main sch lib f = (made, code)"
    using assms(2) by (auto simp: operator_def split: sum.splits prod.splits)
  have "op_Scheme (managerOptions sch f) = sch"
    by (simp add: managerOptions_def)
  with scheme_complete [OF assms(1) sch(1)] have known: "knows_kinds L (op_Scheme (managerOptions sch f))"
    by simp
  have all: "made = main_steps sch f" if "StartManager \<in> set made"
    using that sch(2) started_all [of sch lib f] by simp
  show ?thesis
    using sch(2) http1_only [of f sch c] metrics_protected [of sch f] started_after [of sch lib f]
      succeeded_ran [of sch lib f] known all
    by (intro conjI impI exI [of _ sch]) simp_all
qed

definition demoSchemes :: scheme_library where
  "demoSchemes = \<lparr>sl_clientgo = \<lambda>s. Inr [(\<lparr>gv_Group = ''apps'', gv_Version = ''v1''\<rparr>, ''StatefulSet'')],
     sl_build = \<lambda>b s. Inr (s @ map (\<lambda>name. (sb_GroupVersion b, name)) (sb_objects b))\<rparr>"

lemma demoSchemes_build: "builds demoSchemes"
  by (auto simp: builds_def demoSchemes_def)

theorem starts_safely_witness:
  "\<exists>made sch. operator demoSchemes (\<lambda>s. None) defaultFlags = Ran made 0 \<and> made = main_steps sch defaultFlags \<and>
     NextProtos (applyTLS (mo_TLSOpts (op_Metrics (managerOptions sch defaultFlags))) \<lparr>NextProtos = [''h2'']\<rparr>) = [''http/1.1''] \<and>
     mo_FilterProvider (op_Metrics (managerOptions sch defaultFlags)) = Some ''WithAuthenticationAndAuthorization''"
proof -
  obtain made where made: "operator demoSchemes (\<lambda>s. None) defaultFlags = Ran made 0"
    by (simp add: operator_def initScheme_def demoSchemes_def AddToScheme_def main_def)
  from starts_safely [OF demoSchemes_build made, of "\<lparr>NextProtos = [''h2'']\<rparr>"] made show ?thesis
    by (auto simp: defaultFlags_def managerOptions_def metricsServerOptions_def Let_def)
qed

end
