(* ===== verification/Replacement.thy ===== *)
theory Replacement
  imports Simulation
begin

section \<open>A completed entry is a claim that was replaced\<close>

text \<open>
  What the status of an object says, related to what has happened in the cluster over its whole life: any number
  of calls, each as far as it came, with edits of the metadata in between. An entry that is completed was
  marked by one of these calls, right after it had replaced the claim of that volume and replica.
\<close>

subsection \<open>One call\<close>

text \<open>The positions of the schedule that a state of the life cycle says are done; \<open>l\<close> volumes per replica.\<close>

fun doneAt :: "nat \<Rightarrow> life \<Rightarrow> nat \<Rightarrow> bool" where
  "doneAt l (Moving n k b) j \<longleftrightarrow> j < k \<or> j = k \<and> b"
| "doneAt l (Done n) j \<longleftrightarrow> j < n * l"
| "doneAt l _ j \<longleftrightarrow> False"

lemma doneAt_step:
  assumes "life_step l a b" and "b \<noteq> Stopped" and "doneAt l b j"
  shows "doneAt l a j \<or> (\<exists>n. a = Moving n j False \<and> b = Moving n j True)"
  using assms by (induction rule: life_step.induct) auto

lemma life_path_Stopped: "life_path l Stopped a \<Longrightarrow> a = Stopped"
  by (induction rule: rtranclp_induct) auto

text \<open>Somewhere in the history the claim at the position \<open>j\<close> was swapped, for an object that is the same as \<open>vr\<close>.\<close>

definition swappedIn :: "VolumeResizeTarget list \<Rightarrow> nat \<Rightarrow> VolumeResize \<Rightarrow> history \<Rightarrow> bool" where
  "swappedIn vols j vr h \<longleftrightarrow> (\<exists>pre post u. h = pre @ post \<and> same_object u vr \<and> claim_swapped vols j u pre)"

lemma swappedIn_append: "swappedIn vols j vr h \<Longrightarrow> swappedIn vols j vr (h @ t)"
  unfolding swappedIn_def by (metis append.assoc)

text \<open>Along a history that complies with the policy of the life cycle, what is done was done or has been swapped.\<close>

lemma compliant_swaps:
  assumes "compliant (life_policy vols) (h @ t)" and "h \<noteq> []" and "latest h = Some u" and "represents vols a (vr_status u)"
    and "plannable vols"
  shows "\<exists>w b. latest (h @ t) = Some w \<and> represents vols b (vr_status w) \<and> life_path (length vols) a b \<and> same_object w u \<and>
    (b \<noteq> Stopped \<longrightarrow> (\<forall>j. doneAt (length vols) b j \<longrightarrow> doneAt (length vols) a j \<or> swappedIn vols j u (h @ t)))"
  using assms(1)
proof (induction t rule: rev_induct)
  case Nil
  then show ?case using assms(3,4) by auto
next
  case (snoc e t)
  let ?l = "length vols"
  have "compliant (life_policy vols) (h @ t)" and e: "life_policy vols (h @ t) e"
    using snoc.prems compliant_snoc [of "life_policy vols" "h @ t" e] by simp_all
  then obtain w b where w: "latest (h @ t) = Some w" "represents vols b (vr_status w)" "life_path ?l a b" "same_object w u"
    and before: "b \<noteq> Stopped \<longrightarrow> (\<forall>j. doneAt ?l b j \<longrightarrow> doneAt ?l a j \<or> swappedIn vols j u (h @ t))"
    using snoc.IH by blast
  obtain x d where x: "latest ((h @ t) @ [e]) = Some x" "represents vols d (vr_status x)" "(life_step ?l)\<^sup>=\<^sup>= b d" "same_object x w"
    "earned vols w (h @ t) b d"
    using compliant_step [OF e _ w(1,2)] assms(2) by auto
  have "doneAt ?l a j \<or> swappedIn vols j u (h @ t @ [e])" if "d \<noteq> Stopped" "doneAt ?l d j" for j
  proof -
    have b: "b \<noteq> Stopped"
      using that(1) x(3) by auto
    have "doneAt ?l b j \<or> (\<exists>n. b = Moving n j False \<and> d = Moving n j True)"
      using x(3) that doneAt_step by blast
    then show ?thesis
    proof
      assume "doneAt ?l b j"
      then show ?thesis
        using before b swappedIn_append [of vols j u "h @ t" "[e]"] by auto
    next
      assume "\<exists>n. b = Moving n j False \<and> d = Moving n j True"
      then have "claim_swapped vols j w (h @ t)"
        using x(5) by auto
      then show ?thesis
        using w(4) unfolding swappedIn_def by (metis append.assoc)
    qed
  qed
  moreover have "life_path ?l a d" "same_object x u"
    using w(3,4) x(3,4) by (auto intro: rtranclp.rtrancl_into_rtrancl same_object_trans)
  ultimately show ?case
    using x(1,2) by auto
qed

lemma Reconcile_swaps:
  assumes c: "serves c" "positive_replicas c [EvGetVR ns n (Inr vr)]" and vr: "c_getVR c [] ns n = Inr vr"
    and p: "plannable (vrVolumes vr)" and rep: "represents (vrVolumes vr) a (vr_status vr)"
    and cut: "trace (Reconcile c ns n) [] = h @ t" "latest h = Some w"
  shows "\<exists>b. represents (vrVolumes vr) b (vr_status w) \<and> life_path (length (vrVolumes vr)) a b \<and> same_object w vr \<and>
    (b \<noteq> Stopped \<longrightarrow> (\<forall>j. doneAt (length (vrVolumes vr)) b j \<longrightarrow>
       doneAt (length (vrVolumes vr)) a j \<or> swappedIn (vrVolumes vr) j vr h))"
proof -
  let ?first = "EvGetVR ns n (Inr vr)"
  have "h \<noteq> []"
    using cut(2) by auto
  moreover obtain s where "trace (Reconcile c ns n) [] = ?first # s"
    using Reconcile_trace [of c ns n] vr by auto
  ultimately obtain g where g: "h = [?first] @ g"
    using cut(1) by (cases h) auto
  have "compliant (life_policy (vrVolumes vr)) ([?first] @ g)"
    using Reconcile_compliant(1) [OF c vr p rep] cut(1) compliant_prefix g by metis
  moreover have "latest [?first] = Some vr"
    using latest_append [of "[]" ?first] by simp
  ultimately show ?thesis
    using compliant_swaps [of "vrVolumes vr" "[?first]" g vr a] rep p cut(2) g by auto
qed

subsection \<open>A whole life\<close>

text \<open>
  The life of an object with the histories of the calls on it, each a call as far as it came. Between two calls
  others may edit the metadata.
\<close>

inductive lived :: "string \<Rightarrow> string \<Rightarrow> VolumeResize \<Rightarrow> history list \<Rightarrow> VolumeResize \<Rightarrow> bool" for ns n vr where
  born: "lived ns n vr [] vr"
| called: "lived ns n vr hs v \<Longrightarrow> serves c \<Longrightarrow> positive_replicas c [EvGetVR ns n (Inr v)] \<Longrightarrow> c_getVR c [] ns n = Inr v \<Longrightarrow>
    trace (Reconcile c ns n) [] = h @ t \<Longrightarrow> latest h = Some w \<Longrightarrow> lived ns n vr (hs @ [h]) w"
| metadata: "lived ns n vr hs v \<Longrightarrow> vr_spec w = vr_spec v \<Longrightarrow> vr_status w = vr_status v \<Longrightarrow>
    vrName w = vrName v \<Longrightarrow> vrNamespace w = vrNamespace v \<Longrightarrow> lived ns n vr hs w"

lemma lived_reaches: "lived ns n vr hs w \<Longrightarrow> reaches ns n vr w"
proof (induction rule: lived.induct)
  case (called hs v c h t w)
  then have "evolves ns n v w"
    by (intro evolves.reconciled)
  with called.IH show ?case by (rule rtranclp.rtrancl_into_rtrancl)
next
  case (metadata hs v w)
  then have "evolves ns n v w"
    by (intro evolves.edited)
  with metadata.IH show ?case by (rule rtranclp.rtrancl_into_rtrancl)
qed simp

lemma lived_swaps:
  assumes "lived ns n vr hs w" and "new_resize vr"
  shows "same_object w vr \<and> (\<exists>b. represents (vrVolumes vr) b (vr_status w) \<and>
    (b \<noteq> Stopped \<longrightarrow> (\<forall>j. doneAt (length (vrVolumes vr)) b j \<longrightarrow> (\<exists>h \<in> set hs. swappedIn (vrVolumes vr) j vr h))))"
  using assms(1)
proof (induction rule: lived.induct)
  case born
  have "represents (vrVolumes vr) Fresh (vr_status vr)"
    using assms(2) by (simp add: new_resize_def)
  then show ?case
    by (intro conjI exI [of _ Fresh]) simp_all
next
  case (called hs v c h t w)
  then obtain a where a: "same_object v vr" "represents (vrVolumes vr) a (vr_status v)"
    "a \<noteq> Stopped \<longrightarrow> (\<forall>j. doneAt (length (vrVolumes vr)) a j \<longrightarrow> (\<exists>h \<in> set hs. swappedIn (vrVolumes vr) j vr h))"
    by blast
  have vols: "vrVolumes v = vrVolumes vr" and "plannable (vrVolumes v)"
    using a(1) assms(2) by (simp_all add: same_object_def new_resize_def)
  from Reconcile_swaps [OF called.hyps(2-4) this(2) _ called.hyps(5,6)] a(2)
  obtain b where b: "represents (vrVolumes vr) b (vr_status w)" "life_path (length (vrVolumes vr)) a b" "same_object w v"
    "b \<noteq> Stopped \<longrightarrow> (\<forall>j. doneAt (length (vrVolumes vr)) b j \<longrightarrow> doneAt (length (vrVolumes vr)) a j \<or> swappedIn (vrVolumes vr) j v h)"
    unfolding vols by blast
  have "\<exists>h \<in> set (hs @ [h]). swappedIn (vrVolumes vr) j vr h" if "b \<noteq> Stopped" "doneAt (length (vrVolumes vr)) b j" for j
  proof -
    have "a \<noteq> Stopped"
      using that(1) b(2) life_path_Stopped by blast
    moreover have "swappedIn (vrVolumes vr) j vr h" if "swappedIn (vrVolumes vr) j v h"
      using that a(1) unfolding swappedIn_def by (blast intro: same_object_trans)
    ultimately show ?thesis
      using that b(4) a(3) by auto
  qed
  with b(1,3) a(1) show ?case
    by (blast intro: same_object_trans)
next
  case (metadata hs v w)
  then show ?case by (auto simp: same_object_def)
qed

text \<open>
  C9: What is reported as completed was replaced: over the whole life of a new VolumeResize, whatever the cluster
  does, whichever calls fail and wherever the process dies, when the object has the phase Completed, then for
  each entry of its status one of the calls has replaced the claim of that volume and replica: it deleted the
  original claim, after the new volume had been bound to the temporary claim, retained and released, and the
  API server accepted a claim with the original name and the new size on that volume.
\<close>

theorem completed_entries_replaced:
  assumes "new_resize vr" and "lived ns n vr hs w" and "vrPhase w = PhaseCompleted"
    and "vs \<in> set (st_volumeStatuses (vr_status w))"
  shows "\<exists>h \<in> set hs. \<exists>pre post u vol. h = pre @ post \<and> same_object u vr \<and> vol \<in> set (vrVolumes vr) \<and>
    vt_name vol = vs_volumeName vs \<and> swapped u vol (vs_replica vs) pre"
proof -
  let ?vols = "vrVolumes vr"
  obtain b where b: "represents ?vols b (vr_status w)"
    "b \<noteq> Stopped \<longrightarrow> (\<forall>j. doneAt (length ?vols) b j \<longrightarrow> (\<exists>h \<in> set hs. swappedIn ?vols j vr h))"
    using lived_swaps [OF assms(2,1)] by blast
  obtain m where m: "b = Done m"
    using b(1) assms(3) by (cases b) (auto simp: phase_defs)
  with b(1) have keys: "map key (st_volumeStatuses (vr_status w)) = schedule ?vols m" by simp
  obtain j where j: "j < length (st_volumeStatuses (vr_status w))" "st_volumeStatuses (vr_status w) ! j = vs"
    using assms(4) by (metis in_set_conv_nth)
  have "j < m * length ?vols"
    using j(1) arg_cong [OF keys, of length] by simp
  moreover have "key vs = keyAt ?vols j"
    using keys j calculation by (metis nth_map schedule_nth)
  ultimately obtain h where h: "h \<in> set hs" "swappedIn ?vols j vr h" and at: "keyAt ?vols j = (vs_replica vs, vs_volumeName vs)"
    using b(2) m by (auto simp: key_def)
  then obtain pre post u where "h = pre @ post" "same_object u vr" "claim_swapped ?vols j u pre"
    unfolding swappedIn_def by blast
  with h(1) at show ?thesis
    unfolding claim_swapped_def by auto
qed

subsection \<open>The small cluster\<close>

definition demoCall :: "nat \<Rightarrow> history" where
  "demoCall i = trace (Reconcile (cluster_client (fst (demoLife i)) demoSTS (snd (demoLife i))) ''d'' ''r'') []"

lemma demo_lived_Suc:
  assumes "lived ''d'' ''r'' vr hs (fst (demoLife i))" and "map_option (sint \<circ> replicasOf) (cl_sts (snd (demoLife i))) = Some 1"
  shows "lived ''d'' ''r'' vr (hs @ [demoCall i]) (fst (demoLife (Suc i)))"
proof -
  have pos: "0 < sint (replicasOf s)" if "cl_sts (snd (demoLife i)) = Some s" for s
    using assms(2) that by simp
  have "fst (demoLife (Suc i)) = storedVR (fst (demoLife i)) (demoCall i)"
    by (cases "demoLife i") (simp add: Let_def demoCall_def)
  then show ?thesis
    using called [OF assms(1) cluster_call(1-3) [where sts = demoSTS, OF pos] _ cluster_call(4) [OF pos], where t = "[]"]
    by (simp add: demoCall_def del: demoLife.simps)
qed

lemma demo_lived: "lived ''d'' ''r'' (demoVR zeroStatus) [demoCall 0, demoCall 1, demoCall 2] (fst (demoLife 3))"
proof -
  have "lived ''d'' ''r'' (demoVR zeroStatus) [] (fst (demoLife 0))"
    by (simp add: lived.born)
  from demo_lived_Suc [OF this demo_life_ready(1)]
  have "lived ''d'' ''r'' (demoVR zeroStatus) [demoCall 0] (fst (demoLife 1))"
    by (simp del: demoLife.simps)
  from demo_lived_Suc [OF this demo_life_ready(2)]
  have "lived ''d'' ''r'' (demoVR zeroStatus) [demoCall 0, demoCall 1] (fst (demoLife 2))"
    by (simp add: numeral_2_eq_2 del: demoLife.simps)
  from demo_lived_Suc [OF this demo_life_ready(3)] show ?thesis
    by (simp add: eval_nat_numeral del: demoLife.simps)
qed

theorem completed_entries_replaced_witness:
  "\<exists>h \<in> set [demoCall 0, demoCall 1, demoCall 2]. \<exists>pre post u vol. h = pre @ post \<and> vt_name vol = ''data'' \<and>
     swapped u vol (vs_replica (hd (st_volumeStatuses (vr_status (fst (demoLife 3)))))) pre"
proof -
  obtain vs where vs: "st_volumeStatuses (vr_status (fst (demoLife 3))) = [vs]" "vs_volumeName vs = ''data''"
    using demo_entry by (auto simp: map_eq_Cons_conv)
  then have "vs \<in> set (st_volumeStatuses (vr_status (fst (demoLife 3))))"
    by simp
  from completed_entries_replaced [OF demo_new demo_lived demo_phases(3) this] vs show ?thesis
    by (simp del: demoLife.simps) blast
qed

end
