(* ===== verification/Progress.thy ===== *)
theory Progress
  imports Simulation
begin

section \<open>Progress on a cooperative cluster\<close>

text \<open>
  The operator is only as live as the cluster: a claim may never be bound, a pod never stop, an API
  call always fail. This theory says what is needed. A call is \<^emph>\<open>cooperative\<close> when in its own
  history no call failed that may not fail and nothing vanished that was there; timing is left open. Then
  the call advances the migration, or asks to be called again after a while because of something that
  is seen in its history: it never gives up, panics or returns an error.
\<close>

subsection \<open>Runs judged by their whole history\<close>

text \<open>
  \<open>wlp G m Q h\<close>: if the history at the end of the run complies with the policy, then result and
  history satisfy \<open>Q\<close>. As operations only append, the history complies at every call on the way.
\<close>

definition wlp :: "policy \<Rightarrow> 'a io \<Rightarrow> ('a \<Rightarrow> history \<Rightarrow> bool) \<Rightarrow> history \<Rightarrow> bool" where
  "wlp G m Q h \<longleftrightarrow> (compliant G (trace m h) \<longrightarrow> Q (result m h) (trace m h))"

lemma appends_ret [intro, simp]: "appends (ret x)"
  by (simp add: appends_def)

lemma appends_perform [intro, simp]: "appends (perform ask ev)"
  by (simp add: appends_def)

lemma appends_bind [intro]:
  assumes "appends m" and "\<And>x. appends (f x)"
  shows "appends (State_Monad.bind m f)"
  unfolding appends_def
proof
  fix h
  obtain t where "trace m h = h @ t" by (rule appendsE [OF assms(1)])
  moreover obtain u where "trace (f (result m h)) (trace m h) = trace m h @ u" by (rule appendsE [OF assms(2)])
  ultimately show "\<exists>t. trace (State_Monad.bind m f) h = h @ t" by simp
qed

lemma appends_cases [intro]:
  "(\<And>a. appends (f a)) \<Longrightarrow> (\<And>b. appends (g b)) \<Longrightarrow> appends (case x of Inl a \<Rightarrow> f a | Inr b \<Rightarrow> g b)"
  "appends m \<Longrightarrow> (\<And>b. appends (g b)) \<Longrightarrow> appends (case y of None \<Rightarrow> m | Some b \<Rightarrow> g b)"
  by (simp_all split: sum.split option.split)

lemma appends_if [simp]: "appends m \<Longrightarrow> appends n \<Longrightarrow> appends (if b then m else n)"
  by simp

lemma calls_append [simp]:
  "appends (Now c)" "appends (Sleep d)" "appends (GetSTS c ns n)" "appends (CreateSTS c s)" "appends (GetPVC c ns n)"
  "appends (CreatePVC c p)" "appends (DeletePVC c ns n)" "appends (GetPV c n)" "appends (UpdatePV c pv)"
  "appends (GetPod c ns n)" "appends (CreatePod c q)" "appends (DeletePod c ns n)" "appends (UpdateVR c w)"
  "appends (StatusUpdateVR c w)" "appends (GetCM c ns n)" "appends (GetSC c n)"
  by (simp_all add: call_defs)

lemma wlp_ret: "Q x h \<Longrightarrow> wlp G (ret x) Q h"
  by (simp add: wlp_def)

lemma wlp_call: "(\<And>r. r = ask h \<Longrightarrow> G h (ev r) \<Longrightarrow> Q r (snoc h (ev r))) \<Longrightarrow> wlp G (perform ask ev) Q h"
  by (simp add: wlp_def snoc_def)

lemma wlp_bind:
  assumes "wlp G m (\<lambda>x. wlp G (f x) Q) h" and "\<And>x. appends (f x)"
  shows "wlp G (State_Monad.bind m f) Q h"
proof -
  obtain t where "trace (f (result m h)) (trace m h) = trace m h @ t" by (rule appendsE [OF assms(2)])
  with assms(1) show ?thesis
    unfolding wlp_def by (metis compliant_prefix result_bind trace_bind)
qed

lemma wlp_then:
  "(\<And>r. appends (f r)) \<Longrightarrow> (\<And>r. r = ask h \<Longrightarrow> G h (ev r) \<Longrightarrow> wlp G (f r) Q (snoc h (ev r))) \<Longrightarrow>
   wlp G (State_Monad.bind (perform ask ev) f) Q h"
  by (rule wlp_bind [OF wlp_call])

lemma wlp_mono: "wlp G m Q h \<Longrightarrow> (\<And>x h'. Q x h' \<Longrightarrow> R x h') \<Longrightarrow> wlp G m R h"
  by (simp add: wlp_def)

subsection \<open>Cooperation\<close>

definition isAnswer :: "'e + 'a \<Rightarrow> bool" where
  "isAnswer r \<longleftrightarrow> (case r of Inl e \<Rightarrow> False | Inr x \<Rightarrow> True)"

definition foundOrMissing :: "go_error + 'a \<Rightarrow> bool" where
  "foundOrMissing r \<longleftrightarrow> (case r of Inl e \<Rightarrow> IsNotFound e | Inr x \<Rightarrow> True)"

lemma answer_simps [simp]:
  "isAnswer (Inr x)" "\<not> isAnswer (Inl e)" "foundOrMissing (Inr y)" "foundOrMissing (Inl e') \<longleftrightarrow> IsNotFound e'"
  by (simp_all add: isAnswer_def foundOrMissing_def)

text \<open>What a history of one call has seen or done for the volume \<open>v\<close> of replica \<open>r\<close>.\<close>

fun deletes_claim :: "event \<Rightarrow> bool" where
  "deletes_claim (EvDeletePVC _ _ _) \<longleftrightarrow> True"
| "deletes_claim _ \<longleftrightarrow> False"

definition deleting :: "history \<Rightarrow> bool" where
  "deleting h \<longleftrightarrow> list_ex deletes_claim h"

abbreviation migratorName :: "VolumeResize \<Rightarrow> int32 \<Rightarrow> string \<Rightarrow> string" where
  "migratorName vr r v \<equiv> getMigratorPodName (vrName vr) v r"

abbreviation tempName :: "VolumeResize \<Rightarrow> int32 \<Rightarrow> string \<Rightarrow> string" where
  "tempName vr r v \<equiv> getTempPVCName v (vrSTS vr) r"

fun sees_pod :: "string \<Rightarrow> (string \<Rightarrow> bool) \<Rightarrow> event \<Rightarrow> bool" where
  "sees_pod n P (EvGetPod _ m (Inr p)) \<longleftrightarrow> m = n \<and> P (pod_phase p)"
| "sees_pod n P (EvCreatePod q (Inr p)) \<longleftrightarrow> om_name (pod_meta q) = n \<and> P (pod_phase p)"
| "sees_pod n P _ \<longleftrightarrow> False"

definition podSeen :: "string \<Rightarrow> (string \<Rightarrow> bool) \<Rightarrow> history \<Rightarrow> bool" where
  "podSeen n P h \<longleftrightarrow> list_ex (sees_pod n P) h"

fun sees_unbound :: "string \<Rightarrow> event \<Rightarrow> bool" where
  "sees_unbound n (EvGetPVC _ m (Inr p)) \<longleftrightarrow> m = n \<and> pvc_phase p \<noteq> ClaimBound"
| "sees_unbound n (EvCreatePVC q (Inr p)) \<longleftrightarrow> om_name (pvc_meta q) = n \<and> pvc_phase p \<noteq> ClaimBound"
| "sees_unbound n _ \<longleftrightarrow> False"

definition unboundSeen :: "string \<Rightarrow> history \<Rightarrow> bool" where
  "unboundSeen n h \<longleftrightarrow> list_ex (sees_unbound n) h"

abbreviation migrated :: "VolumeResize \<Rightarrow> int32 \<Rightarrow> string \<Rightarrow> history \<Rightarrow> bool" where
  "migrated vr r v \<equiv> podSeen (migratorName vr r v) (\<lambda>phase. phase = PodSucceeded)"

lemma seen_snoc [simp]:
  "deleting (snoc h e) \<longleftrightarrow> deletes_claim e \<or> deleting h"
  "podSeen n P (snoc h e) \<longleftrightarrow> sees_pod n P e \<or> podSeen n P h"
  "unboundSeen n (snoc h e) \<longleftrightarrow> sees_unbound n e \<or> unboundSeen n h"
  by (auto simp: deleting_def podSeen_def unboundSeen_def snoc_def)

text \<open>
  A backup that can be restored: its text reads back as a StatefulSet, whose templates of volumes
  to be resized have requests.
\<close>

definition usableBackup :: "client \<Rightarrow> VolumeResize \<Rightarrow> ConfigMap \<Rightarrow> bool" where
  "usableBackup c vr cm \<longleftrightarrow>
     (case goLookup (cm_data cm) ConfigMapKeySTSSpec of
        None \<Rightarrow> False
      | Some json \<Rightarrow> (case l_unmarshalSTS c json of
          Inl e \<Rightarrow> False
        | Inr sts \<Rightarrow> \<not> Option.is_none (patchTemplates (vrVolumes vr) (sts_volumeClaimTemplates sts))))"

text \<open>
  The policy. Writes succeed; a look-up finds the object or says that there is none, the latter only
  where that can be: the original claim until the operator deletes it, the migrator pod from its creation
  on, the temporary claim, with its volume, from the success of the migrator on, the backup when the
  claims have been swapped. The migrator pod does not fail, the backup can be read, less than a minute
  passes between two steps of the program, and the context is not cancelled.
\<close>

fun cooperates :: "client \<Rightarrow> VolumeResize \<Rightarrow> int32 \<Rightarrow> string \<Rightarrow> policy" where
  "cooperates c vr r v h (EvNow t) \<longleftrightarrow> t < clock h + minute"
| "cooperates c vr r v h (EvWaitOrCancel d cancelled) \<longleftrightarrow> \<not> cancelled"
| "cooperates c vr r v h (EvUpdateVR w res) \<longleftrightarrow> isAnswer res"
| "cooperates c vr r v h (EvStatusVR w res) \<longleftrightarrow> isAnswer res"
| "cooperates c vr r v h (EvGetSTS ns n sts) \<longleftrightarrow> foundOrMissing sts \<and>
     (case sts of Inl e \<Rightarrow> True | Inr s \<Rightarrow> isAnswer (l_marshalSTS c s))"
| "cooperates c vr r v h (EvCreateSTS s err) \<longleftrightarrow> err = None"
| "cooperates c vr r v h (EvDeleteSTS ns n policy err) \<longleftrightarrow> unlessNotFound err = None"
| "cooperates c vr r v h (EvGetPVC ns n pvc) \<longleftrightarrow> foundOrMissing pvc \<and>
     (case pvc of
        Inl e \<Rightarrow> deleting h \<or> n = tempName vr r v \<and> \<not> migrated vr r v h
      | Inr p \<Rightarrow> n = tempName vr r v \<and> migrated vr r v h \<and> \<not> deleting h \<longrightarrow> pvc_volumeName p \<noteq> '''')"
| "cooperates c vr r v h (EvCreatePVC p pvc) \<longleftrightarrow> isAnswer pvc"
| "cooperates c vr r v h (EvDeletePVC ns n err) \<longleftrightarrow> unlessNotFound err = None"
| "cooperates c vr r v h (EvGetPV n pv) \<longleftrightarrow> isAnswer pv"
| "cooperates c vr r v h (EvUpdatePV p pv) \<longleftrightarrow> isAnswer pv"
| "cooperates c vr r v h (EvGetPod ns n pod) \<longleftrightarrow> foundOrMissing pod \<and>
     (n = migratorName vr r v \<longrightarrow>
       (case pod of
          Inl e \<Rightarrow> \<not> podSeen n (\<lambda>phase. True) h
        | Inr p \<Rightarrow> om_name (pod_meta p) = n \<and> pod_phase p \<in> {PodPending, PodRunning, PodSucceeded}))"
| "cooperates c vr r v h (EvCreatePod p pod) \<longleftrightarrow>
     (case pod of Inl e \<Rightarrow> False | Inr q \<Rightarrow> om_name (pod_meta q) = om_name (pod_meta p))"
| "cooperates c vr r v h (EvGetCM ns n cm) \<longleftrightarrow> foundOrMissing cm \<and>
     (case cm of Inl e \<Rightarrow> \<not> deleting h | Inr m \<Rightarrow> usableBackup c vr m)"
| "cooperates c vr r v h (EvCreateCM m err) \<longleftrightarrow> err = None"
| "cooperates c vr r v h _ \<longleftrightarrow> True"

text \<open>
  What may hold up a call: the temporary claim was seen unbound, the pod of the replica was still there,
  or the migrator not yet done.
\<close>

definition heldUp :: "VolumeResize \<Rightarrow> int32 \<Rightarrow> string \<Rightarrow> history \<Rightarrow> bool" where
  "heldUp vr r v h \<longleftrightarrow> unboundSeen (tempName vr r v) h \<or>
     podSeen (getPodName (vrSTS vr) r) (\<lambda>phase. True) h \<or>
     podSeen (migratorName vr r v) (\<lambda>phase. phase \<noteq> PodSucceeded) h"

definition goes_on :: "VolumeResize \<Rightarrow> int32 \<Rightarrow> string \<Rightarrow> outcome \<Rightarrow> history \<Rightarrow> bool" where
  "goes_on vr r v out h \<longleftrightarrow> asks_again out \<and> (out = requeue \<or> heldUp vr r v h \<or> persisted r v h)"

lemma goes_on_simps [simp]:
  "goes_on vr r v requeue h"
  "goes_on vr r v (requeueAfter d) h \<longleftrightarrow> 0 < d \<and> (heldUp vr r v h \<or> persisted r v h)"
  by (auto simp: goes_on_def)

subsection \<open>The waits\<close>

lemma periods [simp]: "0 < second" "0 < minute" "0 < hour"
  by (simp_all add: hour_def minute_def second_def)

lemma waits_append:
  "appends (podTerminationLoop c ns n deadline k)" "appends (migrationLoop c n ns deadline k)"
  by (auto intro: only_appends pod_termination.poll_only migration.poll_only)

lemma podTerminationLoop_wlp:
  fixes c vr r v
  defines "G \<equiv> cooperates c vr r v"
  assumes "podSeen n (\<lambda>phase. True) h \<or> 0 < k \<and> clock h + minute \<le> deadline" and "\<not> deleting h"
  shows "wlp G (podTerminationLoop c ns n deadline k)
    (\<lambda>x h'. (x = None \<or> podSeen n (\<lambda>phase. True) h') \<and> \<not> deleting h') h"
  using assms(2,3)
proof (induction k arbitrary: h)
  case 0
  then show ?case by (simp add: wlp_ret)
next
  case (Suc k)
  then show ?case
    unfolding podTerminationLoop.simps run_defs
    by (auto simp: G_def waits_append split: sum.split
        intro!: wlp_then wlp_ret Suc.IH [unfolded G_def] appends_bind appends_cases)
qed

lemma migrationLoop_wlp:
  fixes c vr r v
  defines "G \<equiv> cooperates c vr r v" and "n \<equiv> migratorName vr r v"
  assumes "podSeen n (\<lambda>phase. phase \<noteq> PodSucceeded) h \<or> 0 < k \<and> clock h + minute \<le> deadline"
    and "podSeen n (\<lambda>phase. True) h" and "\<not> deleting h"
  shows "wlp G (migrationLoop c n ns deadline k)
    (\<lambda>x h'. (x = None \<longrightarrow> migrated vr r v h') \<and> (x \<noteq> None \<longrightarrow> podSeen n (\<lambda>phase. phase \<noteq> PodSucceeded) h') \<and>
      podSeen n (\<lambda>phase. True) h' \<and> \<not> deleting h') h"
  using assms(3-)
proof (induction k arbitrary: h)
  case 0
  then show ?case by (simp add: wlp_ret)
next
  case (Suc k)
  then show ?case
    unfolding migrationLoop.simps run_defs
    by (auto simp: G_def n_def waits_append split: sum.split
        intro!: wlp_then wlp_ret Suc.IH [unfolded G_def n_def] appends_bind appends_cases)
qed

lemma awaitPVCDeletion_wlp:
  fixes c vr r v
  defines "G \<equiv> cooperates c vr r v"
  assumes "deleting h"
  shows "wlp G (awaitPVCDeletion c ns n p k) (\<lambda>x h'. x = None \<and> deleting h') h"
  using assms(2)
proof (induction k arbitrary: h)
  case 0
  then show ?case by (simp add: wlp_ret)
next
  case (Suc k)
  then show ?case
    unfolding awaitPVCDeletion.simps getPVC_eq run_defs
    by (auto simp: G_def only_appends [OF awaitPVCDeletion_only] split: sum.split
        intro!: wlp_then wlp_ret Suc.IH [unfolded G_def] appends_bind appends_cases)
qed

lemma pollRounds_pos [simp]: "0 < pollRounds t p"
  by (simp add: pollRounds_def)

lemma clock_snoc [simp]: "clock (snoc h e) = elapsed e (clock h)"
  by (simp add: snoc_def)

lemma waitForPodTermination_wlp:
  assumes "\<not> deleting h"
  shows "wlp (cooperates c vr r v) (waitForPodTermination c ns n (minute * 2))
    (\<lambda>x h'. (x = None \<or> podSeen n (\<lambda>phase. True) h') \<and> \<not> deleting h') h"
  using assms unfolding waitForPodTermination_def Now_def
  by (intro wlp_then podTerminationLoop_wlp) (auto simp: waits_append)

lemma waitForMigrationComplete_wlp:
  fixes vr r v
  defines "n \<equiv> migratorName vr r v"
  assumes "podSeen n (\<lambda>phase. True) h" and "\<not> deleting h"
  shows "wlp (cooperates c vr r v) (waitForMigrationComplete c n ns hour)
    (\<lambda>x h'. (x = None \<longrightarrow> migrated vr r v h') \<and> (x \<noteq> None \<longrightarrow> podSeen n (\<lambda>phase. phase \<noteq> PodSucceeded) h') \<and>
      podSeen n (\<lambda>phase. True) h' \<and> \<not> deleting h') h"
  using assms unfolding waitForMigrationComplete_def Now_def n_def
  by (intro wlp_then migrationLoop_wlp) (auto simp: waits_append hour_def)

subsection \<open>The swap\<close>

lemmas operations_append = only_appends [OF awaitPVCDeletion_only] only_appends [OF createReplacement_only]
  only_appends [OF replaceOriginal_only] only_appends [OF releaseNewPV_only] only_appends [OF replacePVC_only]
  only_appends [OF createTempPVC_only] only_appends [OF setRetainOnPV_only]
  only_appends [OF waitForPodTermination_only] only_appends [OF waitForMigrationComplete_only]
  only_appends [OF backupSTSToConfigMap_only] only_appends [OF deleteSTSOrphan_only]
  only_appends [OF getSTSFromBackupConfigMap_only] only_appends [OF recreateSTS_only]
  only_appends [OF setFailed_handler] only_appends [OF advance_handler] only_appends [OF awaitPod_handler]
  only_appends [OF restoreSTS_handler] only_appends [OF swapVolume_handler] only_appends [OF awaitMigration_handler]
  only_appends [OF runMigration_handler] only_appends [OF stopPod_handler] only_appends [OF orphanSTS_handler]
  only_appends [OF retainOldVolume_handler] only_appends [OF handleSyncing_handler]
  only_appends [OF handleDeletion_handler] only_appends [OF dispatch_handler]

lemma more_append [simp]:
  "appends (markSTSDeleted c vr)" "appends (cleanupMigratorPod c n ns)" "appends (createMigratorPod c vr vol r a b)"
  "appends (deletePod c ns s r)" "appends (mustWaitForBinding c p)"
  by (auto simp: markSTSDeleted_def cleanupMigratorPod_def createMigratorPod_def deletePod_def mustWaitForBinding_def Let_def
      intro!: appends_bind appends_cases)

lemmas appends_rules = appends_bind appends_cases operations_append waits_append

lemma replaceOriginal_wlp:
  "wlp (cooperates c vr r v) (replaceOriginal c w vol r' q t n) (\<lambda>x h'. x = None \<and> deleting h') h"
proof -
  have last: "wlp (cooperates c vr r v) (createReplacement c w vol r' l t n) (\<lambda>x h'. x = None \<and> deleting h') g"
    if "deleting g" for l g
    using that unfolding createReplacement_def run_defs
    by (auto intro!: wlp_then wlp_ret appends_cases split: sum.split)
  show ?thesis
    unfolding replaceOriginal_def DeletePVC_def
    by (intro wlp_then) (auto simp: last intro!: appends_rules wlp_bind [OF wlp_mono [OF awaitPVCDeletion_wlp]]
        split: option.split)
qed

lemma releaseNewPV_wlp:
  "wlp (cooperates c vr r v) (releaseNewPV c w vol r' q t n) (\<lambda>x h'. x = None \<and> deleting h') h"
proof -
  have release: "wlp (cooperates c vr r v) (do {
      g \<leftarrow> GetPV c n;
      case g of
        Inl err \<Rightarrow> ret (Some (m err))
      | Inr newPV \<Rightarrow> do {
          u \<leftarrow> UpdatePV c (newPV\<lparr>pv_claimRef := None\<rparr>);
          case u of
            Inl err \<Rightarrow> ret (Some (m' err))
          | Inr _ \<Rightarrow> replaceOriginal c w vol r' q t n } }) (\<lambda>x h'. x = None \<and> deleting h') g" for m m' g
    unfolding run_defs
    by (auto intro!: wlp_then appends_rules replaceOriginal_wlp split: sum.split)
  show ?thesis
    unfolding releaseNewPV_def DeletePVC_def
    by (intro wlp_then)
      (auto simp: release intro!: appends_rules wlp_bind [OF wlp_mono [OF awaitPVCDeletion_wlp]] split: option.split)
qed

lemma replacePVC_wlp:
  assumes "same_object w vr" and "vt_name vol = v" and "migrated vr r v h" and "\<not> deleting h"
  shows "wlp (cooperates c vr r v) (replacePVC c w vol r) (\<lambda>x h'. x = None \<and> deleting h') h"
proof -
  have names: "vrSTS w = vrSTS vr"
    using assms(1) by (simp add: same_object_def)
  show ?thesis
    unfolding replacePVC_def Let_def getPVC_eq run_defs assms(2) names
    using assms(3,4)
    by (auto intro!: wlp_then appends_rules releaseNewPV_wlp split: sum.split)
qed

subsection \<open>The stages after the swap\<close>

text \<open>An update of the object, whose answer is the same object.\<close>

lemma wlp_write:
  assumes "serves c" and "same_object w vr" and "\<And>u. appends (f u)"
    and "\<And>u. same_object u vr \<Longrightarrow> c_statusVR c h w = Inr u \<Longrightarrow> wlp (cooperates c vr r v) (f (Inr u)) Q (snoc h (EvStatusVR w (Inr u)))"
  shows "wlp (cooperates c vr r v) (State_Monad.bind (StatusUpdateVR c w) f) Q h"
  unfolding StatusUpdateVR_def
proof (rule wlp_then [OF assms(3)])
  fix res assume res: "res = c_statusVR c h w" "cooperates c vr r v h (EvStatusVR w res)"
  from res(2) obtain u where u: "res = Inr u" by (cases res) simp_all
  then have "same_object u w" using servesD(2) [OF assms(1)] res(1) by metis
  then have "same_object u vr" using assms(2) by (rule same_object_trans)
  with assms(4) u res(1) show "wlp (cooperates c vr r v) (f res) Q (snoc h (EvStatusVR w res))" by simp
qed

lemma wlp_touch:
  assumes "serves c" and "same_object w vr" and "\<And>u. appends (f u)"
    and "\<And>u. same_object u vr \<Longrightarrow> wlp (cooperates c vr r v) (f (Inr u)) Q (snoc h (EvUpdateVR w (Inr u)))"
  shows "wlp (cooperates c vr r v) (State_Monad.bind (UpdateVR c w) f) Q h"
  unfolding UpdateVR_def
proof (rule wlp_then [OF assms(3)])
  fix res assume res: "res = c_updateVR c h w" "cooperates c vr r v h (EvUpdateVR w res)"
  from res(2) obtain u where u: "res = Inr u" by (cases res) simp_all
  then have "same_object u w" using servesD(4) [OF assms(1)] res(1) by metis
  then have "same_object u vr" using assms(2) by (rule same_object_trans)
  with assms(4) u show "wlp (cooperates c vr r v) (f res) Q (snoc h (EvUpdateVR w res))" by simp
qed

lemma advance_wlp:
  assumes "serves c" and "same_object w vr" and "vrVolumes vr \<noteq> []"
  shows "wlp (cooperates c vr r v) (advance c w r' v') (\<lambda>out h'. out = requeue) h"
proof -
  have "vrVolumes w \<noteq> []"
    using assms(2,3) by (simp add: same_object_def)
  then have "getNextVolumeReplica w r' v' \<noteq> None"
    by (auto simp: getNextVolumeReplica_def Let_def split: list.split)
  then obtain r'' v'' isDone where "next": "getNextVolumeReplica w r' v' = Some (r'', v'', isDone)"
    by auto
  have send: "wlp (cooperates c vr r v) (do { u \<leftarrow> StatusUpdateVR c x; case u of Inl err \<Rightarrow> ret (failWith err) | Inr _ \<Rightarrow> ret requeue })
      (\<lambda>out h'. out = requeue) g" if "same_object x vr" for x g
    by (rule wlp_write [OF assms(1) that]) (auto intro: wlp_ret appends_rules)
  show ?thesis
    unfolding advance_def "next" option.case prod.case
    by (rule wlp_bind) (auto simp: Now_def assms(2) intro!: wlp_then wlp_ret send appends_rules)
qed

lemma advance_goes_on:
  "serves c \<Longrightarrow> same_object w vr \<Longrightarrow> vrVolumes vr \<noteq> [] \<Longrightarrow> wlp (cooperates c vr r v) (advance c w r' v') (goes_on vr r v) h"
  by (rule wlp_mono [OF advance_wlp]) auto

lemma persisted_snoc [simp]: "persisted r v h \<Longrightarrow> persisted r v (snoc h e)"
  by (auto simp: persisted_def)

lemma persisted_now [simp]:
  "persisted r v (snoc h (EvStatusVR (updateVolumeStatus u v r VolumeStatusCompleted ''PVC replaced'') (Inr w)))"
  by (auto simp: persisted_def)

lemma awaitPod_wlp:
  assumes "serves c" and "same_object w vr" and "vrVolumes vr \<noteq> []" and "persisted r v h"
  shows "wlp (cooperates c vr r v) (awaitPod c w r v) (goes_on vr r v) h"
  using assms(4) unfolding awaitPod_def GetPod_def
  by (auto intro!: wlp_then appends_rules wlp_ret advance_goes_on [OF assms(1-3)] split: sum.split)

lemma restoreSTS_wlp:
  assumes "serves c" and "same_object w vr" and "vrVolumes vr \<noteq> []" and "persisted r v h" and "deleting h"
  shows "wlp (cooperates c vr r v) (restoreSTS c w r v) (goes_on vr r v) h"
proof -
  have vols: "vrVolumes w = vrVolumes vr"
    using assms(2) by (simp add: same_object_def)
  have clear: "wlp (cooperates c vr r v) (do {
        u \<leftarrow> UpdateVR c (withMeta (\<lambda>m. m\<lparr>om_annotations := goDelete (om_annotations m) AnnotationSTSDeleted\<rparr>) w);
        case u of Inl err \<Rightarrow> ret (failWith err) | Inr w \<Rightarrow> awaitPod c w r v }) (goes_on vr r v) g" if "persisted r v g" for g
    by (rule wlp_touch [OF assms(1)])
      (use assms(2) that in \<open>auto intro!: awaitPod_wlp [OF assms(1) _ assms(3)] appends_rules\<close>)
  show ?thesis
    using assms(4,5) unfolding restoreSTS_def getSTSFromBackupConfigMap_def recreateSTS_def GetCM_def CreateSTS_def vols
    by (intro wlp_bind wlp_call)
      (auto simp: usableBackup_def split: sum.splits option.splits intro!: wlp_ret wlp_call wlp_bind clear appends_rules)
qed

lemma swapVolume_wlp:
  assumes "serves c" and "same_object w vr" and "vrVolumes vr \<noteq> []" and "vt_name vol = v"
    and "migrated vr r v h" and "\<not> deleting h"
  shows "wlp (cooperates c vr r v) (swapVolume c w vol r v) (goes_on vr r v) h"
proof -
  have persist: "wlp (cooperates c vr r v) (do {
        u \<leftarrow> StatusUpdateVR c (updateVolumeStatus x v r VolumeStatusCompleted ''PVC replaced'');
        case u of Inl err \<Rightarrow> ret (failWith err) | Inr w \<Rightarrow> restoreSTS c w r v }) (goes_on vr r v) g"
    if "same_object x vr" "deleting g" for x g
    by (rule wlp_write [OF assms(1)])
      (use that in \<open>auto intro!: restoreSTS_wlp [OF assms(1) _ assms(3)] appends_rules\<close>)
  show ?thesis
    unfolding swapVolume_def Let_def
    by (intro wlp_bind wlp_mono [OF replacePVC_wlp [OF _ assms(4)]])
      (use assms(2,5,6) in \<open>auto intro!: persist appends_rules\<close>)
qed

lemma runMigration_wlp:
  assumes "serves c" and "same_object w vr" and "vrVolumes vr \<noteq> []" and "vt_name vol = v" and "\<not> deleting h"
  shows "wlp (cooperates c vr r v) (runMigration c w vol r v a b) (goes_on vr r v) h"
proof -
  let ?n = "migratorName vr r v"
  have name: "om_name (pod_meta (buildMigratorPod w vol r a b)) = ?n"
    using assms(2,4) by (simp add: buildMigratorPod_name same_object_def)
  have swap: "wlp (cooperates c vr r v) (do { _ \<leftarrow> cleanupMigratorPod c n ns; swapVolume c w vol r v }) (goes_on vr r v) g"
    if "migrated vr r v g" "\<not> deleting g" for n ns g
    unfolding cleanupMigratorPod_def DeletePod_def
    by (intro wlp_bind wlp_then)
      (use that in \<open>auto split: option.split intro!: wlp_ret swapVolume_wlp [OF assms(1-4)] appends_rules\<close>)
  have await: "wlp (cooperates c vr r v) (awaitMigration c w pod)
      (\<lambda>x h'. (case x of None \<Rightarrow> migrated vr r v h' \<and> \<not> deleting h' | Some out \<Rightarrow> goes_on vr r v out h')) g"
    if "om_name (pod_meta pod) = ?n" "podSeen ?n (\<lambda>phase. True) g" "\<not> deleting g" for pod g
    unfolding awaitMigration_def that(1) GetPod_def
    by (rule wlp_bind [OF wlp_mono [OF waitForMigrationComplete_wlp [OF that(2,3)]]])
      (auto simp: heldUp_def split: sum.splits option.splits intro!: wlp_ret wlp_then appends_rules)
  have migrate: "wlp (cooperates c vr r v) (do {
      early \<leftarrow> awaitMigration c w pod;
      case early of
        Some out \<Rightarrow> ret out
      | None \<Rightarrow> do { _ \<leftarrow> cleanupMigratorPod c n (vrNamespace w); swapVolume c w vol r v } }) (goes_on vr r v) g"
    if "om_name (pod_meta pod) = ?n" "podSeen ?n (\<lambda>phase. True) g" "\<not> deleting g" for pod n g
    by (rule wlp_bind [OF wlp_mono [OF await [OF that]]])
      (auto split: option.splits intro!: wlp_ret swap appends_rules)
  have create: "wlp (cooperates c vr r v) (createMigratorPod c w vol r a b)
      (\<lambda>x h'. (\<exists>pod. x = Inr pod \<and> om_name (pod_meta pod) = ?n) \<and> podSeen ?n (\<lambda>phase. True) h' \<and> \<not> deleting h') h"
    using assms(5) unfolding createMigratorPod_def Let_def GetPod_def CreatePod_def name
    by (intro wlp_bind wlp_call)
      (auto simp: name split: sum.splits intro!: wlp_ret wlp_call wlp_bind appends_rules)
  show ?thesis
    unfolding runMigration_def
    by (rule wlp_bind [OF wlp_mono [OF create]]) (auto intro!: migrate appends_rules)
qed

lemma stopPod_wlp:
  assumes "serves c" and "same_object w vr" and "vrVolumes vr \<noteq> []" and "vt_name vol = v" and "\<not> deleting h"
  shows "wlp (cooperates c vr r v) (stopPod c w vol r v a b) (goes_on vr r v) h"
proof -
  have names: "getPodName (vrSTS w) r = getPodName (vrSTS vr) r"
    using assms(2) by (simp add: same_object_def)
  have wait: "wlp (cooperates c vr r v) (do {
      x \<leftarrow> waitForPodTermination c (vrNamespace w) (getPodName (vrSTS vr) r) (minute * 2);
      case x of Some err \<Rightarrow> ret (requeueAfter (second * 5)) | None \<Rightarrow> runMigration c w vol r v a b }) (goes_on vr r v) g"
    if "\<not> deleting g" for g
    by (rule wlp_bind [OF wlp_mono [OF waitForPodTermination_wlp [OF that]]])
      (auto simp: heldUp_def split: option.splits intro!: wlp_ret runMigration_wlp [OF assms(1-4)] appends_rules)
  show ?thesis
    using assms(5) unfolding stopPod_def Let_def deletePod_def DeletePod_def names
    by (intro wlp_bind wlp_call)
      (auto split: option.splits intro!: wlp_ret wait appends_rules)
qed

lemma orphanSTS_wlp:
  assumes "serves c" and "same_object w vr" and "\<not> deleting h"
  shows "wlp (cooperates c vr r v) (orphanSTS c w) (\<lambda>x h'. (\<exists>u. x = Inr u \<and> same_object u vr) \<and> \<not> deleting h') h"
proof -
  let ?Q = "\<lambda>x h'. (\<exists>u. x = Inr u \<and> same_object u vr) \<and> \<not> deleting h'"
  have mark: "wlp (cooperates c vr r v) (markSTSDeleted c w) ?Q g" if "\<not> deleting g" for g
    unfolding markSTSDeleted_def
    by (rule wlp_touch [OF assms(1)])
      (use assms(1,2) that in \<open>auto intro!: wlp_write wlp_ret appends_rules\<close>)
  have delete: "wlp (cooperates c vr r v) (do {
      d \<leftarrow> deleteSTSOrphan c sts;
      case d of Inl err \<Rightarrow> do { out \<leftarrow> setFailed c w (m err); ret (Inl out) } | Inr _ \<Rightarrow> markSTSDeleted c w }) ?Q g"
    if "\<not> deleting g" for sts m g
    unfolding deleteSTSOrphan_def Let_def DeleteSTS_def
    by (intro wlp_bind wlp_call)
      (use that in \<open>auto split: option.splits intro!: wlp_ret mark appends_rules\<close>)
  show ?thesis
    using assms(2,3) unfolding orphanSTS_def backupSTSToConfigMap_def GetSTS_def GetCM_def CreateCM_def
    by (auto intro!: wlp_ret wlp_bind wlp_call delete appends_rules split: sum.splits option.splits)
qed

lemma retainOldVolume_wlp:
  assumes "serves c" and "same_object w vr" and "vrVolumes vr \<noteq> []" and "vt_name vol = v" and "\<not> deleting h"
  shows "wlp (cooperates c vr r v) (retainOldVolume c w vol r v a b p) (goes_on vr r v) h"
proof -
  have go: "wlp (cooperates c vr r v) (do {
      o' \<leftarrow> orphanSTS c u;
      case o' of Inl out \<Rightarrow> ret out | Inr u \<Rightarrow> stopPod c u vol r v a b }) (goes_on vr r v) g"
    if "same_object u vr" "\<not> deleting g" for u g
    by (rule wlp_bind [OF wlp_mono [OF orphanSTS_wlp [OF assms(1) that]]])
      (auto intro!: stopPod_wlp [OF assms(1) _ assms(3,4)] appends_rules)
  show ?thesis
    unfolding retainOldVolume_def setRetainOnPV_def GetPV_def UpdatePV_def
    by (intro wlp_bind wlp_call)
      (use assms(2,5) in \<open>auto simp: Let_def split: sum.splits intro!: wlp_ret wlp_bind wlp_call go appends_rules\<close>)
qed

lemma prepareClaims_wlp:
  assumes "serves c" and "same_object w vr" and "vrVolumes vr \<noteq> []" and "vt_name (findTarget v (vrVolumes vr)) = v"
    and "\<not> deleting h"
  shows "wlp (cooperates c vr r v) (prepareClaims c w r v) (goes_on vr r v) h"
proof -
  let ?vol = "findTarget v (vrVolumes vr)"
  have same: "vrSTS w = vrSTS vr" "vrVolumes w = vrVolumes vr"
    using assms(2) by (simp_all add: same_object_def)
  have names: "getOriginalPVCName v (vrSTS vr) r \<noteq> tempName vr r v"
    by (simp add: getOriginalPVCName_def getTempPVCName_def)
  have bind: "wlp (cooperates c vr r v) (do {
      b \<leftarrow> mustWaitForBinding c t;
      if b \<and> pvc_phase t \<noteq> ClaimBound then ret (requeueAfter (second * 5))
      else retainOldVolume c w ?vol r v x y p }) (goes_on vr r v) g"
    if "pvc_phase t \<noteq> ClaimBound \<Longrightarrow> unboundSeen (tempName vr r v) g" "\<not> deleting g" for t x y p g
    using that unfolding mustWaitForBinding_def GetSC_def
    by (auto simp: heldUp_def split: option.split sum.split
        intro!: wlp_bind wlp_call wlp_ret retainOldVolume_wlp [OF assms(1-4)] appends_rules)
  show ?thesis
    using assms(5) names unfolding prepareClaims_def createTempPVC_def Let_def getPVC_eq GetPVC_def CreatePVC_def same
    by (intro wlp_bind wlp_call)
      (auto simp: assms(4) tempPVCFor_def same split: sum.splits intro!: wlp_ret wlp_bind wlp_call bind appends_rules)
qed

subsection \<open>A whole call\<close>

lemma Reconcile_wlp:
  assumes "serves c" and "c_getVR c [] ns n = Inr vr" and "plannable (vrVolumes vr)"
    and "represents (vrVolumes vr) (Moving m k b) (vr_status vr)" and "keyAt (vrVolumes vr) k = (r, v)"
    and "om_deletionTimestamp (vr_meta vr) = None" and "l_containsFinalizer c (om_finalizers (vr_meta vr)) FinalizerName"
  shows "wlp (cooperates c vr r v) (Reconcile c ns n) (\<lambda>out h. goes_on vr r v out h \<and> (b \<longrightarrow> out = requeue)) []"
proof -
  have vols: "vrVolumes vr \<noteq> []"
    using assms(3) by (simp add: plannable_def)
  then have "v \<in> vt_name ` set (vrVolumes vr)"
    using assms(5) by (auto simp: keyAt_def)
  then have found: "vt_name (findTarget v (vrVolumes vr)) = v"
    by (rule findTarget_name)
  have "entryDone (st_volumeStatuses (vr_status vr) ! k) \<longleftrightarrow> b"
    using moving_entry(4) [OF assms(3,4)] .
  then have completed: "currentCompleted vr r v \<longleftrightarrow> b"
    using currentCompleted_schedule [OF assms(3), of m k vr] assms(4,5) by (simp add: entryDone_def)
  have at: "st_currentReplica (vr_status vr) = Some r" "st_currentVolume (vr_status vr) = v"
    using assms(4,5) by simp_all
  have syncing: "wlp (cooperates c vr r v) (handleSyncing c vr) (\<lambda>out h. goes_on vr r v out h \<and> (b \<longrightarrow> out = requeue)) h"
    if "\<not> deleting h" for h
  proof (cases b)
    case True
    with completed at show ?thesis
      by (simp add: handleSyncing_def Let_def wlp_mono [OF advance_wlp [OF assms(1) _ vols]])
  next
    case False
    with completed at show ?thesis
      using prepareClaims_wlp [OF assms(1) _ vols found that] by (simp add: handleSyncing_def Let_def)
  qed
  have phase: "dispatch c vr = handleSyncing c vr"
    using assms(4) by (simp add: dispatch_def phase_defs)
  show ?thesis
    unfolding Reconcile_def GetVR_def
    by (intro wlp_bind wlp_call)
      (auto simp: assms(2,6,7) phase deleting_def snoc_def intro!: syncing appends_rules)
qed

lemma marked_done:
  assumes "progress s = progress (vr_status (updateVolumeStatus u v r VolumeStatusCompleted t))"
    and "plannable vols" and "represents vols (Moving m k b) s" and "keyAt vols k = (r, v)"
  shows b
proof -
  let ?es = "st_volumeStatuses (vr_status u)" and ?upd = "setFirstStatus v r VolumeStatusCompleted t"
  let ?sent = "vr_status (updateVolumeStatus u v r VolumeStatusCompleted t)"
  have sent: "represents vols (Moving m k b) ?sent"
    using represents_progress [OF assms(1)] assms(3) by blast
  note at = moving_entry [OF assms(2) sent]
  have entries: "st_volumeStatuses ?sent = ?upd ?es"
    by (simp add: updateVolumeStatus_def)
  have keys: "map key (?upd ?es) = map key ?es"
    by (rule first_entry.upd_keys)
  then have len: "length (?upd ?es) = length ?es"
    by (rule map_eq_imp_length_eq)
  have k: "k < length ?es" and key: "key (?es ! k) = (r, v)" and dist: "distinct (map key ?es)"
    using at(1-3) keys len assms(4) unfolding entries by (metis nth_map)+
  have "?upd ?es = ?es[k := (?es ! k)\<lparr>vs_phase := VolumeStatusCompleted, vs_message := t\<rparr>]"
    using k key dist by (intro first_entry.upd_at) simp_all
  then have "entryDone (st_volumeStatuses ?sent ! k)"
    using k by (simp add: entries entryDone_def)
  with at(4) show b by simp
qed

text \<open>The hypotheses on one call on an object in the phase Syncing.\<close>

definition cooperative :: "client \<Rightarrow> VolumeResize \<Rightarrow> history \<Rightarrow> bool" where
  "cooperative c vr h \<longleftrightarrow>
     (case st_currentReplica (vr_status vr) of
        None \<Rightarrow> True
      | Some r \<Rightarrow> compliant (cooperates c vr r (st_currentVolume (vr_status vr))) h)"

definition helped_call :: "client \<Rightarrow> string \<Rightarrow> string \<Rightarrow> VolumeResize \<Rightarrow> bool" where
  "helped_call c ns n vr \<longleftrightarrow> serves c \<and> positive_replicas c [EvGetVR ns n (Inr vr)] \<and> c_getVR c [] ns n = Inr vr \<and>
     om_deletionTimestamp (vr_meta vr) = None \<and> l_containsFinalizer c (om_finalizers (vr_meta vr)) FinalizerName \<and>
     cooperative c vr (trace (Reconcile c ns n) [])"

lemma persisted_path:
  assumes T: "compliant (life_policy vols) (EvGetVR ns n (Inr vr) # t)" "persisted r v (EvGetVR ns n (Inr vr) # t)"
    and p: "plannable vols" and rep: "represents vols (Moving m k False) (vr_status vr)" and kv: "keyAt vols k = (r, v)"
    and last: "latest (EvGetVR ns n (Inr vr) # t) = Some w" "represents vols a (vr_status w)"
  shows "life_advance (length vols) (Moving m k False) a"
proof -
  let ?first = "EvGetVR ns n (Inr vr)"
  obtain u x where "EvStatusVR (updateVolumeStatus u v r VolumeStatusCompleted ''PVC replaced'') (Inr x) \<in> set (?first # t)"
    using T(2) by (auto simp: persisted_def)
  then obtain pre post where split: "?first # t = pre @ EvStatusVR (updateVolumeStatus u v r VolumeStatusCompleted ''PVC replaced'') (Inr x) # post"
    by (metis in_set_conv_decomp)
  let ?h = "pre @ [EvStatusVR (updateVolumeStatus u v r VolumeStatusCompleted ''PVC replaced'') (Inr x)]"
  have cut: "?first # t = ?h @ post" by (simp add: split)
  then obtain g where g: "?h = [?first] @ g"
    by (cases pre) auto
  have "latest [?first] = Some vr"
    using latest_append [of "[]" ?first] by simp
  then obtain b y where y: "latest ?h = Some y" "represents vols b (vr_status y)" "life_path (length vols) (Moving m k False) b"
    using compliant_path [of vols "[?first]" g vr] compliant_prefix [of "life_policy vols" ?h post] T(1) rep
    unfolding cut g by (metis list.distinct(1))
  then have "y = x" by simp
  have "life_policy vols pre (EvStatusVR (updateVolumeStatus u v r VolumeStatusCompleted ''PVC replaced'') (Inr x))"
    using compliant_event T(1) unfolding split by metis
  then have "progress (vr_status x) = progress (vr_status (updateVolumeStatus u v r VolumeStatusCompleted ''PVC replaced''))"
    by simp
  from marked_done [OF this p _ kv] have "b \<noteq> Moving m k False"
    using y(2) \<open>y = x\<close> by blast
  then have "life_advance (length vols) (Moving m k False) b"
    using y(3) by (auto dest: rtranclpD)
  moreover obtain b' w' where "latest (?h @ post) = Some w'" "represents vols b' (vr_status w')" "life_path (length vols) b b'"
    using compliant_path [of vols ?h post y b] T(1) y(1,2) unfolding cut by auto
  then have "life_path (length vols) b a"
    using last represents_unique [OF p] by (auto simp: cut)
  ultimately show ?thesis by (rule tranclp_rtranclp_tranclp)
qed

text \<open>
  C13: A cooperative call never gives up: the stored object is still on its way or done, and it has
  come closer to its end, or else the call was held up by a claim that is not bound, a pod that is still
  there or a migrator that is not done, and asks to be called again after a while.
\<close>

theorem helped_call_goes_on:
  assumes "helped_call c ns n vr" and "plannable (vrVolumes vr)" and "represents (vrVolumes vr) (Moving m k b) (vr_status vr)"
    and "keyAt (vrVolumes vr) k = (r, v)"
  shows "\<exists>w a. latest (trace (Reconcile c ns n) []) = Some w \<and> same_object w vr \<and>
    represents (vrVolumes vr) a (vr_status w) \<and> a \<noteq> Stopped \<and>
    (life_advance (length (vrVolumes vr)) (Moving m k b) a \<or>
     a = Moving m k b \<and> (\<exists>d > 0. result (Reconcile c ns n) [] = requeueAfter d) \<and>
     heldUp vr r v (trace (Reconcile c ns n) []))"
proof -
  let ?T = "trace (Reconcile c ns n) []" and ?out = "result (Reconcile c ns n) []" and ?vols = "vrVolumes vr"
  have c: "serves c" "positive_replicas c [EvGetVR ns n (Inr vr)]" "c_getVR c [] ns n = Inr vr"
    and alive: "om_deletionTimestamp (vr_meta vr) = None" "l_containsFinalizer c (om_finalizers (vr_meta vr)) FinalizerName"
    and coop: "cooperative c vr ?T"
    using assms(1) by (simp_all add: helped_call_def)
  have "compliant (cooperates c vr r v) ?T"
    using coop assms(3,4) by (simp add: cooperative_def)
  then have goes: "goes_on vr r v ?out ?T" and moved: "b \<longrightarrow> ?out = requeue"
    using Reconcile_wlp [OF c(1,3) assms(2,3,4) alive] by (simp_all add: wlp_def)
  have "settled ?vols (Moving m k b) ?out ?T"
    by (rule Reconcile_compliant(3) [OF c assms(2,3) alive])
  then obtain w a where w: "latest ?T = Some w" "represents ?vols a (vr_status w)" "life_path (length ?vols) (Moving m k b) a"
    "?out = requeue \<longrightarrow> life_advance (length ?vols) (Moving m k b) a" "a \<noteq> Stopped" and life: "compliant (life_policy ?vols) ?T"
    using goes by (auto simp: settled_def goes_on_def)
  obtain t where T: "?T = EvGetVR ns n (Inr vr) # t"
    using Reconcile_trace [of c ns n] c(3) by auto
  have "same_object w vr"
    using Reconcile_point [OF c assms(2,3), of ?T "[]"] w(1) T by auto
  moreover have "life_advance (length ?vols) (Moving m k b) a \<or>
     a = Moving m k b \<and> (\<exists>d > 0. ?out = requeueAfter d) \<and> heldUp vr r v ?T"
  proof (cases "a = Moving m k b")
    case False
    with w(3) show ?thesis by (auto dest: rtranclpD)
  next
    case a: True
    then have "\<not> life_advance (length ?vols) (Moving m k b) a"
      by (simp add: life_advance_irrefl)
    then have "\<not> b"
      using moved w(4) by blast
    have "\<not> persisted r v ?T"
    proof
      assume "persisted r v ?T"
      then show False
        using persisted_path [of ?vols ns n vr t r v m k w a] life a assms(2-4) w(1,2) life_advance_irrefl \<open>\<not> b\<close>
        unfolding T by simp
    qed
    then show ?thesis
      using goes a w(4) life_advance_irrefl by (auto simp: goes_on_def asks_again_def)
  qed
  ultimately show ?thesis
    using w by blast
qed

subsection \<open>A whole migration\<close>

text \<open>How many steps a migration of \<open>m\<close> replicas with \<open>l\<close> volumes has left.\<close>

definition stepsLeft :: "nat \<Rightarrow> nat \<Rightarrow> nat \<Rightarrow> bool \<Rightarrow> nat" where
  "stepsLeft l m k b = 2 * (m * l - k) - (if b then 1 else 0)"

lemma stepsLeft_less:
  "k < p \<Longrightarrow> p = m * l \<Longrightarrow> stepsLeft l m k True < stepsLeft l m k False"
  "Suc k < p \<Longrightarrow> p = m * l \<Longrightarrow> stepsLeft l m (Suc k) False < stepsLeft l m k True"
  by (simp_all add: stepsLeft_def)

inductive_cases life_step_from_Moving: "life_step l (Moving m k b) a"

lemma step_from_moving:
  assumes "life_step l (Moving m k b) a" and "k < m * l"
  shows "a = Done m \<or> a = Stopped \<or> (\<exists>k' b'. a = Moving m k' b' \<and> k' < m * l \<and> stepsLeft l m k' b' < stepsLeft l m k b)"
  using assms(1) by (rule life_step_from_Moving) (use assms(2) stepsLeft_less in auto)

lemma advance_from_moving:
  assumes "life_advance l (Moving m k b) a" and "k < m * l"
  shows "a = Done m \<or> a = Stopped \<or> (\<exists>k' b'. a = Moving m k' b' \<and> k' < m * l \<and> stepsLeft l m k' b' < stepsLeft l m k b)"
  using assms
proof (induction rule: tranclp_induct)
  case (base a)
  then show ?case by (rule step_from_moving)
next
  case (step a d)
  then consider "a = Done m" | "a = Stopped" | k' b' where "a = Moving m k' b'" "k' < m * l" "stepsLeft l m k' b' < stepsLeft l m k b"
    by blast
  then show ?case
  proof cases
    case 3
    from step_from_moving [OF step.hyps(2) [unfolded 3(1)] 3(2)] show ?thesis
      by (elim disjE exE conjE) (use less_trans [OF _ 3(3)] in blast)+
  qed (use step.hyps(2) in auto)
qed

text \<open>A call that changed nothing because the cluster was not ready.\<close>

definition stalled :: "client \<Rightarrow> string \<Rightarrow> string \<Rightarrow> VolumeResize \<Rightarrow> VolumeResize \<Rightarrow> bool" where
  "stalled c ns n vr w \<longleftrightarrow> progress (vr_status w) = progress (vr_status vr) \<and>
     (\<exists>d > 0. result (Reconcile c ns n) [] = requeueAfter d) \<and>
     (\<exists>r. st_currentReplica (vr_status vr) = Some r \<and>
        heldUp vr r (st_currentVolume (vr_status vr)) (trace (Reconcile c ns n) []))"

text \<open>
  The object as a sequence of calls leaves it; between two calls others may edit its metadata.
\<close>

definition migration_run :: "string \<Rightarrow> string \<Rightarrow> (nat \<Rightarrow> client) \<Rightarrow> (nat \<Rightarrow> VolumeResize) \<Rightarrow> bool" where
  "migration_run ns n cs vrs \<longleftrightarrow> (\<forall>i. vrPhase (vrs i) = PhaseSyncing \<longrightarrow> helped_call (cs i) ns n (vrs i) \<and>
     (\<exists>w. latest (trace (Reconcile (cs i) ns n) []) = Some w \<and>
        vr_spec (vrs (Suc i)) = vr_spec w \<and> vr_status (vrs (Suc i)) = vr_status w))"

lemma same_progress:
  assumes "represents vols (Moving m k b) s" and "represents vols (Moving m k b) t"
  shows "progress s = progress t"
proof -
  let ?s = "st_volumeStatuses s" and ?t = "st_volumeStatuses t"
  have keys: "map key ?s = map key ?t"
    using assms by simp
  have len: "length ?s = length ?t" "length ?t = m * length vols"
    using map_eq_imp_length_eq [OF keys] assms(2) by (auto dest: arg_cong [of _ _ length])
  have "map (\<lambda>e. (key e, entryDone e)) ?s = map (\<lambda>e. (key e, entryDone e)) ?t"
  proof (rule nth_equalityI)
    fix j assume "j < length (map (\<lambda>e. (key e, entryDone e)) ?s)"
    then have j: "j < length ?s" "j < length ?t" "j < m * length vols"
      using len by simp_all
    have "key (?s ! j) = key (?t ! j)"
      using keys j(1,2) by (metis nth_map)
    moreover have "entryDone (?s ! j) = entryDone (?t ! j)"
      using assms j(3) by simp
    ultimately show "map (\<lambda>e. (key e, entryDone e)) ?s ! j = map (\<lambda>e. (key e, entryDone e)) ?t ! j"
      using j by simp
  qed (simp add: len)
  with assms show ?thesis by (simp add: progress_def)
qed

lemma migration_run_step:
  assumes run: "migration_run ns n cs vrs" and p: "plannable (vrVolumes (vrs i))"
    and rep: "represents (vrVolumes (vrs i)) (Moving m k b) (vr_status (vrs i))"
  defines "l \<equiv> length (vrVolumes (vrs i))"
  shows "vr_spec (vrs (Suc i)) = vr_spec (vrs i) \<and> (vrPhase (vrs (Suc i)) = PhaseCompleted \<or>
    (\<exists>k' b'. represents (vrVolumes (vrs i)) (Moving m k' b') (vr_status (vrs (Suc i))) \<and>
      stepsLeft l m k' b' + (if stalled (cs i) ns n (vrs i) (vrs (Suc i)) then 0 else 1) \<le> stepsLeft l m k b))"
proof -
  obtain r v where kv: "keyAt (vrVolumes (vrs i)) k = (r, v)" by fastforce
  have k: "k < m * l" and at: "st_currentReplica (vr_status (vrs i)) = Some r" "st_currentVolume (vr_status (vrs i)) = v"
    using rep kv by (simp_all add: l_def)
  obtain w where helped: "helped_call (cs i) ns n (vrs i)" and w: "latest (trace (Reconcile (cs i) ns n) []) = Some w"
    "vr_spec (vrs (Suc i)) = vr_spec w" "vr_status (vrs (Suc i)) = vr_status w"
    using run rep by (auto simp: migration_run_def)
  obtain a where a: "same_object w (vrs i)" "represents (vrVolumes (vrs i)) a (vr_status w)" "a \<noteq> Stopped"
    "life_advance l (Moving m k b) a \<or> a = Moving m k b \<and> (\<exists>d > 0. result (Reconcile (cs i) ns n) [] = requeueAfter d) \<and>
      heldUp (vrs i) r v (trace (Reconcile (cs i) ns n) [])"
    using helped_call_goes_on [OF helped p rep kv] w(1) by (auto simp: l_def)
  have spec: "vr_spec (vrs (Suc i)) = vr_spec (vrs i)"
    using a(1) w(2) by (simp add: same_object_def)
  from a(4) show ?thesis
  proof
    assume "life_advance l (Moving m k b) a"
    from advance_from_moving [OF this k] a(3) consider "a = Done m" |
      k' b' where "a = Moving m k' b'" "stepsLeft l m k' b' < stepsLeft l m k b" by blast
    then show ?thesis
    proof cases
      case 1
      with a(2) w(3) spec show ?thesis by simp
    next
      case 2
      with a(2) w(3) have "represents (vrVolumes (vrs i)) (Moving m k' b') (vr_status (vrs (Suc i)))" by simp
      moreover have "stepsLeft l m k' b' + (if stalled (cs i) ns n (vrs i) (vrs (Suc i)) then 0 else 1) \<le> stepsLeft l m k b"
        using 2(2) by simp
      ultimately show ?thesis using spec by blast
    qed
  next
    assume held: "a = Moving m k b \<and> (\<exists>d > 0. result (Reconcile (cs i) ns n) [] = requeueAfter d) \<and>
      heldUp (vrs i) r v (trace (Reconcile (cs i) ns n) [])"
    then have rep': "represents (vrVolumes (vrs i)) (Moving m k b) (vr_status (vrs (Suc i)))"
      using a(2) w(3) by simp
    from same_progress [OF this rep] held at have "stalled (cs i) ns n (vrs i) (vrs (Suc i))"
      by (simp add: stalled_def)
    with rep' spec show ?thesis by auto
  qed
qed

lemma migration_run_steps:
  assumes "migration_run ns n cs vrs" and "plannable (vrVolumes (vrs 0))"
    and "represents (vrVolumes (vrs 0)) (Moving m k b) (vr_status (vrs 0))"
  defines "l \<equiv> length (vrVolumes (vrs 0))"
  shows "(\<exists>i \<le> N. vrPhase (vrs i) = PhaseCompleted) \<or>
    vr_spec (vrs N) = vr_spec (vrs 0) \<and> (\<exists>k' b'. represents (vrVolumes (vrs 0)) (Moving m k' b') (vr_status (vrs N)) \<and>
      stepsLeft l m k' b' + card {i. i < N \<and> \<not> stalled (cs i) ns n (vrs i) (vrs (Suc i))} \<le> stepsLeft l m k b)"
proof (induction N)
  case 0
  then show ?case using assms(3) by auto
next
  case (Suc N)
  let ?free = "\<lambda>i. \<not> stalled (cs i) ns n (vrs i) (vrs (Suc i))"
  have "{i. i < Suc N \<and> ?free i} = (if ?free N then insert N {i. i < N \<and> ?free i} else {i. i < N \<and> ?free i})"
    by (auto simp: less_Suc_eq)
  then have count: "card {i. i < Suc N \<and> ?free i} = card {i. i < N \<and> ?free i} + (if ?free N then 1 else 0)"
    by (simp add: card_insert_if)
  from Suc show ?case
  proof
    assume "\<exists>i \<le> N. vrPhase (vrs i) = PhaseCompleted"
    then show ?thesis by (meson le_SucI)
  next
    assume "vr_spec (vrs N) = vr_spec (vrs 0) \<and> (\<exists>k' b'. represents (vrVolumes (vrs 0)) (Moving m k' b') (vr_status (vrs N)) \<and>
      stepsLeft l m k' b' + card {i. i < N \<and> ?free i} \<le> stepsLeft l m k b)"
    then obtain k' b' where at: "vr_spec (vrs N) = vr_spec (vrs 0)" "represents (vrVolumes (vrs N)) (Moving m k' b') (vr_status (vrs N))"
      "stepsLeft l m k' b' + card {i. i < N \<and> ?free i} \<le> stepsLeft l m k b" by auto
    have "plannable (vrVolumes (vrs N))" using assms(2) at(1) by simp
    from migration_run_step [OF assms(1) this at(2)] at show ?thesis
    proof (elim conjE disjE exE)
      fix k'' b'' assume "vr_spec (vrs (Suc N)) = vr_spec (vrs N)"
        "represents (vrVolumes (vrs N)) (Moving m k'' b'') (vr_status (vrs (Suc N)))"
        "stepsLeft (length (vrVolumes (vrs N))) m k'' b'' + (if stalled (cs N) ns n (vrs N) (vrs (Suc N)) then 0 else 1)
          \<le> stepsLeft (length (vrVolumes (vrs N))) m k' b'"
      then have "vr_spec (vrs (Suc N)) = vr_spec (vrs 0)"
        "represents (vrVolumes (vrs 0)) (Moving m k'' b'') (vr_status (vrs (Suc N)))"
        "stepsLeft l m k'' b'' + card {i. i < Suc N \<and> ?free i} \<le> stepsLeft l m k b"
        using at count by (simp_all add: l_def split: if_splits)
      then show ?thesis by blast
    qed blast
  qed
qed

text \<open>
  C11: On a cooperative cluster a migration completes: when it has come to its first volume, and no call
  fails from then on, then after \<open>2 * m * l\<close> calls that were not stalled (for \<open>m\<close> replicas with
  \<open>l\<close> volumes), however many stalled ones are in between, the object has reached the phase Completed.
\<close>

theorem helped_migration_completes:
  assumes "migration_run ns n cs vrs" and "plannable (vrVolumes (vrs 0))"
    and "represents (vrVolumes (vrs 0)) (Moving m 0 False) (vr_status (vrs 0))"
    and "2 * (m * length (vrVolumes (vrs 0))) \<le> card {i. i < N \<and> \<not> stalled (cs i) ns n (vrs i) (vrs (Suc i))}"
  shows "\<exists>i \<le> N. vrPhase (vrs i) = PhaseCompleted"
  using migration_run_steps [OF assms(1-3), of N] assms(4) by (auto simp: stepsLeft_def split: if_splits)

subsection \<open>The small cluster is cooperative\<close>

text \<open>Compliance as a run over the events.\<close>

fun checks :: "policy \<Rightarrow> history \<Rightarrow> history \<Rightarrow> bool" where
  "checks G pre [] \<longleftrightarrow> True"
| "checks G pre (e # t) \<longleftrightarrow> G pre e \<and> checks G (pre @ [e]) t"

lemma checks_compliant: "compliant G pre \<Longrightarrow> checks G pre t \<Longrightarrow> compliant G (pre @ t)"
proof (induction t arbitrary: pre)
  case (Cons e t)
  then have "compliant G ((pre @ [e]) @ t)" by (intro Cons.IH) simp_all
  then show ?case by simp
qed simp

lemma demo_checks: "checks (cooperates demoClient (demoVR demoSyncing) 0 ''data'') [] demoRun"
  by code_simp

lemma demo_helped: "helped_call demoClient ''d'' ''r'' (demoVR demoSyncing)"
proof -
  have "compliant (cooperates demoClient (demoVR demoSyncing) 0 ''data'') demoRun"
    using checks_compliant [OF _ demo_checks] by simp
  then have "cooperative demoClient (demoVR demoSyncing) demoRun"
    by (simp add: cooperative_def demo_client(5,6))
  moreover have "l_containsFinalizer demoClient (om_finalizers (vr_meta (demoVR demoSyncing))) FinalizerName"
    by (simp add: demoClient_def cluster_client_def demoVR_def)
  ultimately show ?thesis
    using demo_client(1,3,4) demo_positive by (simp add: helped_call_def demoRun_def)
qed

lemma demo_key: "keyAt (vrVolumes (demoVR s)) 0 = (0, ''data'')"
  by (simp add: keyAt_def demoVR_def)

theorem helped_call_goes_on_witness:
  "\<exists>w a. latest (trace (Reconcile demoClient ''d'' ''r'') []) = Some w \<and>
    represents (vrVolumes (demoVR demoSyncing)) a (vr_status w) \<and> a \<noteq> Stopped"
  using helped_call_goes_on [OF demo_helped demo_plannable demo_represents demo_key] by blast

text \<open>The object is read, migrated by the one call, and then left alone.\<close>

definition demoRuns :: "nat \<Rightarrow> VolumeResize" where
  "demoRuns i = (if i = 0 then demoVR demoSyncing else storedVR (demoVR demoSyncing) demoRun)"

lemma demo_done:
  "vrPhase (storedVR (demoVR demoSyncing) demoRun) = PhaseCompleted"
  "st_currentReplica (vr_status (storedVR (demoVR demoSyncing) demoRun)) = None"
  by code_simp+

lemma demo_run: "migration_run ''d'' ''r'' (\<lambda>i. demoClient) demoRuns"
proof -
  have "latest demoRun \<noteq> None"
    using Reconcile_trace [of demoClient "''d''" "''r''"] demo_client(3) latest_answered [of "EvGetVR ''d'' ''r'' (Inr (demoVR demoSyncing))"]
    by (fastforce simp: demoRun_def)
  then have "latest demoRun = Some (storedVR (demoVR demoSyncing) demoRun)"
    by (auto simp: storedVR_def)
  then show ?thesis
    using demo_helped demo_done(1) by (auto simp: migration_run_def demoRuns_def demoRun_def phase_defs)
qed

theorem helped_migration_completes_witness: "\<exists>i \<le> 2. vrPhase (demoRuns i) = PhaseCompleted"
proof (rule helped_migration_completes [OF demo_run])
  have "progress (vr_status (demoRuns 1)) \<noteq> progress (vr_status (demoRuns 0))"
    using demo_done(1) by (auto simp: progress_def demoRuns_def demoVR_def demoSyncing_def phase_defs)
  moreover have "st_currentReplica (vr_status (demoRuns 1)) = None"
    using demo_done(2) by (simp add: demoRuns_def)
  ultimately have "{i. i < 2 \<and> \<not> stalled demoClient ''d'' ''r'' (demoRuns i) (demoRuns (Suc i))} = {0, 1}"
    by (auto simp: stalled_def)
  then show "2 * (1 * length (vrVolumes (demoRuns 0))) \<le> card {i. i < 2 \<and> \<not> stalled demoClient ''d'' ''r'' (demoRuns i) (demoRuns (Suc i))}"
    by (simp add: demoRuns_def demo_spec)
qed (simp_all add: demoRuns_def demo_plannable demo_represents [simplified])

end
