(* ===== verification/Completion.thy ===== *)
theory Completion
  imports Progress
begin

section \<open>From creation to completion\<close>

text \<open>
  The promise of the operator as a whole: a new VolumeResize, called on again and again by a cluster on which
  calls do not fail, is completed. Where \<open>Progress\<close> follows the phase Syncing, this theory follows the object
  from its creation: the finalizer, the start, the checks, the schedule.
\<close>

subsection \<open>The calls before the migration\<close>

text \<open>Before the migration all that is needed is that status updates are accepted.\<close>

fun accepts :: policy where
  "accepts h (EvStatusVR w res) \<longleftrightarrow> isAnswer res"
| "accepts h _ \<longleftrightarrow> True"

text \<open>
  The hypotheses on one call on a live object: of a syncing one those of \<open>Progress\<close>, of a validating one
  that the checks pass.
\<close>

definition live_call :: "client \<Rightarrow> string \<Rightarrow> string \<Rightarrow> VolumeResize \<Rightarrow> bool" where
  "live_call c ns n vr \<longleftrightarrow> serves c \<and> positive_replicas c [EvGetVR ns n (Inr vr)] \<and> c_getVR c [] ns n = Inr vr \<and>
     om_deletionTimestamp (vr_meta vr) = None \<and>
     (l_containsFinalizer c (om_finalizers (vr_meta vr)) FinalizerName \<longrightarrow>
       (if vrPhase vr = PhaseSyncing then cooperative c vr (trace (Reconcile c ns n) [])
        else compliant accepts (trace (Reconcile c ns n) []) \<and>
          (vrPhase vr = PhaseValidating \<longrightarrow> isAnswer (result (runChecks c vr) [EvGetVR ns n (Inr vr)]))))"

lemma accepted_requeue:
  "wlp accepts (do { u \<leftarrow> StatusUpdateVR c w; case u of Inl err \<Rightarrow> ret (failWith err) | Inr _ \<Rightarrow> ret requeue })
     (\<lambda>out h. out = requeue) h"
  unfolding StatusUpdateVR_def by (rule wlp_then) (auto intro!: appends_cases wlp_ret split: sum.split)

lemma handlePending_accepted: "wlp accepts (handlePending c vr) (\<lambda>out h. out = requeue) h"
  unfolding handlePending_def Now_def by (rule wlp_then) (auto intro!: accepted_requeue appends_rules)

lemma startSyncing_accepted:
  "vrVolumes vr \<noteq> [] \<Longrightarrow> wlp accepts (startSyncing c vr sts) (\<lambda>out h. out = requeue) h"
  by (cases "vrVolumes vr") (simp_all add: startSyncing_def accepted_requeue)

lemma handleValidating_accepted:
  assumes "isAnswer (result (runChecks c vr) h)" and "vrVolumes vr \<noteq> []"
  shows "wlp accepts (handleValidating c vr) (\<lambda>out h. out = requeue) h"
proof -
  obtain sts where "result (runChecks c vr) h = Inr sts"
    using assms(1) by (cases "result (runChecks c vr) h") simp_all
  with startSyncing_accepted [OF assms(2)] show ?thesis
    by (simp add: handleValidating_def wlp_def)
qed

text \<open>Such a call asks to be called again at once.\<close>

lemma early_call_requeues:
  assumes live: "live_call c ns n vr" and fin: "l_containsFinalizer c (om_finalizers (vr_meta vr)) FinalizerName"
    and vols: "vrVolumes vr \<noteq> []" and phase: "vrPhase vr = '''' \<or> vrPhase vr = PhasePending \<or> vrPhase vr = PhaseValidating"
  shows "result (Reconcile c ns n) [] = requeue"
proof -
  let ?h = "[EvGetVR ns n (Inr vr)]"
  have run: "result (Reconcile c ns n) [] = result (dispatch c vr) ?h" "trace (Reconcile c ns n) [] = trace (dispatch c vr) ?h"
    using live fin by (simp_all add: Reconcile_def GetVR_def live_call_def snoc_def)
  have "vrPhase vr \<noteq> PhaseSyncing"
    using phase by (auto simp: phase_defs)
  then have ok: "compliant accepts (trace (dispatch c vr) ?h)" "vrPhase vr = PhaseValidating \<longrightarrow> isAnswer (result (runChecks c vr) ?h)"
    using live fin run(2) by (simp_all add: live_call_def)
  have "wlp accepts (dispatch c vr) (\<lambda>out h. out = requeue) ?h"
  proof (cases "vrPhase vr = PhaseValidating")
    case True
    with ok(2) vols show ?thesis
      by (simp add: dispatch_def phase_defs handleValidating_accepted)
  next
    case False
    with phase show ?thesis
      by (auto simp: dispatch_def handlePending_accepted)
  qed
  with ok(1) run(1) show ?thesis
    by (simp add: wlp_def)
qed

subsection \<open>A live call\<close>

text \<open>A call that may be expected to get somewhere: the object has its finalizer, and the cluster did not hold it up.\<close>

definition productive :: "client \<Rightarrow> string \<Rightarrow> string \<Rightarrow> VolumeResize \<Rightarrow> VolumeResize \<Rightarrow> bool" where
  "productive c ns n vr w \<longleftrightarrow> l_containsFinalizer c (om_finalizers (vr_meta vr)) FinalizerName \<and> \<not> stalled c ns n vr w"

text \<open>Without the finalizer the call does nothing but add it.\<close>

lemma finalizer_call:
  assumes "serves c" and "c_getVR c [] ns n = Inr vr" and "om_deletionTimestamp (vr_meta vr) = None"
    and "\<not> l_containsFinalizer c (om_finalizers (vr_meta vr)) FinalizerName"
  obtains w where "latest (trace (Reconcile c ns n) []) = Some w" "same_object w vr" "progress (vr_status w) = progress (vr_status vr)"
proof -
  let ?v = "withMeta (\<lambda>m. m\<lparr>om_finalizers := l_addFinalizer c (om_finalizers m) FinalizerName\<rparr>) vr"
  let ?h = "[EvGetVR ns n (Inr vr)]"
  have trace: "trace (Reconcile c ns n) [] = ?h @ [EvUpdateVR ?v (c_updateVR c ?h ?v)]"
    using assms by (simp add: Reconcile_def GetVR_def UpdateVR_def snoc_def split: sum.split)
  have first: "latest ?h = Some vr"
    using latest_append [of "[]" "EvGetVR ns n (Inr vr)"] by simp
  have same: "same_object ?v vr" "vr_status ?v = vr_status vr"
    by (simp_all add: same_object_def)
  show ?thesis
  proof (cases "c_updateVR c ?h ?v")
    case (Inl e)
    then have "latest (trace (Reconcile c ns n) []) = Some vr"
      using first unfolding trace latest_append by simp
    then show ?thesis by (rule that) simp_all
  next
    case (Inr w)
    then have "latest (trace (Reconcile c ns n) []) = Some w"
      unfolding trace latest_append by simp
    moreover have "same_object w vr"
      using servesD(4) [OF assms(1) Inr] same(1) by (rule same_object_trans)
    moreover have "progress (vr_status w) = progress (vr_status vr)"
      using servesD(5) [OF assms(1) Inr first] same(2) by simp
    ultimately show ?thesis by (rule that)
  qed
qed

text \<open>A live call brings the object further, or leaves it where it is and was not productive.\<close>

lemma live_call_goes_on:
  assumes live: "live_call c ns n vr" and p: "plannable (vrVolumes vr)"
    and rep: "represents (vrVolumes vr) a (vr_status vr)" and open_life: "a \<noteq> Stopped" "vrPhase vr \<noteq> PhaseCompleted"
  obtains w d where "latest (trace (Reconcile c ns n) []) = Some w" "same_object w vr"
    "represents (vrVolumes vr) d (vr_status w)" "d \<noteq> Stopped"
    "life_advance (length (vrVolumes vr)) a d \<or> d = a \<and>
      (progress (vr_status u) = progress (vr_status w) \<longrightarrow> \<not> productive c ns n vr u)"
proof (cases "l_containsFinalizer c (om_finalizers (vr_meta vr)) FinalizerName")
  case False
  with live obtain w where w: "latest (trace (Reconcile c ns n) []) = Some w" "same_object w vr"
      "progress (vr_status w) = progress (vr_status vr)"
    using finalizer_call [of c ns n vr] by (auto simp: live_call_def)
  then have "represents (vrVolumes vr) a (vr_status w)"
    using represents_progress rep by blast
  from that [OF w(1,2) this open_life(1)] show ?thesis
    using False by (simp add: productive_def)
next
  case fin: True
  have c: "serves c" "positive_replicas c [EvGetVR ns n (Inr vr)]" "c_getVR c [] ns n = Inr vr"
    and alive: "om_deletionTimestamp (vr_meta vr) = None"
    using live by (simp_all add: live_call_def)
  show ?thesis
  proof (cases "\<exists>m k b. a = Moving m k b")
    case True
    then obtain m k b where a: "a = Moving m k b" by blast
    obtain r v where kv: "keyAt (vrVolumes vr) k = (r, v)" by fastforce
    have at: "st_currentReplica (vr_status vr) = Some r" "st_currentVolume (vr_status vr) = v" "vrPhase vr = PhaseSyncing"
      using rep kv by (simp_all add: a)
    have "helped_call c ns n vr"
      using live fin at(3) by (simp add: helped_call_def live_call_def)
    from helped_call_goes_on [OF this p rep [unfolded a] kv] obtain w d where w: "latest (trace (Reconcile c ns n) []) = Some w"
      "same_object w vr" "represents (vrVolumes vr) d (vr_status w)" "d \<noteq> Stopped"
      "life_advance (length (vrVolumes vr)) a d \<or> d = a \<and> (\<exists>d > 0. result (Reconcile c ns n) [] = requeueAfter d) \<and>
        heldUp vr r v (trace (Reconcile c ns n) [])"
      unfolding a by blast
    have "\<not> productive c ns n vr u"
      if "d = a" "progress (vr_status u) = progress (vr_status w)" "\<exists>d > 0. result (Reconcile c ns n) [] = requeueAfter d"
        "heldUp vr r v (trace (Reconcile c ns n) [])"
      using same_progress [of "vrVolumes vr" m k b "vr_status w" "vr_status vr"] that w(3) rep at
      by (auto simp: productive_def stalled_def a)
    with w(5) show ?thesis
      by (intro that [OF w(1-4)]) blast
  next
    case False
    with rep open_life have phase: "vrPhase vr = '''' \<or> vrPhase vr = PhasePending \<or> vrPhase vr = PhaseValidating"
      by (cases a) auto
    have "vrVolumes vr \<noteq> []"
      using p by (simp add: plannable_def)
    from early_call_requeues [OF live fin this phase] have out: "result (Reconcile c ns n) [] = requeue" .
    obtain w d where w: "latest (trace (Reconcile c ns n) []) = Some w" "represents (vrVolumes vr) d (vr_status w)" "d \<noteq> Stopped"
      "life_advance (length (vrVolumes vr)) a d"
      using Reconcile_compliant(3) [OF c p rep alive fin] out by (auto simp: settled_def)
    have "trace (Reconcile c ns n) [] \<noteq> []"
      using Reconcile_trace [of c ns n] c(3) by auto
    from Reconcile_point [OF c p rep _ this, of "[]"] w(1) have "same_object w vr" by auto
    from that [OF w(1) this w(2,3)] w(4) show ?thesis by blast
  qed
qed

subsection \<open>A whole life\<close>

text \<open>
  The object as a sequence of live calls leaves it; between two calls others may edit its metadata, and of
  its status what does not say how far it is.
\<close>

definition life_run :: "string \<Rightarrow> string \<Rightarrow> (nat \<Rightarrow> client) \<Rightarrow> (nat \<Rightarrow> VolumeResize) \<Rightarrow> bool" where
  "life_run ns n cs vrs \<longleftrightarrow> (\<forall>i. vrPhase (vrs i) \<noteq> PhaseCompleted \<longrightarrow> live_call (cs i) ns n (vrs i) \<and>
     (\<exists>w. latest (trace (Reconcile (cs i) ns n) []) = Some w \<and>
        vr_spec (vrs (Suc i)) = vr_spec w \<and> progress (vr_status (vrs (Suc i))) = progress (vr_status w)))"

lemma life_run_step:
  assumes run: "life_run ns n cs vrs" and "vrPhase (vrs i) \<noteq> PhaseCompleted"
    and "plannable (vrVolumes (vrs i))" and "represents (vrVolumes (vrs i)) a (vr_status (vrs i))" and "a \<noteq> Stopped"
  shows "vr_spec (vrs (Suc i)) = vr_spec (vrs i) \<and>
    (\<exists>d. represents (vrVolumes (vrs i)) d (vr_status (vrs (Suc i))) \<and> d \<noteq> Stopped \<and>
       (life_advance (length (vrVolumes (vrs i))) a d \<or> d = a \<and> \<not> productive (cs i) ns n (vrs i) (vrs (Suc i))))"
proof -
  obtain w where live: "live_call (cs i) ns n (vrs i)" and w: "latest (trace (Reconcile (cs i) ns n) []) = Some w"
    "vr_spec (vrs (Suc i)) = vr_spec w" "progress (vr_status (vrs (Suc i))) = progress (vr_status w)"
    using run assms(2) by (auto simp: life_run_def)
  from live_call_goes_on [OF live assms(3-5,2), where u = "vrs (Suc i)"] obtain d where d: "same_object w (vrs i)"
    "represents (vrVolumes (vrs i)) d (vr_status w)" "d \<noteq> Stopped"
    "life_advance (length (vrVolumes (vrs i))) a d \<or> d = a \<and> \<not> productive (cs i) ns n (vrs i) (vrs (Suc i))"
    using w(1,3) by (metis option.inject)
  then show ?thesis
    using w(2) represents_progress [OF w(3)] by (auto simp: same_object_def)
qed

text \<open>A state on the way from the creation of the object.\<close>

definition on_the_way :: "nat \<Rightarrow> life \<Rightarrow> bool" where
  "on_the_way l a \<longleftrightarrow> life_path l Fresh a \<and> a \<noteq> Stopped"

inductive_cases life_step_to_Done: "life_step l a (Done m)"

lemma on_the_way_Done:
  assumes "on_the_way l (Done m)"
  shows "0 < m"
proof -
  have "life_path l Fresh (Done m)"
    using assms by (simp add: on_the_way_def)
  then show ?thesis
    by (cases rule: rtranclp.cases) (auto elim!: life_step_to_Done intro: gr0I)
qed

lemma life_run_open:
  assumes run: "life_run ns n cs vrs" and new: "new_resize (vrs 0)"
    and never: "\<nexists>i m. 0 < m \<and> represents (vrVolumes (vrs 0)) (Done m) (vr_status (vrs i))"
  defines "l \<equiv> length (vrVolumes (vrs 0))"
  shows "vr_spec (vrs i) = vr_spec (vrs 0) \<and> represents (vrVolumes (vrs 0)) a (vr_status (vrs i)) \<and> on_the_way l a \<Longrightarrow>
      \<exists>d. vr_spec (vrs (Suc i)) = vr_spec (vrs 0) \<and> represents (vrVolumes (vrs 0)) d (vr_status (vrs (Suc i))) \<and> on_the_way l d \<and>
        (life_advance l a d \<or> d = a \<and> \<not> productive (cs i) ns n (vrs i) (vrs (Suc i)))"
proof -
  assume at: "vr_spec (vrs i) = vr_spec (vrs 0) \<and> represents (vrVolumes (vrs 0)) a (vr_status (vrs i)) \<and> on_the_way l a"
  have "\<not> represents (vrVolumes (vrs 0)) (Done m) (vr_status (vrs i))" if "a = Done m" for m
    using at that never on_the_way_Done by blast
  then have "vrPhase (vrs i) \<noteq> PhaseCompleted"
    using at by (cases a) (auto simp: phase_defs on_the_way_def)
  moreover have "plannable (vrVolumes (vrs i))"
    using new at by (simp add: new_resize_def)
  moreover have "represents (vrVolumes (vrs i)) a (vr_status (vrs i))" "a \<noteq> Stopped"
    using at by (simp_all add: on_the_way_def)
  ultimately obtain d where d: "vr_spec (vrs (Suc i)) = vr_spec (vrs i)" "represents (vrVolumes (vrs i)) d (vr_status (vrs (Suc i)))"
      "d \<noteq> Stopped" "life_advance (length (vrVolumes (vrs i))) a d \<or> d = a \<and> \<not> productive (cs i) ns n (vrs i) (vrs (Suc i))"
    using life_run_step [OF run] by blast
  then have "on_the_way l d"
    using at by (auto simp: on_the_way_def l_def dest: tranclp_into_rtranclp intro: rtranclp_trans)
  with d at show ?thesis by (auto simp: l_def)
qed

text \<open>
  C12: A new VolumeResize is completed: when no call fails that may not fail and the checks pass, then however
  often the cluster holds a call up, as long as productive calls do not cease, the object comes to the phase
  Completed, with a completed entry for every volume of every replica, in the order of the schedule, and at
  least one replica.
\<close>

theorem new_object_completes:
  assumes "new_resize (vrs 0)" and "life_run ns n cs vrs"
    and "infinite {i. productive (cs i) ns n (vrs i) (vrs (Suc i))}"
  shows "\<exists>i m. 0 < m \<and> represents (vrVolumes (vrs 0)) (Done m) (vr_status (vrs i))"
proof (rule ccontr)
  let ?vols = "vrVolumes (vrs 0)" and ?l = "length (vrVolumes (vrs 0))"
  let ?at = "\<lambda>i a. vr_spec (vrs i) = vr_spec (vrs 0) \<and> represents (vrVolumes (vrs 0)) a (vr_status (vrs i)) \<and> on_the_way (length (vrVolumes (vrs 0))) a"
  let ?ranks = "{life_rank ?l a |a i. ?at i a}"
  assume never: "\<nexists>i m. 0 < m \<and> represents ?vols (Done m) (vr_status (vrs i))"
  note step = life_run_open [OF assms(2,1) never]
  have "?at 0 Fresh"
    using assms(1) by (simp add: new_resize_def on_the_way_def)
  then have "life_rank ?l Fresh \<in> ?ranks" by blast
  moreover have "wf ((less_than <*lex*> less_than) :: ((nat \<times> nat) \<times> nat \<times> nat) set)"
    by (simp add: wf_lex_prod)
  ultimately obtain z where "z \<in> ?ranks" "\<And>y. (y, z) \<in> less_than <*lex*> less_than \<Longrightarrow> y \<notin> ?ranks"
    by (meson wfE_min)
  then obtain a i where least: "?at i a" "\<And>d j. ?at j d \<Longrightarrow> \<not> life_advance ?l a d"
    using life_advance_rank by blast
  have stays: "?at (i + k) a" for k
  proof (induction k)
    case (Suc k)
    from step [OF this] least(2) [of "Suc (i + k)"] show ?case by auto
  qed (simp add: least(1))
  have "\<not> productive (cs j) ns n (vrs j) (vrs (Suc j))" if "i \<le> j" for j
    using step [of j a] stays [of "j - i"] least(2) [of "Suc j"] that by auto
  then have "{j. productive (cs j) ns n (vrs j) (vrs (Suc j))} \<subseteq> {..<i}"
    using not_le by blast
  then show False
    using assms(3) finite_subset finite_lessThan by blast
qed

subsection \<open>The small cluster completes its object\<close>

definition lifeVR :: "nat \<Rightarrow> VolumeResize" where
  "lifeVR i = (if i = 0 then demoVR zeroStatus else if i = 1 then demoVR (zeroStatus\<lparr>st_phase := PhaseValidating\<rparr>)
     else if i = 2 then demoVR demoSyncing
     else (storedVR (demoVR demoSyncing) demoRun)\<lparr>vr_meta := vr_meta (demoVR zeroStatus)\<rparr>)"

definition lifeClient :: "nat \<Rightarrow> client" where
  "lifeClient i = cluster_client (lifeVR i) demoSTS demoCluster"

lemma life_syncing: "lifeVR 2 = demoVR demoSyncing" "lifeClient 2 = demoClient"
  by (simp_all add: lifeVR_def lifeClient_def demoClient_def)

lemma life_checks:
  "checks accepts [] (trace (Reconcile (lifeClient 0) ''d'' ''r'') [])"
  "checks accepts [] (trace (Reconcile (lifeClient 1) ''d'' ''r'') [])"
  "isAnswer (result (runChecks (lifeClient 1) (lifeVR 1)) [EvGetVR ''d'' ''r'' (Inr (lifeVR 1))])"
  by code_simp+

lemma life_written:
  "map_option (\<lambda>w. (vr_spec w, progress (vr_status w))) (latest (trace (Reconcile (lifeClient 0) ''d'' ''r'') [])) =
     Some (vr_spec (lifeVR 1), progress (vr_status (lifeVR 1)))"
  "map_option (\<lambda>w. (vr_spec w, progress (vr_status w))) (latest (trace (Reconcile (lifeClient 1) ''d'' ''r'') [])) =
     Some (vr_spec (lifeVR 2), progress (vr_status (lifeVR 2)))"
  by code_simp+

lemma life_client:
  "serves (lifeClient i)" "positive_replicas (lifeClient i) [EvGetVR ns n (Inr vr)]"
  "c_getVR (lifeClient i) [] ns n = Inr (lifeVR i)"
  "l_containsFinalizer (lifeClient i) fs f \<longleftrightarrow> f \<in> set fs"
proof -
  show "serves (lifeClient i)"
    by (simp add: lifeClient_def cluster_client_serves)
  show "positive_replicas (lifeClient i) [EvGetVR ns n (Inr vr)]"
    using demo_positive [of ns n vr] by (simp add: positive_replicas_def lifeClient_def demoClient_def cluster_client_def)
qed (simp_all add: lifeClient_def cluster_client_def storedVR_def)

lemma life_alive: "om_deletionTimestamp (vr_meta (lifeVR i)) = None" "om_finalizers (vr_meta (lifeVR i)) = [FinalizerName]"
  by (simp_all add: lifeVR_def demoVR_def zeroMeta_def)

lemma life_live: "live_call (lifeClient i) ''d'' ''r'' (lifeVR i)" if "i < 3" for i
proof -
  have "compliant accepts (trace (Reconcile (lifeClient 0) ''d'' ''r'') [])" "compliant accepts (trace (Reconcile (lifeClient 1) ''d'' ''r'') [])"
    using checks_compliant [OF _ life_checks(1)] checks_compliant [OF _ life_checks(2)] by simp_all
  moreover have "cooperative (lifeClient 2) (lifeVR 2) (trace (Reconcile (lifeClient 2) ''d'' ''r'') [])"
    using demo_helped by (simp add: helped_call_def life_syncing)
  moreover have "vrPhase (lifeVR 0) = ''''" "vrPhase (lifeVR 1) = PhaseValidating" "vrPhase (lifeVR 2) = PhaseSyncing"
    by (simp_all add: lifeVR_def demoVR_def zeroStatus_def demoSyncing_def)
  moreover have "i = 0 \<or> i = 1 \<or> i = 2"
    using that by linarith
  ultimately show ?thesis
    using life_checks(3) life_client life_alive [of i] by (auto simp: live_call_def phase_defs)
qed

lemma life_next:
  assumes "i < 3"
  shows "\<exists>w. latest (trace (Reconcile (lifeClient i) ''d'' ''r'') []) = Some w \<and>
    vr_spec (lifeVR (Suc i)) = vr_spec w \<and> progress (vr_status (lifeVR (Suc i))) = progress (vr_status w)"
proof -
  obtain w where w: "latest (trace (Reconcile (lifeClient i) ''d'' ''r'') []) = Some w"
    using Reconcile_trace [of "lifeClient i" "''d''" "''r''"] life_client(3) latest_answered [of "EvGetVR ''d'' ''r'' (Inr (lifeVR i))"]
    by fastforce
  from assms consider "i = 0" | "i = 1" | "i = 2" by linarith
  then show ?thesis
  proof cases
    case 3
    with w have "storedVR (demoVR demoSyncing) demoRun = w"
      by (simp add: life_syncing demoRun_def storedVR_def)
    with w 3 show ?thesis by (simp add: lifeVR_def)
  qed (use life_written w in \<open>auto simp: numeral_2_eq_2\<close>)
qed

lemma life_completed: "3 \<le> i \<Longrightarrow> vrPhase (lifeVR i) = PhaseCompleted \<and> st_currentReplica (vr_status (lifeVR i)) = None"
  by (simp add: lifeVR_def demo_done)

theorem new_object_completes_witness: "\<exists>i m. 0 < m \<and> represents (vrVolumes (lifeVR 0)) (Done m) (vr_status (lifeVR i))"
proof (rule new_object_completes)
  show "new_resize (lifeVR 0)"
    by (simp add: lifeVR_def demo_new)
  have "i < 3" if "vrPhase (lifeVR i) \<noteq> PhaseCompleted" for i
    using that life_completed [of i] by linarith
  then show "life_run ''d'' ''r'' lifeClient lifeVR"
    using life_live life_next by (auto simp: life_run_def)
  have "productive (lifeClient i) ''d'' ''r'' (lifeVR i) (lifeVR (Suc i))" if "3 \<le> i" for i
    using life_completed [OF that] life_client(4) life_alive(2) by (simp add: productive_def stalled_def)
  then have "{3..} \<subseteq> {i. productive (lifeClient i) ''d'' ''r'' (lifeVR i) (lifeVR (Suc i))}" by auto
  then show "infinite {i. productive (lifeClient i) ''d'' ''r'' (lifeVR i) (lifeVR (Suc i))}"
    using infinite_Ici infinite_super by blast
qed

end
