(* ===== verification/Migrate_Script.thy ===== *)
theory Migrate_Script
  imports Simulation
begin

section \<open>The migrator image (build/migrator/migrate.sh)\<close>

text \<open>
  The script that the migrator pod runs, as bash runs it under \<^verbatim>\<open>set -euo pipefail\<close>: what it prints,
  the commands it starts, in order, and its exit status. The file system (which paths are directories)
  and \<^verbatim>\<open>rclone\<close> (the exit status of a command line) are parameters.
\<close>

datatype action = Echo string | Execute "string list"

text \<open>\<^verbatim>\<open>${NAME:-word}\<close>: the word when the variable is unset or empty.\<close>

definition orDefault :: "string option \<Rightarrow> string \<Rightarrow> string" where
  "orDefault value word = (case value of None \<Rightarrow> word | Some s \<Rightarrow> if s = '''' then word else s)"

definition syncCommand :: "string \<Rightarrow> string \<Rightarrow> string list" where
  "syncCommand source dest = [''rclone'', ''sync'', source @ ''/'', dest @ ''/'',
     ''--progress'', ''--transfers'', ''4'', ''--checkers'', ''8'', ''--verbose'']"

text \<open>Lines 44-53: the report on the exit status of \<^verbatim>\<open>rclone\<close>, which becomes that of the script.\<close>

definition reportExit :: "nat \<Rightarrow> action list \<times> nat" where
  "reportExit rcloneExit =
     ([Echo ''''] @
      (if rcloneExit = 0 then [Echo ''Migration completed successfully'']
       else [Echo (''Migration failed with exit code: '' @ showInt (int rcloneExit))]),
      rcloneExit)"

text \<open>With \<^verbatim>\<open>set -e\<close> a command that fails ends the script at once, with the status of the command.\<close>

definition orExit :: "action list \<Rightarrow> nat \<Rightarrow> (nat \<Rightarrow> action list \<times> nat) \<Rightarrow> action list \<times> nat" where
  "orExit before status rest =
     (if status \<noteq> 0 then (before, status) else (case rest status of (later, code) \<Rightarrow> (before @ later, code)))"

definition migrate :: "(string \<Rightarrow> string option) \<Rightarrow> (string \<Rightarrow> bool) \<Rightarrow> (string list \<Rightarrow> nat) \<Rightarrow> action list \<times> nat" where
  "migrate env isDir rclone =
     (let source = orDefault (env ''SOURCE_PATH'') ''/source'';
          dest = orDefault (env ''DEST_PATH'') ''/dest'';
          opening = [Echo ''Starting volume migration'', Echo (''  Source: '' @ source),
            Echo (''  Destination: '' @ dest), Echo '''']
      in if \<not> isDir source then (opening @ [Echo (''ERROR: Source path does not exist: '' @ source)], 1)
         else if \<not> isDir dest then (opening @ [Echo (''ERROR: Destination path does not exist: '' @ dest)], 1)
         else orExit (opening @ [Echo ''Running rclone sync...'', Echo '''', Execute (syncCommand source dest)])
                (rclone (syncCommand source dest)) reportExit)"

subsection \<open>Properties\<close>

text \<open>What the pod gives its container: environment variables, and where a claim is mounted.\<close>

definition containerEnv :: "Container \<Rightarrow> string \<Rightarrow> string option" where
  "containerEnv ctr = map_of (map (\<lambda>e. (env_name e, env_value e)) (ctr_env ctr))"

definition mountPath :: "Pod \<Rightarrow> string \<Rightarrow> string option" where
  "mountPath pod claim =
     (case find (\<lambda>vol. pvol_claimName vol = claim) (pod_volumes pod) of
        None \<Rightarrow> None
      | Some vol \<Rightarrow> map_option vm_mountPath
          (find (\<lambda>m. vm_name m = pvol_name vol) (concat (map ctr_volumeMounts (pod_containers pod)))))"

definition commands :: "action list \<Rightarrow> string list list" where
  "commands log = concat (map (\<lambda>a. case a of Echo s \<Rightarrow> [] | Execute cmd \<Rightarrow> [cmd]) log)"

lemma commands_simps [simp]:
  "commands [] = []" "commands (Echo s # log) = commands log" "commands (Execute cmd # log) = cmd # commands log"
  by (simp_all add: commands_def)

text \<open>
  C36: The script in the pod that the operator builds copies in the right direction: from where the original
  claim is mounted to where the temporary claim is mounted, once, and it starts nothing when one of them
  is missing. It succeeds exactly when that copy ran and succeeded, and it never prints that the migration
  failed.
\<close>

theorem migrator_copies_forward:
  assumes "pod = buildMigratorPod vr vol r (getOriginalPVCName v s i) (getTempPVCName v s i)"
    and "migrate (containerEnv (hd (pod_containers pod))) isDir rclone = (log, code)"
  shows "\<exists>source dest. mountPath pod (getOriginalPVCName v s i) = Some source \<and>
    mountPath pod (getTempPVCName v s i) = Some dest \<and> source \<noteq> dest \<and>
    commands log = (if isDir source \<and> isDir dest then [syncCommand source dest] else []) \<and>
    (code = 0 \<longleftrightarrow> isDir source \<and> isDir dest \<and> rclone (syncCommand source dest) = 0) \<and>
    (\<forall>n. Echo (''Migration failed with exit code: '' @ n) \<notin> set log)"
proof -
  let ?source = "''/source''" and ?dest = "''/dest''"
  have "getOriginalPVCName v s i \<noteq> getTempPVCName v s i"
    by (simp add: getOriginalPVCName_def getTempPVCName_def)
  then have mounts: "mountPath pod (getOriginalPVCName v s i) = Some ?source" "mountPath pod (getTempPVCName v s i) = Some ?dest"
    by (simp_all add: assms(1) mountPath_def buildMigratorPod_def Let_def)
  have "containerEnv (hd (pod_containers pod)) = [''SOURCE_PATH'' \<mapsto> ?source, ''DEST_PATH'' \<mapsto> ?dest]"
    by (auto simp: assms(1) containerEnv_def buildMigratorPod_def Let_def)
  with assms(2) have "commands log = (if isDir ?source \<and> isDir ?dest then [syncCommand ?source ?dest] else [])"
    "code = 0 \<longleftrightarrow> isDir ?source \<and> isDir ?dest \<and> rclone (syncCommand ?source ?dest) = 0"
    "\<forall>n. Echo (''Migration failed with exit code: '' @ n) \<notin> set log"
    by (auto simp: migrate_def orDefault_def orExit_def reportExit_def Let_def split: if_splits)
  with mounts show ?thesis by auto
qed

text \<open>The pod of the small cluster, on a machine that has every directory.\<close>

theorem migrator_copies_forward_witness:
  "\<exists>pod log. pod = buildMigratorPod (demoVR demoSyncing) zeroTarget 0 ''data-web-0'' ''data-web-0-new'' \<and>
    migrate (containerEnv (hd (pod_containers pod))) (\<lambda>d. True) (\<lambda>cmd. 0) = (log, 0) \<and>
    commands log = [syncCommand ''/source'' ''/dest'']"
proof -
  let ?pod = "buildMigratorPod (demoVR demoSyncing) zeroTarget 0 ''data-web-0'' ''data-web-0-new''"
  have names: "getOriginalPVCName ''data'' ''web'' 0 = ''data-web-0''" "getTempPVCName ''data'' ''web'' 0 = ''data-web-0-new''"
    by code_simp+
  obtain log code where run: "migrate (containerEnv (hd (pod_containers ?pod))) (\<lambda>d. True) (\<lambda>cmd. 0) = (log, code)"
    by fastforce
  have "mountPath ?pod ''data-web-0'' = Some ''/source''" "mountPath ?pod ''data-web-0-new'' = Some ''/dest''"
    by (simp_all add: mountPath_def buildMigratorPod_def Let_def)
  with migrator_copies_forward [of ?pod "demoVR demoSyncing" zeroTarget 0 "''data''" "''web''" 0, OF _ run] run show ?thesis
    by (auto simp: names)
qed

end
