(* ===== verification/Deep_Copy.thy ===== *)
theory Deep_Copy
  imports Api
begin

section \<open>Deep copies\<close>

text \<open>
  The generated copies of the API types (\<open>src/api/v1alpha1/zz_generated.deepcopy.go\<close>). Elsewhere in this
  development an object is a value; here it is what it is in memory, a struct with pointers, slices and maps
  in a store. The caches of the client rely on these functions: what a handler does to its copy of an object
  must not be seen in the cache. The copies of the types of the Kubernetes libraries are parameters.
\<close>

subsection \<open>The store\<close>

text \<open>
  Addresses are indices of a list of cells, which allocation extends. A value of a library type (an
  \<open>ObjectMeta\<close>, a \<open>Quantity\<close>, a \<open>Condition\<close>, a \<open>Time\<close>) is what it holds itself, as text, with the addresses
  of all cells it reaches. A slice is a window of an array; the nil slice and the nil pointer are \<open>None\<close>.
\<close>

type_synonym addr = nat

datatype foreign = Foreign string "addr list"

record slice =
  sl_base :: addr
  sl_from :: nat
  sl_len :: nat

text \<open>The structs of \<open>volumeresize_types.go\<close> as they are in memory; a \<open>VolumeStatus\<close> has no pointers.\<close>

record target =
  tg_name :: string
  tg_newSize :: foreign
  tg_storageClass :: "addr option"

record spec =
  sp_statefulSetName :: string
  sp_volumes :: "slice option"

record status =
  ss_phase :: string
  ss_conditions :: "slice option"
  ss_volumeStatuses :: "slice option"
  ss_currentReplica :: "addr option"
  ss_currentVolume :: string
  ss_message :: string
  ss_startTime :: "addr option"
  ss_completionTime :: "addr option"
  ss_backupConfigMapName :: string

record resize =
  rz_type :: "string \<times> string"
  rz_meta :: foreign
  rz_spec :: spec
  rz_status :: status

record VolumeResizeList =
  rl_type :: "string \<times> string"
  rl_meta :: foreign
  rl_items :: "slice option"

datatype cell =
    TextCell string
  | Int32Cell int32
  | TimeCell foreign
  | TargetCell target
  | SpecCell spec
  | EntryCell VolumeStatus
  | StatusCell status
  | ResizeCell resize
  | ListCell VolumeResizeList
  | TargetArray "target list"
  | ConditionArray "foreign list"
  | EntryArray "VolumeStatus list"
  | ResizeArray "resize list"

type_synonym store = "cell list"

text \<open>What a cell of a known type holds; Go's types rule the other cells out.\<close>

definition textOf :: "cell \<Rightarrow> string" where
  "textOf x = (case x of TextCell t \<Rightarrow> t | _ \<Rightarrow> '''')"

definition int32Of :: "cell \<Rightarrow> int32" where
  "int32Of x = (case x of Int32Cell i \<Rightarrow> i | _ \<Rightarrow> 0)"

definition timeOf :: "cell \<Rightarrow> foreign" where
  "timeOf x = (case x of TimeCell t \<Rightarrow> t | _ \<Rightarrow> Foreign '''' [])"

definition targetsOf :: "cell \<Rightarrow> target list" where
  "targetsOf x = (case x of TargetArray ts \<Rightarrow> ts | _ \<Rightarrow> [])"

definition conditionsOf :: "cell \<Rightarrow> foreign list" where
  "conditionsOf x = (case x of ConditionArray ts \<Rightarrow> ts | _ \<Rightarrow> [])"

definition entriesOf :: "cell \<Rightarrow> VolumeStatus list" where
  "entriesOf x = (case x of EntryArray ts \<Rightarrow> ts | _ \<Rightarrow> [])"

definition resizesOf :: "cell \<Rightarrow> resize list" where
  "resizesOf x = (case x of ResizeArray ts \<Rightarrow> ts | _ \<Rightarrow> [])"

text \<open>The zero values of the structs.\<close>

definition zeroMemTarget :: target where
  "zeroMemTarget = \<lparr>tg_name = '''', tg_newSize = Foreign '''' [], tg_storageClass = None\<rparr>"

definition zeroSpec :: spec where
  "zeroSpec = \<lparr>sp_statefulSetName = '''', sp_volumes = None\<rparr>"

definition zeroEntry :: VolumeStatus where
  "zeroEntry = \<lparr>vs_volumeName = '''', vs_replica = 0, vs_phase = '''', vs_oldPVCName = '''', vs_newPVCName = '''',
     vs_oldPVName = '''', vs_message = ''''\<rparr>"

definition zeroMemStatus :: status where
  "zeroMemStatus = \<lparr>ss_phase = '''', ss_conditions = None, ss_volumeStatuses = None, ss_currentReplica = None,
     ss_currentVolume = '''', ss_message = '''', ss_startTime = None, ss_completionTime = None,
     ss_backupConfigMapName = ''''\<rparr>"

definition zeroResize :: resize where
  "zeroResize = \<lparr>rz_type = ('''', ''''), rz_meta = Foreign '''' [], rz_spec = zeroSpec, rz_status = zeroMemStatus\<rparr>"

definition zeroList :: VolumeResizeList where
  "zeroList = \<lparr>rl_type = ('''', ''''), rl_meta = Foreign '''' [], rl_items = None\<rparr>"

subsection \<open>Copying\<close>

text \<open>The copies of the library types.\<close>

record library =
  lib_copyMeta :: "foreign \<Rightarrow> store \<Rightarrow> foreign \<times> store"
  lib_copyListMeta :: "foreign \<Rightarrow> store \<Rightarrow> foreign \<times> store"
  lib_copyQuantity :: "foreign \<Rightarrow> store \<Rightarrow> foreign \<times> store"
  lib_copyCondition :: "foreign \<Rightarrow> store \<Rightarrow> foreign \<times> store"
  lib_copyTime :: "addr \<Rightarrow> store \<Rightarrow> addr \<times> store"

text \<open>\<open>*out = *in\<close>, \<open>if in != nil\<close>, \<open>new\<close> with a copy into it, and \<open>make\<close> with a copy of every element into it.\<close>

definition assign :: "'v \<Rightarrow> store \<Rightarrow> 'v \<times> store" where
  "assign v s = (v, s)"

definition unlessNil :: "('v \<Rightarrow> store \<Rightarrow> 'v \<times> store) \<Rightarrow> 'v option \<Rightarrow> store \<Rightarrow> 'v option \<times> store" where
  "unlessNil cp p s = (case p of None \<Rightarrow> (None, s) | Some v \<Rightarrow> (case cp v s of (w, s) \<Rightarrow> (Some w, s)))"

definition copyNew :: "('v \<Rightarrow> cell) \<Rightarrow> (cell \<Rightarrow> 'v) \<Rightarrow> 'v \<Rightarrow> ('v \<Rightarrow> store \<Rightarrow> 'v \<times> store) \<Rightarrow> addr \<Rightarrow> store \<Rightarrow> addr \<times> store" where
  "copyNew put get zero cp p s =
     (let out = length s;
          s = s @ [put zero]
      in case cp (get (s ! p)) s of (w, s) \<Rightarrow> (out, s[out := put w]))"

definition elems :: "(cell \<Rightarrow> 'v list) \<Rightarrow> store \<Rightarrow> slice \<Rightarrow> 'v list" where
  "elems get s sl = take (sl_len sl) (drop (sl_from sl) (get (s ! sl_base sl)))"

text \<open>The loop over the elements: \<open>copied\<close> are the ones done, the rest of the array is still zero.\<close>

fun copyElems :: "('v list \<Rightarrow> cell) \<Rightarrow> 'v \<Rightarrow> ('v \<Rightarrow> store \<Rightarrow> 'v \<times> store) \<Rightarrow> addr \<Rightarrow> 'v list \<Rightarrow> 'v list \<Rightarrow> store \<Rightarrow> store" where
  "copyElems put zero cp out copied [] s = s"
| "copyElems put zero cp out copied (v # vs) s = (case cp v s of (w, s) \<Rightarrow>
     copyElems put zero cp out (copied @ [w]) vs (s[out := put (copied @ w # replicate (length vs) zero)]))"

definition copySlice :: "('v list \<Rightarrow> cell) \<Rightarrow> (cell \<Rightarrow> 'v list) \<Rightarrow> 'v \<Rightarrow> ('v \<Rightarrow> store \<Rightarrow> 'v \<times> store) \<Rightarrow> slice \<Rightarrow> store \<Rightarrow> slice \<times> store" where
  "copySlice put get zero cp sl s =
     (let out = length s;
          vs = elems get s sl;
          s = s @ [put (replicate (length vs) zero)]
      in (\<lparr>sl_base = out, sl_from = 0, sl_len = length vs\<rparr>, copyElems put zero cp out [] vs s))"

subsection \<open>The generated functions\<close>

text \<open>
  \<open>DeepCopyInto\<close> gives the value it leaves in \<open>*out\<close>, which is never the memory of \<open>*in\<close>: \<open>out\<close> is new, or
  an element of a new array, or a field of one of these.
\<close>

definition targetDeepCopyInto :: "library \<Rightarrow> target \<Rightarrow> store \<Rightarrow> target \<times> store" where
  "targetDeepCopyInto L t s =
     (case lib_copyQuantity L (tg_newSize t) s of (newSize, s) \<Rightarrow>
      case unlessNil (copyNew TextCell textOf '''' assign) (tg_storageClass t) s of (storageClass, s) \<Rightarrow>
        (t\<lparr>tg_newSize := newSize, tg_storageClass := storageClass\<rparr>, s))"

definition entryDeepCopyInto :: "VolumeStatus \<Rightarrow> store \<Rightarrow> VolumeStatus \<times> store" where
  "entryDeepCopyInto e s = assign e s"

definition specDeepCopyInto :: "library \<Rightarrow> spec \<Rightarrow> store \<Rightarrow> spec \<times> store" where
  "specDeepCopyInto L p s =
     (case unlessNil (copySlice TargetArray targetsOf zeroMemTarget (targetDeepCopyInto L)) (sp_volumes p) s of
        (volumes, s) \<Rightarrow> (p\<lparr>sp_volumes := volumes\<rparr>, s))"

definition statusDeepCopyInto :: "library \<Rightarrow> status \<Rightarrow> store \<Rightarrow> status \<times> store" where
  "statusDeepCopyInto L st s =
     (case unlessNil (copySlice ConditionArray conditionsOf (Foreign '''' []) (lib_copyCondition L)) (ss_conditions st) s of
        (conditions, s) \<Rightarrow>
      case unlessNil (copySlice EntryArray entriesOf zeroEntry assign) (ss_volumeStatuses st) s of
        (statuses, s) \<Rightarrow>
      case unlessNil (copyNew Int32Cell int32Of 0 assign) (ss_currentReplica st) s of
        (replica, s) \<Rightarrow>
      case unlessNil (lib_copyTime L) (ss_startTime st) s of
        (start, s) \<Rightarrow>
      case unlessNil (lib_copyTime L) (ss_completionTime st) s of
        (completion, s) \<Rightarrow>
        (st\<lparr>ss_conditions := conditions, ss_volumeStatuses := statuses, ss_currentReplica := replica,
            ss_startTime := start, ss_completionTime := completion\<rparr>, s))"

definition resizeDeepCopyInto :: "library \<Rightarrow> resize \<Rightarrow> store \<Rightarrow> resize \<times> store" where
  "resizeDeepCopyInto L vr s =
     (case lib_copyMeta L (rz_meta vr) s of (m, s) \<Rightarrow>
      case specDeepCopyInto L (rz_spec vr) s of (p, s) \<Rightarrow>
      case statusDeepCopyInto L (rz_status vr) s of (st, s) \<Rightarrow>
        (vr\<lparr>rz_meta := m, rz_spec := p, rz_status := st\<rparr>, s))"

definition listDeepCopyInto :: "library \<Rightarrow> VolumeResizeList \<Rightarrow> store \<Rightarrow> VolumeResizeList \<times> store" where
  "listDeepCopyInto L vrs s =
     (case lib_copyListMeta L (rl_meta vrs) s of (m, s) \<Rightarrow>
      case unlessNil (copySlice ResizeArray resizesOf zeroResize (resizeDeepCopyInto L)) (rl_items vrs) s of
        (items, s) \<Rightarrow> (vrs\<lparr>rl_meta := m, rl_items := items\<rparr>, s))"

text \<open>The structs behind pointers.\<close>

definition targetOf :: "cell \<Rightarrow> target" where
  "targetOf x = (case x of TargetCell v \<Rightarrow> v | _ \<Rightarrow> zeroMemTarget)"

definition specOf :: "cell \<Rightarrow> spec" where
  "specOf x = (case x of SpecCell v \<Rightarrow> v | _ \<Rightarrow> zeroSpec)"

definition entryOf :: "cell \<Rightarrow> VolumeStatus" where
  "entryOf x = (case x of EntryCell v \<Rightarrow> v | _ \<Rightarrow> zeroEntry)"

definition statusOf :: "cell \<Rightarrow> status" where
  "statusOf x = (case x of StatusCell v \<Rightarrow> v | _ \<Rightarrow> zeroMemStatus)"

definition resizeOf :: "cell \<Rightarrow> resize" where
  "resizeOf x = (case x of ResizeCell v \<Rightarrow> v | _ \<Rightarrow> zeroResize)"

definition listOf :: "cell \<Rightarrow> VolumeResizeList" where
  "listOf x = (case x of ListCell v \<Rightarrow> v | _ \<Rightarrow> zeroList)"

definition targetDeepCopy :: "library \<Rightarrow> addr option \<Rightarrow> store \<Rightarrow> addr option \<times> store" where
  "targetDeepCopy L = unlessNil (copyNew TargetCell targetOf zeroMemTarget (targetDeepCopyInto L))"

definition specDeepCopy :: "library \<Rightarrow> addr option \<Rightarrow> store \<Rightarrow> addr option \<times> store" where
  "specDeepCopy L = unlessNil (copyNew SpecCell specOf zeroSpec (specDeepCopyInto L))"

definition entryDeepCopy :: "addr option \<Rightarrow> store \<Rightarrow> addr option \<times> store" where
  "entryDeepCopy = unlessNil (copyNew EntryCell entryOf zeroEntry entryDeepCopyInto)"

definition statusDeepCopy :: "library \<Rightarrow> addr option \<Rightarrow> store \<Rightarrow> addr option \<times> store" where
  "statusDeepCopy L = unlessNil (copyNew StatusCell statusOf zeroMemStatus (statusDeepCopyInto L))"

definition resizeDeepCopy :: "library \<Rightarrow> addr option \<Rightarrow> store \<Rightarrow> addr option \<times> store" where
  "resizeDeepCopy L = unlessNil (copyNew ResizeCell resizeOf zeroResize (resizeDeepCopyInto L))"

definition listDeepCopy :: "library \<Rightarrow> addr option \<Rightarrow> store \<Rightarrow> addr option \<times> store" where
  "listDeepCopy L = unlessNil (copyNew ListCell listOf zeroList (listDeepCopyInto L))"

text \<open>
  A \<open>runtime.Object\<close> is an interface, whose nil is not that of a pointer inside it: \<open>DeepCopyObject\<close> gives
  the former for a nil pointer.
\<close>

datatype object = ResizeObject "addr option" | ListObject "addr option"

definition resizeDeepCopyObject :: "library \<Rightarrow> addr option \<Rightarrow> store \<Rightarrow> object option \<times> store" where
  "resizeDeepCopyObject L p s = (case resizeDeepCopy L p s of (c, s) \<Rightarrow> (if c \<noteq> None then Some (ResizeObject c) else None, s))"

definition listDeepCopyObject :: "library \<Rightarrow> addr option \<Rightarrow> store \<Rightarrow> object option \<times> store" where
  "listDeepCopyObject L p s = (case listDeepCopy L p s of (c, s) \<Rightarrow> (if c \<noteq> None then Some (ListObject c) else None, s))"

subsection \<open>What a value reaches, and what it says\<close>

definition foreignRefs :: "store \<Rightarrow> foreign \<Rightarrow> addr set" where
  "foreignRefs s v = (case v of Foreign t as \<Rightarrow> set as)"

definition foreignContent :: "store \<Rightarrow> foreign \<Rightarrow> string \<times> string list" where
  "foreignContent s v = (case v of Foreign t as \<Rightarrow> (t, map (\<lambda>a. textOf (s ! a)) as))"

definition pointerRefs :: "(cell \<Rightarrow> 'v) \<Rightarrow> (store \<Rightarrow> 'v \<Rightarrow> addr set) \<Rightarrow> store \<Rightarrow> addr \<Rightarrow> addr set" where
  "pointerRefs get refs s p = insert p (refs s (get (s ! p)))"

definition pointerContent :: "(cell \<Rightarrow> 'v) \<Rightarrow> (store \<Rightarrow> 'v \<Rightarrow> 'c) \<Rightarrow> store \<Rightarrow> addr \<Rightarrow> 'c" where
  "pointerContent get content s p = content s (get (s ! p))"

definition sliceRefs :: "(cell \<Rightarrow> 'v list) \<Rightarrow> (store \<Rightarrow> 'v \<Rightarrow> addr set) \<Rightarrow> store \<Rightarrow> slice \<Rightarrow> addr set" where
  "sliceRefs get refs s sl = insert (sl_base sl) (\<Union>v \<in> set (elems get s sl). refs s v)"

definition sliceContent :: "(cell \<Rightarrow> 'v list) \<Rightarrow> (store \<Rightarrow> 'v \<Rightarrow> 'c) \<Rightarrow> store \<Rightarrow> slice \<Rightarrow> 'c list" where
  "sliceContent get content s sl = map (content s) (elems get s sl)"

definition nilRefs :: "(store \<Rightarrow> 'v \<Rightarrow> addr set) \<Rightarrow> store \<Rightarrow> 'v option \<Rightarrow> addr set" where
  "nilRefs refs s p = (case p of None \<Rightarrow> {} | Some v \<Rightarrow> refs s v)"

definition nilContent :: "(store \<Rightarrow> 'v \<Rightarrow> 'c) \<Rightarrow> store \<Rightarrow> 'v option \<Rightarrow> 'c option" where
  "nilContent content s p = map_option (content s) p"

definition noRefs :: "store \<Rightarrow> 'v \<Rightarrow> addr set" where
  "noRefs s v = {}"

definition itself :: "store \<Rightarrow> 'v \<Rightarrow> 'v" where
  "itself s v = v"

definition targetRefs :: "store \<Rightarrow> target \<Rightarrow> addr set" where
  "targetRefs s t = foreignRefs s (tg_newSize t) \<union> nilRefs (pointerRefs textOf noRefs) s (tg_storageClass t)"

definition targetContent :: "store \<Rightarrow> target \<Rightarrow> string \<times> (string \<times> string list) \<times> string option" where
  "targetContent s t = (tg_name t, foreignContent s (tg_newSize t), nilContent (pointerContent textOf itself) s (tg_storageClass t))"

definition specRefs :: "store \<Rightarrow> spec \<Rightarrow> addr set" where
  "specRefs s p = nilRefs (sliceRefs targetsOf targetRefs) s (sp_volumes p)"

definition specContent :: "store \<Rightarrow> spec \<Rightarrow> string \<times> (string \<times> (string \<times> string list) \<times> string option) list option" where
  "specContent s p = (sp_statefulSetName p, nilContent (sliceContent targetsOf targetContent) s (sp_volumes p))"

definition statusRefs :: "store \<Rightarrow> status \<Rightarrow> addr set" where
  "statusRefs s st =
     nilRefs (sliceRefs conditionsOf foreignRefs) s (ss_conditions st) \<union>
     (nilRefs (sliceRefs entriesOf noRefs) s (ss_volumeStatuses st) \<union>
     (nilRefs (pointerRefs int32Of noRefs) s (ss_currentReplica st) \<union>
     (nilRefs (pointerRefs timeOf foreignRefs) s (ss_startTime st) \<union>
      nilRefs (pointerRefs timeOf foreignRefs) s (ss_completionTime st))))"

definition statusContent where
  "statusContent s st = ((ss_phase st, ss_currentVolume st, ss_message st, ss_backupConfigMapName st),
     nilContent (sliceContent conditionsOf foreignContent) s (ss_conditions st),
     nilContent (sliceContent entriesOf itself) s (ss_volumeStatuses st),
     nilContent (pointerContent int32Of itself) s (ss_currentReplica st),
     nilContent (pointerContent timeOf foreignContent) s (ss_startTime st),
     nilContent (pointerContent timeOf foreignContent) s (ss_completionTime st))"

definition resizeRefs :: "store \<Rightarrow> resize \<Rightarrow> addr set" where
  "resizeRefs s vr = foreignRefs s (rz_meta vr) \<union> (specRefs s (rz_spec vr) \<union> statusRefs s (rz_status vr))"

definition resizeContent where
  "resizeContent s vr = (rz_type vr, foreignContent s (rz_meta vr), specContent s (rz_spec vr), statusContent s (rz_status vr))"

definition listRefs :: "store \<Rightarrow> VolumeResizeList \<Rightarrow> addr set" where
  "listRefs s vrs = foreignRefs s (rl_meta vrs) \<union> nilRefs (sliceRefs resizesOf resizeRefs) s (rl_items vrs)"

definition listContent where
  "listContent s vrs = (rl_type vrs, foreignContent s (rl_meta vrs), nilContent (sliceContent resizesOf resizeContent) s (rl_items vrs))"

subsection \<open>What a deep copy promises\<close>

text \<open>
  A value depends on the cells it reaches only; a copy adds cells to the store and changes none, says the
  same, and reaches new cells only.
\<close>

locale deep_copied =
  fixes cp :: "'v \<Rightarrow> store \<Rightarrow> 'v \<times> store" and refs :: "store \<Rightarrow> 'v \<Rightarrow> addr set" and content :: "store \<Rightarrow> 'v \<Rightarrow> 'c"
  assumes frame: "\<forall>a \<in> refs s v. s' ! a = s ! a \<Longrightarrow> refs s' v = refs s v \<and> content s' v = content s v"
    and copied: "refs s v \<subseteq> {..<length s} \<Longrightarrow> cp v s = (w, s') \<Longrightarrow>
      (\<exists>t. s' = s @ t) \<and> refs s' w \<subseteq> {length s..<length s'} \<and> content s' w = content s v"
begin

lemma frame_append:
  assumes "refs s v \<subseteq> {..<length s}"
  shows "refs (s @ t) v = refs s v" "content (s @ t) v = content s v"
proof -
  have "\<forall>a \<in> refs s v. (s @ t) ! a = s ! a"
    using assms by (auto simp: nth_append)
  from frame [OF this] show "refs (s @ t) v = refs s v" "content (s @ t) v = content s v"
    by simp_all
qed

lemma frame_update:
  assumes "out \<notin> refs s v"
  shows "refs (s[out := x]) v = refs s v" "content (s[out := x]) v = content s v"
proof -
  have "\<forall>a \<in> refs s v. s[out := x] ! a = s ! a"
    using assms by (metis nth_list_update_neq)
  from frame [OF this] show "refs (s[out := x]) v = refs s v" "content (s[out := x]) v = content s v"
    by simp_all
qed

lemma copiedE:
  assumes "cp v s = (w, s')" and "refs s v \<subseteq> {..<length s}"
  obtains t where "s' = s @ t" "refs s' w \<subseteq> {length s..<length s'}" "content s' w = content s v"
  using copied [OF assms(2,1)] by blast

text \<open>
  The copy and the original share nothing: whatever is written through one is not seen through the other.
\<close>

lemma independent:
  assumes "refs s v \<subseteq> {..<length s}" and "cp v s = (w, s')"
  shows "content s' w = content s v" and "refs s' w \<inter> refs s v = {}" and "refs s' w \<subseteq> {..<length s'}"
    and "\<forall>a. a \<notin> refs s' w \<longrightarrow> s'' ! a = s' ! a \<Longrightarrow> content s'' v = content s v"
    and "\<forall>a. a \<notin> refs s v \<longrightarrow> s'' ! a = s' ! a \<Longrightarrow> content s'' w = content s v"
proof -
  obtain t where t: "s' = s @ t" "refs s' w \<subseteq> {length s..<length s'}" "content s' w = content s v"
    by (rule copiedE [OF assms(2,1)])
  show "content s' w = content s v" "refs s' w \<subseteq> {..<length s'}" and disjoint: "refs s' w \<inter> refs s v = {}"
    using t assms(1) by fastforce+
  show "content s'' v = content s v" if "\<forall>a. a \<notin> refs s' w \<longrightarrow> s'' ! a = s' ! a"
  proof -
    have "s'' ! a = s ! a" if a: "a \<in> refs s v" for a
    proof -
      have "a < length s" "a \<notin> refs s' w"
        using a assms(1) disjoint by auto
      then show ?thesis
        using \<open>\<forall>a. a \<notin> refs s' w \<longrightarrow> s'' ! a = s' ! a\<close> t(1) by (simp add: nth_append)
    qed
    then show ?thesis using frame by blast
  qed
  show "content s'' w = content s v" if "\<forall>a. a \<notin> refs s v \<longrightarrow> s'' ! a = s' ! a"
    using frame [of s' w s''] that disjoint t(3) by auto
qed

lemma unlessNil_copied: "deep_copied (unlessNil cp) (nilRefs refs) (nilContent content)"
proof
  fix s s' v assume "\<forall>a \<in> nilRefs refs s v. s' ! a = s ! a"
  then show "nilRefs refs s' v = nilRefs refs s v \<and> nilContent content s' v = nilContent content s v"
    by (cases v) (simp_all add: nilRefs_def nilContent_def frame [of s _ s'])
next
  fix s s' v w assume v: "nilRefs refs s v \<subseteq> {..<length s}" and w: "unlessNil cp v s = (w, s')"
  show "(\<exists>t. s' = s @ t) \<and> nilRefs refs s' w \<subseteq> {length s..<length s'} \<and> nilContent content s' w = nilContent content s v"
  proof (cases v)
    case None
    with w show ?thesis by (auto simp: unlessNil_def nilRefs_def)
  next
    case (Some a)
    with w obtain b where b: "cp a s = (b, s')" "w = Some b"
      by (auto simp: unlessNil_def split: prod.splits)
    have "refs s a \<subseteq> {..<length s}"
      using v Some by (simp add: nilRefs_def)
    from copied [OF this b(1)] Some b(2) show ?thesis by (simp add: nilRefs_def nilContent_def)
  qed
qed

end

text \<open>Two parts one after the other, and a part of a record.\<close>

definition copyBoth :: "('v \<Rightarrow> store \<Rightarrow> 'v \<times> store) \<Rightarrow> ('w \<Rightarrow> store \<Rightarrow> 'w \<times> store) \<Rightarrow> 'v \<times> 'w \<Rightarrow> store \<Rightarrow> ('v \<times> 'w) \<times> store" where
  "copyBoth cp cq p s = (case cp (fst p) s of (x, s) \<Rightarrow> case cq (snd p) s of (y, s) \<Rightarrow> ((x, y), s))"

definition bothRefs where
  "bothRefs r q s p = r s (fst p) \<union> (q s (snd p) :: addr set)"

definition bothContent where
  "bothContent c d s p = (c s (fst p), d s (snd p))"

lemma both_copied:
  assumes p: "deep_copied cp r c" and q: "deep_copied cq q d"
  shows "deep_copied (copyBoth cp cq) (bothRefs r q) (bothContent c d)"
proof
  fix s s' v assume "\<forall>a \<in> bothRefs r q s v. s' ! a = s ! a"
  then show "bothRefs r q s' v = bothRefs r q s v \<and> bothContent c d s' v = bothContent c d s v"
    using deep_copied.frame [OF p, of s "fst v" s'] deep_copied.frame [OF q, of s "snd v" s']
    by (simp add: bothRefs_def bothContent_def)
next
  fix s s' v w assume v: "bothRefs r q s v \<subseteq> {..<length s}" and w: "copyBoth cp cq v s = (w, s')"
  obtain x s1 y where x: "cp (fst v) s = (x, s1)" and y: "cq (snd v) s1 = (y, s')" and w: "w = (x, y)"
    using w by (auto simp: copyBoth_def split: prod.splits)
  have "r s (fst v) \<subseteq> {..<length s}" and v2: "q s (snd v) \<subseteq> {..<length s}"
    using v by (simp_all add: bothRefs_def)
  then obtain t where t: "s1 = s @ t" "r s1 x \<subseteq> {length s..<length s1}" "c s1 x = c s (fst v)"
    using deep_copied.copiedE [OF p x] by metis
  have d: "q s1 (snd v) = q s (snd v)" "d s1 (snd v) = d s (snd v)"
    using deep_copied.frame_append [OF q v2] t(1) by simp_all
  then have "q s1 (snd v) \<subseteq> {..<length s1}"
    using v2 t(1) by auto
  then obtain u where u: "s' = s1 @ u" "q s' y \<subseteq> {length s1..<length s'}" "d s' y = d s1 (snd v)"
    using deep_copied.copiedE [OF q y] by metis
  have "r s1 x \<subseteq> {..<length s1}"
    using t(2) by auto
  from deep_copied.frame_append [OF p this] have "r s' x = r s1 x" "c s' x = c s1 x"
    by (simp_all add: u(1))
  moreover have "r s1 x \<union> q s' y \<subseteq> {length s..<length s'}"
    using t(1,2) u(1,2) by fastforce
  ultimately show "(\<exists>t. s' = s @ t) \<and> bothRefs r q s' w \<subseteq> {length s..<length s'} \<and> bothContent c d s' w = bothContent c d s v"
    using t u d w by (simp add: bothRefs_def bothContent_def)
qed

lemma view_copied:
  assumes part: "deep_copied cp r c"
    and cp: "\<And>v s. cp' v s = (case cp (get v) s of (x, s) \<Rightarrow> (put x v, s))" and refs: "\<And>s v. r' s v = r s (get v)"
    and content: "\<And>s v. c' s v = f (rest v) (c s (get v))" and lens: "\<And>x v. get (put x v) = x" "\<And>x v. rest (put x v) = rest v"
  shows "deep_copied cp' r' c'"
proof
  fix s s' v assume "\<forall>a \<in> r' s v. s' ! a = s ! a"
  then show "r' s' v = r' s v \<and> c' s' v = c' s v"
    using deep_copied.frame [OF part, of s "get v" s'] by (simp add: refs content)
next
  fix s s' v w assume v: "r' s v \<subseteq> {..<length s}" and w: "cp' v s = (w, s')"
  obtain x where "cp (get v) s = (x, s')" "w = put x v"
    using w by (auto simp: cp split: prod.splits)
  with deep_copied.copied [OF part v [unfolded refs], of x s']
  show "(\<exists>t. s' = s @ t) \<and> r' s' w \<subseteq> {length s..<length s'} \<and> c' s' w = c' s v"
    by (simp add: refs content lens)
qed

text \<open>A pointer to a new cell, and a slice of a new array.\<close>

locale cell_of =
  fixes put :: "'w \<Rightarrow> cell" and get :: "cell \<Rightarrow> 'w"
  assumes get_put [simp]: "get (put x) = x"

locale copied_cell = deep_copied cp refs content + cell_of put get
  for cp :: "'v \<Rightarrow> store \<Rightarrow> 'v \<times> store" and refs :: "store \<Rightarrow> 'v \<Rightarrow> addr set" and content :: "store \<Rightarrow> 'v \<Rightarrow> 'c"
    and put :: "'v \<Rightarrow> cell" and get :: "cell \<Rightarrow> 'v" +
  fixes zero :: 'v
begin

lemma copyNew_copied: "deep_copied (copyNew put get zero cp) (pointerRefs get refs) (pointerContent get content)"
proof
  fix s s' p assume "\<forall>a \<in> pointerRefs get refs s p. s' ! a = s ! a"
  then show "pointerRefs get refs s' p = pointerRefs get refs s p \<and> pointerContent get content s' p = pointerContent get content s p"
    using frame [of s "get (s ! p)" s'] by (simp add: pointerRefs_def pointerContent_def)
next
  fix s s' p q assume p: "pointerRefs get refs s p \<subseteq> {..<length s}" and q: "copyNew put get zero cp p s = (q, s')"
  let ?s = "s @ [put zero]" and ?v = "get (s ! p)"
  have v: "refs s ?v \<subseteq> {..<length s}" "p < length s"
    using p by (simp_all add: pointerRefs_def)
  have same: "refs ?s ?v = refs s ?v" "content ?s ?v = content s ?v"
    using frame_append [OF v(1)] by simp_all
  obtain w s1 where w: "cp ?v ?s = (w, s1)" "q = length s" "s' = s1[length s := put w]"
    using q v(2) by (auto simp: copyNew_def Let_def nth_append split: prod.splits)
  have "refs ?s ?v \<subseteq> {..<length ?s}"
    using v(1) same(1) by auto
  from copiedE [OF w(1) this] obtain t where t: "s1 = ?s @ t" "refs s1 w \<subseteq> {Suc (length s)..<length s1}" "content s1 w = content ?s ?v"
    by auto
  have s': "s' = s @ put w # t"
    using w(3) t(1) by (simp add: list_update_append)
  have "length s \<notin> refs s1 w"
    using t(2) by auto
  from frame_update [OF this, of "put w"] have "refs s' w = refs s1 w" "content s' w = content s1 w"
    by (simp_all add: w(3))
  with t same s' w(2) show "(\<exists>t. s' = s @ t) \<and> pointerRefs get refs s' q \<subseteq> {length s..<length s'} \<and>
      pointerContent get content s' q = pointerContent get content s p"
    by (auto simp: pointerRefs_def pointerContent_def)
qed

end

locale copied_array = deep_copied cp refs content + cell_of put get
  for cp :: "'v \<Rightarrow> store \<Rightarrow> 'v \<times> store" and refs :: "store \<Rightarrow> 'v \<Rightarrow> addr set" and content :: "store \<Rightarrow> 'v \<Rightarrow> 'c"
    and put :: "'v list \<Rightarrow> cell" and get :: "cell \<Rightarrow> 'v list" +
  fixes zero :: 'v
begin

lemma copyElems_fills:
  assumes "\<forall>v \<in> set vs. refs s0 v \<subseteq> {..<length s0}"
    and "s = s0 @ put (ws @ replicate (length vs) zero) # t" and "\<forall>w \<in> set ws. refs s w \<subseteq> {Suc (length s0)..<length s}"
  shows "\<exists>ws' t'. copyElems put zero cp (length s0) ws vs s = s0 @ put ws' # t' \<and>
    (\<forall>w \<in> set ws'. refs (s0 @ put ws' # t') w \<subseteq> {Suc (length s0)..<length (s0 @ put ws' # t')}) \<and>
    map (content (s0 @ put ws' # t')) ws' = map (content s) ws @ map (content s0) vs"
  using assms
proof (induction vs arbitrary: ws s t)
  case Nil
  then show ?case by auto
next
  case (Cons v vs)
  let ?out = "length s0"
  have v: "refs s v = refs s0 v" "content s v = content s0 v" "refs s v \<subseteq> {..<length s}"
    using Cons.prems(1,2) frame_append [of s0 v] by auto
  obtain w s1 where w: "cp v s = (w, s1)" by fastforce
  obtain u where u: "s1 = s @ u" "refs s1 w \<subseteq> {length s..<length s1}" "content s1 w = content s v"
    by (rule copiedE [OF w v(3)])
  let ?s2 = "s1[?out := put (ws @ w # replicate (length vs) zero)]"
  have s2: "?s2 = s0 @ put ((ws @ [w]) @ replicate (length vs) zero) # (t @ u)"
    by (simp add: u(1) Cons.prems(2) list_update_append)
  have len: "length ?s2 = length s1" "?out < length s" "length s \<le> length s1"
    using u(1) Cons.prems(2) by simp_all
  have old: "refs ?s2 x = refs s x \<and> content ?s2 x = content s x" if "x \<in> set ws" for x
  proof -
    have "refs s x \<subseteq> {..<length s}" "?out \<notin> refs s x"
      using Cons.prems(3) that by fastforce+
    with frame_append [of s x u] frame_update [of ?out s1 x] show ?thesis by (simp add: u(1))
  qed
  have "?out \<notin> refs s1 w"
    using u(2) len(2) by auto
  from frame_update [OF this] have new: "refs ?s2 w = refs s1 w" "content ?s2 w = content s0 v"
    using u(3) v(2) by simp_all
  have "\<forall>x \<in> set (ws @ [w]). refs ?s2 x \<subseteq> {Suc ?out..<length ?s2}"
    using Cons.prems(3) old new(1) u(2) len by fastforce
  from Cons.IH [OF _ s2 this] Cons.prems(1) show ?case
    using w new(2) old by (simp cong: map_cong)
qed

lemma copySlice_copied: "deep_copied (copySlice put get zero cp) (sliceRefs get refs) (sliceContent get content)"
proof
  fix s s' sl assume same: "\<forall>a \<in> sliceRefs get refs s sl. s' ! a = s ! a"
  then have "elems get s' sl = elems get s sl"
    by (simp add: sliceRefs_def elems_def)
  moreover have "refs s' v = refs s v \<and> content s' v = content s v" if "v \<in> set (elems get s sl)" for v
    using frame [of s v s'] same that by (simp add: sliceRefs_def)
  ultimately show "sliceRefs get refs s' sl = sliceRefs get refs s sl \<and> sliceContent get content s' sl = sliceContent get content s sl"
    by (simp add: sliceRefs_def sliceContent_def)
next
  fix s s' sl sl' assume sl: "sliceRefs get refs s sl \<subseteq> {..<length s}" and copy: "copySlice put get zero cp sl s = (sl', s')"
  let ?vs = "elems get s sl"
  have vs: "\<forall>v \<in> set ?vs. refs s v \<subseteq> {..<length s}"
    using sl by (auto simp: sliceRefs_def)
  have "elems get (s @ [x]) sl = ?vs" for x
    using sl by (simp add: sliceRefs_def elems_def nth_append)
  then have sl': "sl' = \<lparr>sl_base = length s, sl_from = 0, sl_len = length ?vs\<rparr>"
    and s': "s' = copyElems put zero cp (length s) [] ?vs (s @ [put (replicate (length ?vs) zero)])"
    using copy by (simp_all add: copySlice_def Let_def)
  obtain ws t where ws: "s' = s @ put ws # t" "\<forall>w \<in> set ws. refs s' w \<subseteq> {Suc (length s)..<length s'}"
    "map (content s') ws = map (content s) ?vs"
    using copyElems_fills [OF vs, of _ "[]" "[]"] s' by auto
  have "length ws = length ?vs"
    using map_eq_imp_length_eq [OF ws(3)] .
  then have "elems get s' sl' = ws"
    by (simp add: elems_def sl' ws(1))
  with ws show "(\<exists>t. s' = s @ t) \<and> sliceRefs get refs s' sl' \<subseteq> {length s..<length s'} \<and>
      sliceContent get content s' sl' = sliceContent get content s sl"
    by (fastforce simp: sliceRefs_def sliceContent_def sl')
qed

end

text \<open>A pointer to, and a slice of, values that are deeply copied are deeply copied themselves.\<close>

sublocale copied_cell < pointer: deep_copied "copyNew put get zero cp" "pointerRefs get refs" "pointerContent get content"
  by (rule copyNew_copied)

sublocale copied_array < slice: deep_copied "copySlice put get zero cp" "sliceRefs get refs" "sliceContent get content"
  by (rule copySlice_copied)

subsection \<open>The generated functions copy deeply\<close>

text \<open>What is asked of the libraries: their copies are deep.\<close>

definition sound_library :: "library \<Rightarrow> bool" where
  "sound_library L \<longleftrightarrow> deep_copied (lib_copyMeta L) foreignRefs foreignContent \<and>
     deep_copied (lib_copyListMeta L) foreignRefs foreignContent \<and>
     deep_copied (lib_copyQuantity L) foreignRefs foreignContent \<and>
     deep_copied (lib_copyCondition L) foreignRefs foreignContent \<and>
     deep_copied (lib_copyTime L) (pointerRefs timeOf foreignRefs) (pointerContent timeOf foreignContent)"

lemmas cell_simps = textOf_def int32Of_def timeOf_def targetsOf_def conditionsOf_def entriesOf_def resizesOf_def
  targetOf_def specOf_def entryOf_def statusOf_def resizeOf_def listOf_def

lemma assign_copied: "deep_copied assign noRefs itself"
  by unfold_locales (auto simp: assign_def noRefs_def itself_def)

lemma entryDeepCopyInto_copied: "deep_copied entryDeepCopyInto noRefs itself"
  by unfold_locales (auto simp: entryDeepCopyInto_def assign_def noRefs_def itself_def)

lemma cells:
  "cell_of TextCell textOf" "cell_of Int32Cell int32Of" "cell_of TargetCell targetOf" "cell_of SpecCell specOf"
  "cell_of EntryCell entryOf" "cell_of StatusCell statusOf" "cell_of ResizeCell resizeOf" "cell_of ListCell listOf"
  "cell_of TargetArray targetsOf" "cell_of ConditionArray conditionsOf" "cell_of EntryArray entriesOf"
  "cell_of ResizeArray resizesOf"
  by (simp_all add: cell_of_def cell_simps)

interpretation plain_text: copied_cell assign noRefs itself TextCell textOf "''''"
  by (intro copied_cell.intro assign_copied cells)

interpretation plain_int32: copied_cell assign noRefs itself Int32Cell int32Of 0
  by (intro copied_cell.intro assign_copied cells)

interpretation plain_entries: copied_array assign noRefs itself EntryArray entriesOf zeroEntry
  by (intro copied_array.intro assign_copied cells)

interpretation entry: copied_cell entryDeepCopyInto noRefs itself EntryCell entryOf zeroEntry
  by (intro copied_cell.intro entryDeepCopyInto_copied cells)

lemma slice_copied:
  "deep_copied cp r c \<Longrightarrow> cell_of put get \<Longrightarrow>
   deep_copied (unlessNil (copySlice put get zero cp)) (nilRefs (sliceRefs get r)) (nilContent (sliceContent get c))"
  by (intro deep_copied.unlessNil_copied copied_array.copySlice_copied copied_array.intro)

lemma pointer_copied:
  "deep_copied cp r c \<Longrightarrow> cell_of put get \<Longrightarrow>
   deep_copied (unlessNil (copyNew put get zero cp)) (nilRefs (pointerRefs get r)) (nilContent (pointerContent get c))"
  by (intro deep_copied.unlessNil_copied copied_cell.copyNew_copied copied_cell.intro)

lemma targetDeepCopyInto_copied:
  assumes "sound_library L"
  shows "deep_copied (targetDeepCopyInto L) targetRefs targetContent"
proof -
  have "deep_copied (lib_copyQuantity L) foreignRefs foreignContent"
    using assms by (simp add: sound_library_def)
  from both_copied [OF this plain_text.pointer.unlessNil_copied] show ?thesis
    by (rule view_copied [where get = "\<lambda>t. (tg_newSize t, tg_storageClass t)" and rest = tg_name
          and put = "\<lambda>(q, p) t. t\<lparr>tg_newSize := q, tg_storageClass := p\<rparr>" and f = Pair])
      (auto simp: targetDeepCopyInto_def targetRefs_def targetContent_def copyBoth_def bothRefs_def bothContent_def split: prod.splits)
qed

lemma specDeepCopyInto_copied:
  assumes "sound_library L"
  shows "deep_copied (specDeepCopyInto L) specRefs specContent"
  using slice_copied [OF targetDeepCopyInto_copied [OF assms] cells(9), of zeroMemTarget]
  by (rule view_copied [where get = sp_volumes and rest = sp_statefulSetName and put = "\<lambda>x p. p\<lparr>sp_volumes := x\<rparr>" and f = Pair])
    (auto simp: specDeepCopyInto_def specRefs_def specContent_def split: prod.splits)

lemma statusDeepCopyInto_copied:
  assumes "sound_library L"
  shows "deep_copied (statusDeepCopyInto L) statusRefs statusContent"
proof -
  have condition: "deep_copied (lib_copyCondition L) foreignRefs foreignContent"
    and time: "deep_copied (lib_copyTime L) (pointerRefs timeOf foreignRefs) (pointerContent timeOf foreignContent)"
    using assms by (simp_all add: sound_library_def)
  note conditions = slice_copied [OF condition cells(10), of "Foreign '''' []"]
  note times = deep_copied.unlessNil_copied [OF time]
  show ?thesis
    by (rule view_copied [OF both_copied [OF conditions both_copied [OF plain_entries.slice.unlessNil_copied
            both_copied [OF plain_int32.pointer.unlessNil_copied both_copied [OF times times]]]],
          where get = "\<lambda>st. (ss_conditions st, ss_volumeStatuses st, ss_currentReplica st, ss_startTime st, ss_completionTime st)"
          and put = "\<lambda>(c, e, r, a, b) st. st\<lparr>ss_conditions := c, ss_volumeStatuses := e, ss_currentReplica := r,
            ss_startTime := a, ss_completionTime := b\<rparr>"
          and rest = "\<lambda>st. (ss_phase st, ss_currentVolume st, ss_message st, ss_backupConfigMapName st)" and f = Pair])
      (auto simp: statusDeepCopyInto_def statusRefs_def statusContent_def copyBoth_def bothRefs_def bothContent_def split: prod.splits)
qed

lemma resizeDeepCopyInto_copied:
  assumes "sound_library L"
  shows "deep_copied (resizeDeepCopyInto L) resizeRefs resizeContent"
proof -
  have m: "deep_copied (lib_copyMeta L) foreignRefs foreignContent"
    using assms by (simp add: sound_library_def)
  show ?thesis
    by (rule view_copied [OF both_copied [OF m both_copied [OF specDeepCopyInto_copied [OF assms] statusDeepCopyInto_copied [OF assms]]],
          where get = "\<lambda>vr. (rz_meta vr, rz_spec vr, rz_status vr)" and rest = rz_type
          and put = "\<lambda>(m, p, st) vr. vr\<lparr>rz_meta := m, rz_spec := p, rz_status := st\<rparr>" and f = Pair])
      (auto simp: resizeDeepCopyInto_def resizeRefs_def resizeContent_def copyBoth_def bothRefs_def bothContent_def split: prod.splits)
qed

lemma listDeepCopyInto_copied:
  assumes "sound_library L"
  shows "deep_copied (listDeepCopyInto L) listRefs listContent"
proof -
  have m: "deep_copied (lib_copyListMeta L) foreignRefs foreignContent"
    using assms by (simp add: sound_library_def)
  show ?thesis
    by (rule view_copied [OF both_copied [OF m slice_copied [OF resizeDeepCopyInto_copied [OF assms] cells(12), of zeroResize]],
          where get = "\<lambda>vrs. (rl_meta vrs, rl_items vrs)" and rest = rl_type
          and put = "\<lambda>(m, i) vrs. vrs\<lparr>rl_meta := m, rl_items := i\<rparr>" and f = Pair])
      (auto simp: listDeepCopyInto_def listRefs_def listContent_def copyBoth_def bothRefs_def bothContent_def split: prod.splits)
qed

lemmas structs_copied = targetDeepCopyInto_copied specDeepCopyInto_copied statusDeepCopyInto_copied
  resizeDeepCopyInto_copied listDeepCopyInto_copied

lemma pointers_copied:
  "sound_library L \<Longrightarrow> deep_copied (targetDeepCopy L) (nilRefs (pointerRefs targetOf targetRefs)) (nilContent (pointerContent targetOf targetContent))"
  "sound_library L \<Longrightarrow> deep_copied (specDeepCopy L) (nilRefs (pointerRefs specOf specRefs)) (nilContent (pointerContent specOf specContent))"
  "sound_library L \<Longrightarrow> deep_copied (statusDeepCopy L) (nilRefs (pointerRefs statusOf statusRefs)) (nilContent (pointerContent statusOf statusContent))"
  "sound_library L \<Longrightarrow> deep_copied (resizeDeepCopy L) (nilRefs (pointerRefs resizeOf resizeRefs)) (nilContent (pointerContent resizeOf resizeContent))"
  "sound_library L \<Longrightarrow> deep_copied (listDeepCopy L) (nilRefs (pointerRefs listOf listRefs)) (nilContent (pointerContent listOf listContent))"
  unfolding targetDeepCopy_def specDeepCopy_def statusDeepCopy_def resizeDeepCopy_def listDeepCopy_def
  by (intro pointer_copied structs_copied cells; assumption)+

lemma entryDeepCopy_copied: "deep_copied entryDeepCopy (nilRefs (pointerRefs entryOf noRefs)) (nilContent (pointerContent entryOf itself))"
  unfolding entryDeepCopy_def by (rule entry.pointer.unlessNil_copied)

subsection \<open>Copies of objects\<close>

abbreviation readResize where
  "readResize \<equiv> pointerContent resizeOf resizeContent"

abbreviation readList where
  "readList \<equiv> pointerContent listOf listContent"

text \<open>
  C33: The copy of a VolumeResize is deep: it says the same as the original, nil and empty slices told apart,
  and shares no memory with it. Whatever a handler then writes through its copy leaves the original as it was,
  and whatever is written through the original does not reach the copy.
\<close>

theorem resize_copy_independent:
  assumes "sound_library L" and "pointerRefs resizeOf resizeRefs s p \<subseteq> {..<length s}"
    and "resizeDeepCopy L (Some p) s = (q, s')"
  shows "\<exists>a. q = Some a \<and> readResize s' a = readResize s p \<and> pointerRefs resizeOf resizeRefs s' a \<inter> pointerRefs resizeOf resizeRefs s p = {} \<and>
    (\<forall>h. (\<forall>b. b \<notin> pointerRefs resizeOf resizeRefs s' a \<longrightarrow> h ! b = s' ! b) \<longrightarrow> readResize h p = readResize s p) \<and>
    (\<forall>h. (\<forall>b. b \<notin> pointerRefs resizeOf resizeRefs s p \<longrightarrow> h ! b = s' ! b) \<longrightarrow> readResize h a = readResize s p)"
proof -
  let ?cp = "copyNew ResizeCell resizeOf zeroResize (resizeDeepCopyInto L)"
  obtain a where a: "?cp p s = (a, s')" "q = Some a"
    using assms(3) by (auto simp: resizeDeepCopy_def unlessNil_def split: prod.splits)
  have "deep_copied ?cp (pointerRefs resizeOf resizeRefs) readResize"
    by (intro copied_cell.copyNew_copied copied_cell.intro resizeDeepCopyInto_copied cells assms(1))
  from deep_copied.independent [OF this assms(2) a(1)] a(2) show ?thesis by blast
qed

text \<open>
  The copy of a list of VolumeResizes is deep in the same sense, every item with its spec and status
  included: a client that edits an item of a list does not edit the cache.
\<close>

theorem list_copy_independent:
  assumes "sound_library L" and "pointerRefs listOf listRefs s p \<subseteq> {..<length s}"
    and "listDeepCopy L (Some p) s = (q, s')"
  shows "\<exists>a. q = Some a \<and> readList s' a = readList s p \<and> pointerRefs listOf listRefs s' a \<inter> pointerRefs listOf listRefs s p = {} \<and>
    (\<forall>h. (\<forall>b. b \<notin> pointerRefs listOf listRefs s' a \<longrightarrow> h ! b = s' ! b) \<longrightarrow> readList h p = readList s p) \<and>
    (\<forall>h. (\<forall>b. b \<notin> pointerRefs listOf listRefs s p \<longrightarrow> h ! b = s' ! b) \<longrightarrow> readList h a = readList s p)"
proof -
  let ?cp = "copyNew ListCell listOf zeroList (listDeepCopyInto L)"
  obtain a where a: "?cp p s = (a, s')" "q = Some a"
    using assms(3) by (auto simp: listDeepCopy_def unlessNil_def split: prod.splits)
  have "deep_copied ?cp (pointerRefs listOf listRefs) readList"
    by (intro copied_cell.copyNew_copied copied_cell.intro listDeepCopyInto_copied cells assms(1))
  from deep_copied.independent [OF this assms(2) a(1)] a(2) show ?thesis by blast
qed

text \<open>
  A nil pointer is copied to nil, and as an object to the nil interface, not to an interface that holds a nil pointer;
  any other object to an object that is not nil.
\<close>

lemma copy_object:
  "resizeDeepCopyObject L None s = (None, s)"
  "listDeepCopyObject L None s = (None, s)"
  "\<exists>a. fst (resizeDeepCopyObject L (Some p) s) = Some (ResizeObject (Some a))"
  "\<exists>a. fst (listDeepCopyObject L (Some p) s) = Some (ListObject (Some a))"
  by (auto simp: resizeDeepCopyObject_def listDeepCopyObject_def resizeDeepCopy_def listDeepCopy_def unlessNil_def split: prod.splits)

subsection \<open>An object in memory\<close>

text \<open>Copying the struct alone is not enough: the pointer to the storage class would be shared.\<close>

lemma shallow_copy_shares: "\<not> deep_copied assign targetRefs targetContent"
proof
  assume shallow: "deep_copied assign targetRefs targetContent"
  let ?t = "zeroMemTarget\<lparr>tg_storageClass := Some 0\<rparr>" and ?s = "[TextCell ''fast'']"
  have refs: "targetRefs ?s ?t = {0}"
    by (simp add: targetRefs_def zeroMemTarget_def foreignRefs_def nilRefs_def pointerRefs_def noRefs_def)
  have "targetRefs ?s ?t \<inter> targetRefs ?s ?t = {}"
    by (rule deep_copied.independent(2) [OF shallow]) (simp_all add: refs assign_def)
  with refs show False by simp
qed

text \<open>A library that copies what its values reach, and a store with one object.\<close>

definition copyForeign :: "foreign \<Rightarrow> store \<Rightarrow> foreign \<times> store" where
  "copyForeign v s = (case v of Foreign t as \<Rightarrow>
     (Foreign t [length s..<length s + length as], s @ map (\<lambda>a. TextCell (textOf (s ! a))) as))"

definition demoLibrary :: library where
  "demoLibrary = \<lparr>lib_copyMeta = copyForeign, lib_copyListMeta = copyForeign, lib_copyQuantity = copyForeign,
     lib_copyCondition = copyForeign, lib_copyTime = copyNew TimeCell timeOf (Foreign '''' []) copyForeign\<rparr>"

lemma copyForeign_copied: "deep_copied copyForeign foreignRefs foreignContent"
proof
  fix s s' v assume "\<forall>a \<in> foreignRefs s v. s' ! a = s ! a"
  then show "foreignRefs s' v = foreignRefs s v \<and> foreignContent s' v = foreignContent s v"
    by (cases v) (auto simp: foreignRefs_def foreignContent_def)
next
  fix s s' v w assume "foreignRefs s v \<subseteq> {..<length s}" and "copyForeign v s = (w, s')"
  then show "(\<exists>t. s' = s @ t) \<and> foreignRefs s' w \<subseteq> {length s..<length s'} \<and> foreignContent s' w = foreignContent s v"
    by (cases v) (auto simp: foreignRefs_def foreignContent_def copyForeign_def textOf_def nth_append intro!: nth_equalityI)
qed

lemma demoLibrary_sound: "sound_library demoLibrary"
proof -
  have "cell_of TimeCell timeOf"
    by (simp add: cell_of_def timeOf_def)
  then show ?thesis
    unfolding sound_library_def demoLibrary_def
    by (simp add: copyForeign_copied copied_cell.copyNew_copied copied_cell.intro)
qed

definition demoStore :: store where
  "demoStore = [
     ResizeCell \<lparr>rz_type = (''VolumeResize'', ''storage.maurice.fr/v1alpha1''), rz_meta = Foreign ''r'' [1],
       rz_spec = \<lparr>sp_statefulSetName = ''web'', sp_volumes = Some \<lparr>sl_base = 2, sl_from = 0, sl_len = 1\<rparr>\<rparr>,
       rz_status = zeroMemStatus\<lparr>ss_currentReplica := Some 4, ss_startTime := Some 5\<rparr>\<rparr>,
     TextCell ''finalizer'',
     TargetArray [\<lparr>tg_name = ''data'', tg_newSize = Foreign ''1Gi'' [], tg_storageClass = Some 3\<rparr>],
     TextCell ''fast'', Int32Cell 0, TimeCell (Foreign ''now'' []),
     ListCell \<lparr>rl_type = ('''', ''''), rl_meta = Foreign '''' [], rl_items = Some \<lparr>sl_base = 7, sl_from = 0, sl_len = 1\<rparr>\<rparr>,
     ResizeArray [zeroResize\<lparr>rz_meta := Foreign ''r'' [1]\<rparr>]]"

lemma demoStore_refs:
  "pointerRefs resizeOf resizeRefs demoStore 0 \<subseteq> {..<length demoStore}"
  "pointerRefs listOf listRefs demoStore 6 \<subseteq> {..<length demoStore}"
  by (simp_all add: demoStore_def pointerRefs_def resizeRefs_def listRefs_def specRefs_def statusRefs_def targetRefs_def
      foreignRefs_def nilRefs_def sliceRefs_def noRefs_def elems_def cell_simps zeroMemStatus_def zeroResize_def zeroSpec_def)

theorem resize_copy_independent_witness:
  "\<exists>a. fst (resizeDeepCopy demoLibrary (Some 0) demoStore) = Some a \<and>
     readResize (snd (resizeDeepCopy demoLibrary (Some 0) demoStore)) a = readResize demoStore 0"
proof -
  obtain q s' where "resizeDeepCopy demoLibrary (Some 0) demoStore = (q, s')" by fastforce
  from resize_copy_independent [OF demoLibrary_sound demoStore_refs(1) this] this show ?thesis by auto
qed

theorem list_copy_independent_witness:
  "\<exists>a. fst (listDeepCopy demoLibrary (Some 6) demoStore) = Some a \<and>
     readList (snd (listDeepCopy demoLibrary (Some 6) demoStore)) a = readList demoStore 6"
proof -
  obtain q s' where "listDeepCopy demoLibrary (Some 6) demoStore = (q, s')" by fastforce
  from list_copy_independent [OF demoLibrary_sound demoStore_refs(2) this] this show ?thesis by auto
qed

end
