(* ===== verification/Watch.thy ===== *)
theory Watch
  imports Listing
begin

section \<open>Watching a migration (cmd/volmig/cmd/watch.go, status.go, create.go)\<close>

text \<open>
  \<^verbatim>\<open>volmig watch\<close> polls the object every two seconds until it is completed or failed, which may be
  never; \<^verbatim>\<open>status --follow\<close> and \<^verbatim>\<open>create --watch\<close> go on with the same loop. The loop is a partial
  function: \<open>None\<close> is a command that does not end. These commands are functions from the history to the
  exit status and the history at the exit.
\<close>

subsection \<open>watch.go\<close>

text \<open>What the loop remembers of the last status it printed: phase, message, replica.\<close>

type_synonym seen = "string \<times> string \<times> int32 option"

definition nothingSeen :: seen where "nothingSeen = ('''', '''', None)"

definition view :: "VolumeResize \<Rightarrow> seen" where
  "view vr = (vrPhase vr, st_message (vr_status vr), st_currentReplica (vr_status vr))"

definition statusLine :: "client \<Rightarrow> int \<Rightarrow> VolumeResize \<Rightarrow> string" where
  "statusLine c now vr =
     ''['' @ l_formatTime c ''15:04:05'' now @ ''] Phase: '' @ padRight 12 (shownPhase vr) @
     (case st_currentReplica (vr_status vr) of None \<Rightarrow> '''' | Some r \<Rightarrow> '' | Replica: '' @ showInt32 r) @
     (if st_currentVolume (vr_status vr) \<noteq> '''' then '' | Volume: '' @ st_currentVolume (vr_status vr) else '''') @
     (if st_message (vr_status vr) \<noteq> '''' then '' | '' @ st_message (vr_status vr) else '''') @ nl"

definition printStatus :: "client \<Rightarrow> VolumeResize \<Rightarrow> unit io" where
  "printStatus c vr = do { now \<leftarrow> Now c; Print (statusLine c now vr) }"

text \<open>Lines 71-86: the status is printed when phase, message or replica differ from the last.\<close>

definition replicaChanged :: "int32 option \<Rightarrow> int32 option \<Rightarrow> bool" where
  "replicaChanged lastReplica current =
     (case (lastReplica, current) of
        (None, None) \<Rightarrow> False
      | (None, Some _) \<Rightarrow> True
      | (Some _, None) \<Rightarrow> True
      | (Some a, Some b) \<Rightarrow> a \<noteq> b)"

fun showChanges :: "client \<Rightarrow> seen \<Rightarrow> VolumeResize \<Rightarrow> seen io" where
  "showChanges c (lastPhase, lastMessage, lastReplica) vr =
     (if vrPhase vr \<noteq> lastPhase \<or> st_message (vr_status vr) \<noteq> lastMessage \<or>
         replicaChanged lastReplica (st_currentReplica (vr_status vr))
      then do {
        _ \<leftarrow> printStatus c vr;
        ret (vrPhase vr, st_message (vr_status vr), st_currentReplica (vr_status vr))
      }
      else ret (lastPhase, lastMessage, lastReplica))"

definition completedText :: "VolumeResizeStatus \<Rightarrow> string" where
  "completedText s =
     nl @ line ''Migration completed successfully!'' @
     (case (st_completionTime s, st_startTime s) of
        (Some t, Some u) \<Rightarrow> line (''Duration: '' @ showDuration (roundDuration (timeSub t u) second))
      | _ \<Rightarrow> '''')"

text \<open>Lines 66-105, one round: \<open>Inl\<close> is the exit status, \<open>Inr\<close> goes on.\<close>

definition watchRound :: "client \<Rightarrow> flags \<Rightarrow> string \<Rightarrow> seen \<Rightarrow> (int + seen) io" where
  "watchRound c f name prev = do {
     r \<leftarrow> GetVR c (f_namespace f) name;
     case r of
       Inl e \<Rightarrow> do { code \<leftarrow> exitWithError ''failed to get volumeresize'' e; ret (Inl code) }
     | Inr vr \<Rightarrow> do {
         prev \<leftarrow> showChanges c prev vr;
         if vrPhase vr = phaseCompleted then do { _ \<leftarrow> Print (completedText (vr_status vr)); ret (Inl 0) }
         else if vrPhase vr = phaseFailed then do {
           _ \<leftarrow> Print nl;
           _ \<leftarrow> PrintErr (line (''Migration failed: '' @ st_message (vr_status vr)));
           ret (Inl 1)
         }
         else do { _ \<leftarrow> Sleep (2 * second); ret (Inr prev) }
       }
   }"

partial_function (option) watchLoop :: "client \<Rightarrow> flags \<Rightarrow> string \<Rightarrow> seen \<Rightarrow> history \<Rightarrow> (int \<times> history) option" where
  "watchLoop c f name prev h =
     (case run_state (watchRound c f name prev) h of
        (Inl code, h') \<Rightarrow> Some (code, h')
      | (Inr prev', h') \<Rightarrow> watchLoop c f name prev' h')"

definition runWatch :: "client \<Rightarrow> flags \<Rightarrow> string \<Rightarrow> history \<Rightarrow> (int \<times> history) option" where
  "runWatch c f name h =
     (case getClient c f of
        Some e \<Rightarrow> Some (run_state (exitWithError ''failed to create kubernetes client'' e) h)
      | None \<Rightarrow>
          (case run_state (Print (line (''Watching VolumeResize '' @ quoted name @ '' in namespace '' @
                quoted (f_namespace f) @ ''...'') @ nl)) h of
             (_, h') \<Rightarrow> watchLoop c f name nothingSeen h'))"

subsection \<open>status.go\<close>

text \<open>The icons, in UTF-8.\<close>

definition iconWaiting :: string where "iconWaiting = [CHR 0xE2, CHR 0x8F, CHR 0xB3]"
definition iconDone :: string where "iconDone = [CHR 0xE2, CHR 0x9C, CHR 0x85]"
definition iconFailed :: string where "iconFailed = [CHR 0xE2, CHR 0x9D, CHR 0x8C]"
definition iconWorking :: string where "iconWorking = [CHR 0xF0, CHR 0x9F, CHR 0x94, CHR 0x84]"
definition iconLooking :: string where "iconLooking = [CHR 0xF0, CHR 0x9F, CHR 0x94, CHR 0x8D]"
definition arrow :: string where "arrow = [CHR 0xE2, CHR 0x86, CHR 0x92]"

definition phaseIcon :: "string \<Rightarrow> string" where
  "phaseIcon phase =
     (if phase = phaseCompleted then iconDone else if phase = phaseFailed then iconFailed
      else if phase = ''Syncing'' then iconWorking else if phase = ''Validating'' then iconLooking
      else iconWaiting)"

definition entryIcon :: "string \<Rightarrow> string" where
  "entryIcon phase =
     (if phase = phaseCompleted then iconDone else if phase = phaseFailed then iconFailed
      else if phase = ''Syncing'' \<or> phase = ''Replacing'' then iconWorking else iconWaiting)"

definition statusHead :: "client \<Rightarrow> string \<Rightarrow> VolumeResize \<Rightarrow> string" where
  "statusHead c name vr =
     line (phaseIcon (shownPhase vr) @ '' VolumeResize: '' @ name) @
     line (''   Phase: '' @ shownPhase vr) @
     lineIf ''   Message: '' (st_message (vr_status vr)) @
     nl @
     line (''Target: StatefulSet/'' @ vrSTS vr) @
     concat (map (\<lambda>vol. line (''   Volume: '' @ vt_name vol @ '' '' @ arrow @ '' '' @
        l_quantityString c (vt_newSize vol) @ '' ['' @
        (case vt_storageClass vol of None \<Rightarrow> ''(default)'' | Some sc \<Rightarrow> sc) @ '']'')) (vrVolumes vr)) @
     nl"

definition entryRow :: "VolumeStatus \<Rightarrow> string" where
  "entryRow vs =
     line (''  '' @ showInt32 (vs_replica vs) @ tab @ vs_volumeName vs @ tab @
           entryIcon (vs_phase vs) @ '' '' @ vs_phase vs @ tab @ shorten 40 (vs_message vs))"

definition statusTable :: "VolumeResize \<Rightarrow> string" where
  "statusTable vr =
     (if st_volumeStatuses (vr_status vr) = [] then ''''
      else line ''Replica Status:'' @
        tabwriter (line (''  REPLICA'' @ tab @ ''VOLUME'' @ tab @ ''PHASE'' @ tab @ ''MESSAGE'') @
          concat (map entryRow (st_volumeStatuses (vr_status vr)))) @ nl)"

definition statusText :: "client \<Rightarrow> string \<Rightarrow> VolumeResize \<Rightarrow> string" where
  "statusText c name vr =
     statusHead c name vr @ statusTable vr @
     timingText c ''Started: '' ''Completed: '' ''Duration: '' (vr_status vr) @
     lineIf ''Backup ConfigMap: '' (st_backupConfigMapName (vr_status vr))"

text \<open>Up to line 151; \<open>Inr True\<close> goes on to the watch.\<close>

definition showStatus :: "client \<Rightarrow> flags \<Rightarrow> string \<Rightarrow> (int + unit) io" where
  "showStatus c f name = do {
     r \<leftarrow> openResize c f name;
     case r of
       Inl code \<Rightarrow> ret (Inl code)
     | Inr vr \<Rightarrow> do {
         _ \<leftarrow> Print (statusText c name vr);
         if f_followStatus f \<and> shownPhase vr \<noteq> phaseCompleted \<and> shownPhase vr \<noteq> phaseFailed then do {
           _ \<leftarrow> Print (nl @ line ''Following status updates (Ctrl+C to stop)...'' @ nl);
           ret (Inr ())
         }
         else if shownPhase vr = phaseFailed then ret (Inl 1)
         else ret (Inl 0)
       }
   }"

definition runStatus :: "client \<Rightarrow> flags \<Rightarrow> string \<Rightarrow> history \<Rightarrow> (int \<times> history) option" where
  "runStatus c f name h =
     (case run_state (showStatus c f name) h of
        (Inl code, h') \<Rightarrow> Some (code, h')
      | (Inr _, h') \<Rightarrow> runWatch c f name h')"

subsection \<open>create.go\<close>

definition newResize :: "flags \<Rightarrow> string \<Rightarrow> quantity \<Rightarrow> VolumeResize" where
  "newResize f name quantity =
     \<lparr>vr_meta = zeroMeta\<lparr>om_name := name, om_namespace := f_namespace f\<rparr>,
      vr_spec = \<lparr>spec_statefulSetName = f_statefulSetName f,
        spec_volumes = [\<lparr>vt_name = f_volumeName f, vt_newSize = quantity,
          vt_storageClass = (if f_storageClass f \<noteq> '''' then Some (f_storageClass f) else None)\<rparr>]\<rparr>,
      vr_status = zeroStatus\<rparr>"

definition createdText :: "flags \<Rightarrow> string \<Rightarrow> string" where
  "createdText f name =
     line (''VolumeResize '' @ quoted name @ '' created successfully'') @
     line (''  StatefulSet: '' @ f_statefulSetName f) @
     line (''  Volume:      '' @ f_volumeName f) @
     line (''  New Size:    '' @ f_newSize f) @
     lineIf ''  StorageClass: '' (f_storageClass f) @
     nl @
     line ''Monitor progress with:'' @
     line (''  volmig watch '' @ name @ '' -n '' @ f_namespace f) @
     line (''  kubectl get volumeresize '' @ name @ '' -n '' @ f_namespace f @ '' -w'')"

text \<open>Lines 95-132, for a quantity that was parsed and a client that could be made.\<close>

definition submitResize :: "client \<Rightarrow> flags \<Rightarrow> string \<Rightarrow> quantity \<Rightarrow> (int + unit) io" where
  "submitResize c f name quantity = do {
     r \<leftarrow> CreateVR c (newResize f name quantity);
     case r of
       Inl e \<Rightarrow> do { code \<leftarrow> exitWithError ''failed to create volumeresize'' e; ret (Inl code) }
     | Inr _ \<Rightarrow> do { _ \<leftarrow> Print (createdText f name); ret (Inr ()) }
   }"

definition createResize :: "client \<Rightarrow> flags \<Rightarrow> string \<Rightarrow> (int + unit) io" where
  "createResize c f name =
     (case l_parseQuantity c (f_newSize f) of
        Inl e \<Rightarrow> do { code \<leftarrow> exitWithError ''invalid size format'' e; ret (Inl code) }
      | Inr quantity \<Rightarrow>
          (case getClient c f of
             Some e \<Rightarrow> do { code \<leftarrow> exitWithError ''failed to create kubernetes client'' e; ret (Inl code) }
           | None \<Rightarrow> do {
               existing \<leftarrow> GetVR c (f_namespace f) name;
               case existing of
                 Inr _ \<Rightarrow> do {
                   code \<leftarrow> exitWithError ''volumeresize already exists'' (errorf (''name: '' @ name));
                   ret (Inl code)
                 }
               | Inl _ \<Rightarrow> submitResize c f name quantity
             }))"

definition runCreate :: "client \<Rightarrow> flags \<Rightarrow> string \<Rightarrow> history \<Rightarrow> (int \<times> history) option" where
  "runCreate c f name h =
     (case run_state (createResize c f name) h of
        (Inl code, h') \<Rightarrow> Some (code, h')
      | (Inr _, h') \<Rightarrow>
          if f_watch f
          then (case run_state (Print nl) h' of (_, h'') \<Rightarrow> runWatch c f name h'')
          else Some (0, h'))"

end
