(* ===== verification/Commands.thy ===== *)
theory Commands
  imports Watch Simulation
begin

section \<open>What the commands do\<close>

text \<open>
  Properties of the command line tool: what a watch shows and how it ends, that the commands that
  look change nothing, what is deleted, and that what \<^verbatim>\<open>create\<close> submits is what the operator needs.
\<close>

subsection \<open>The loop of a watch\<close>

definition final_answer :: "go_error + VolumeResize \<Rightarrow> bool" where
  "final_answer r \<longleftrightarrow> (case r of Inl e \<Rightarrow> True | Inr vr \<Rightarrow> vrPhase vr = phaseCompleted \<or> vrPhase vr = phaseFailed)"

definition exit_status :: "go_error + VolumeResize \<Rightarrow> int" where
  "exit_status r = (case r of Inl e \<Rightarrow> 1 | Inr vr \<Rightarrow> if vrPhase vr = phaseCompleted then 0 else 1)"

lemma final_answer_Inl [simp]: "final_answer (Inl e)"
  by (simp add: final_answer_def)

lemma result_trace: "run_state m h = (result m h, trace m h)"
  by (simp add: result_def trace_def)

lemma replicaChanged_iff: "replicaChanged a b \<longleftrightarrow> a \<noteq> b"
  by (auto simp: replicaChanged_def split: option.splits)

lemma showChanges_eq:
  "showChanges c prev vr = (if view vr = prev then ret prev else do { _ \<leftarrow> printStatus c vr; ret (view vr) })"
  by (cases prev) (auto simp: view_def replicaChanged_iff)

declare showChanges.simps [simp del]

lemma cli_phases [simp]: "phaseCompleted \<noteq> phaseFailed" "phaseFailed \<noteq> phaseCompleted"
  by (simp_all add: phaseCompleted_def phaseFailed_def)

text \<open>One round: it reads the object, shows it if it changed, and ends or sleeps.\<close>

lemma watchRound_result:
  fixes c f name prev h
  defines "r \<equiv> c_getVR c h (f_namespace f) name"
  shows "result (watchRound c f name prev) h =
    (if final_answer r then Inl (exit_status r) else case r of Inl e \<Rightarrow> Inl 1 | Inr vr \<Rightarrow> Inr (view vr))"
  unfolding r_def watchRound_def
  by (simp add: GetVR_def exitWithError_def final_answer_def exit_status_def showChanges_eq split: sum.split)

definition closing :: "go_error + VolumeResize \<Rightarrow> history" where
  "closing r = (case r of
       Inl e \<Rightarrow> [EvPrintErr (''Error: failed to get volumeresize: '' @ errText e @ nl)]
     | Inr vr \<Rightarrow>
         if vrPhase vr = phaseCompleted then [EvPrint (completedText (vr_status vr))]
         else if vrPhase vr = phaseFailed
         then [EvPrint nl, EvPrintErr (line (''Migration failed: '' @ st_message (vr_status vr)))]
         else [EvSleep (2 * second)])"

lemma watchRound_trace:
  fixes c f name prev h
  defines "r \<equiv> c_getVR c h (f_namespace f) name"
  shows "\<exists>now. trace (watchRound c f name prev) h = h @ [EvGetVR (f_namespace f) name r] @
    (case r of Inl e \<Rightarrow> []
     | Inr vr \<Rightarrow> if view vr = prev then [] else [EvNow now, EvPrint (statusLine c now vr)]) @ closing r"
  unfolding r_def watchRound_def
  by (simp add: call_defs exitWithError_def showChanges_eq printStatus_def closing_def split: sum.split)

text \<open>The number of times the object was read.\<close>

fun is_get :: "event \<Rightarrow> bool" where
  "is_get (EvGetVR _ _ _) \<longleftrightarrow> True"
| "is_get _ \<longleftrightarrow> False"

definition gets :: "history \<Rightarrow> nat" where
  "gets h = length (filter is_get h)"

lemma watchRound_gets: "gets (trace (watchRound c f name prev) h) = Suc (gets h)"
proof -
  obtain now where t: "trace (watchRound c f name prev) h = h @ [EvGetVR (f_namespace f) name (c_getVR c h (f_namespace f) name)] @
    (case c_getVR c h (f_namespace f) name of Inl e \<Rightarrow> []
     | Inr vr \<Rightarrow> if view vr = prev then [] else [EvNow now, EvPrint (statusLine c now vr)]) @
      closing (c_getVR c h (f_namespace f) name)"
    using watchRound_trace by blast
  show ?thesis
    unfolding t by (simp add: gets_def closing_def split: sum.split)
qed

lemma watchLoop_final:
  assumes "final_answer (c_getVR c h (f_namespace f) name)"
  shows "watchLoop c f name prev h =
    Some (exit_status (c_getVR c h (f_namespace f) name), trace (watchRound c f name prev) h)"
  using assms watchRound_result [of c f name prev h]
  by (subst watchLoop.simps) (simp add: result_trace)

lemma watchLoop_goes_on:
  assumes "\<not> final_answer (c_getVR c h (f_namespace f) name)"
  obtains vr where "c_getVR c h (f_namespace f) name = Inr vr"
    "watchLoop c f name prev h = watchLoop c f name (view vr) (trace (watchRound c f name prev) h)"
proof (cases "c_getVR c h (f_namespace f) name")
  case (Inl e)
  with assms show ?thesis by (simp add: final_answer_def)
next
  case (Inr vr)
  with assms watchRound_result [of c f name prev h] have "result (watchRound c f name prev) h = Inr (view vr)"
    by simp
  with Inr show ?thesis
    by (intro that [OF Inr]) (subst watchLoop.simps, simp add: result_trace)
qed

lemma watchLoop_returns:
  assumes "\<And>h. c_getVR c h (f_namespace f) name = answers (gets h)"
    and "final_answer (answers n)" and "\<And>k. k < n \<Longrightarrow> \<not> final_answer (answers k)" and "gets h \<le> n"
  shows "\<exists>h'. watchLoop c f name prev h = Some (exit_status (answers n), h') \<and> gets h' = Suc n"
  using assms(4)
proof (induction "n - gets h" arbitrary: prev h)
  case 0
  then have "gets h = n" by simp
  with assms(1,2) show ?case
    by (auto simp: watchLoop_final watchRound_gets)
next
  case (Suc m)
  let ?h = "trace (watchRound c f name prev) h"
  from Suc.hyps(2) have "\<not> final_answer (c_getVR c h (f_namespace f) name)"
    using assms(1,3) by simp
  then obtain vr where vr: "watchLoop c f name prev h = watchLoop c f name (view vr) ?h"
    by (rule watchLoop_goes_on)
  have "m = n - gets ?h" "gets ?h \<le> n"
    using Suc.hyps(2) by (simp_all add: watchRound_gets)
  then show ?case
    unfolding vr by (rule Suc.hyps(1))
qed

text \<open>What every round keeps, and the last one turns into \<open>Q\<close>, holds of a watch that ends.\<close>

lemma watchLoop_invariant:
  assumes "watchLoop c f name prev h = Some r" and "I prev h"
    and goes_on: "\<And>prev h prev'. I prev h \<Longrightarrow> result (watchRound c f name prev) h = Inr prev' \<Longrightarrow>
      I prev' (trace (watchRound c f name prev) h)"
    and ends: "\<And>prev h code. I prev h \<Longrightarrow> result (watchRound c f name prev) h = Inl code \<Longrightarrow>
      Q (trace (watchRound c f name prev) h)"
  shows "Q (snd r)"
proof -
  have "\<forall>I Q. I prev h \<longrightarrow>
      (\<forall>prev h prev'. I prev h \<longrightarrow> result (watchRound c f name prev) h = Inr prev' \<longrightarrow> I prev' (trace (watchRound c f name prev) h)) \<longrightarrow>
      (\<forall>prev h code. I prev h \<longrightarrow> result (watchRound c f name prev) h = Inl code \<longrightarrow> Q (trace (watchRound c f name prev) h)) \<longrightarrow>
      Q (snd r)"
  proof (rule watchLoop.raw_induct [where P = "\<lambda>c f name prev h r. \<forall>I Q. I prev h \<longrightarrow>
      (\<forall>prev h prev'. I prev h \<longrightarrow> result (watchRound c f name prev) h = Inr prev' \<longrightarrow> I prev' (trace (watchRound c f name prev) h)) \<longrightarrow>
      (\<forall>prev h code. I prev h \<longrightarrow> result (watchRound c f name prev) h = Inl code \<longrightarrow> Q (trace (watchRound c f name prev) h)) \<longrightarrow>
      Q (snd r)", OF _ assms(1)], intro allI impI, goal_cases)
    case (1 loop c f name prev h r I Q)
    show ?case
    proof (cases "result (watchRound c f name prev) h")
      case (Inl code)
      with 1(2) have "snd r = trace (watchRound c f name prev) h" by (auto simp: result_trace)
      with 1(3,5) Inl show ?thesis by metis
    next
      case (Inr prev')
      with 1(2) have "loop c f name prev' (trace (watchRound c f name prev) h) = Some r" by (simp add: result_trace)
      from 1(1) [OF this] 1(3-5) Inr show ?thesis by blast
    qed
  qed
  with assms(2) goes_on ends show ?thesis by blast
qed

lemma watchLoop_ended:
  assumes "watchLoop c f name prev h = Some r"
    and "\<And>h. c_getVR c h (f_namespace f) name = answers (gets h)"
  shows "\<exists>k. final_answer (answers k)"
proof (rule watchLoop_invariant [OF assms(1), where I = "\<lambda>prev h. True" and Q = "\<lambda>h. \<exists>k. final_answer (answers k)"])
  fix prev h code assume "result (watchRound c f name prev) h = Inl code"
  then show "\<exists>k. final_answer (answers k)"
    using assms(2) watchRound_result [of c f name prev h] by (auto split: if_splits sum.splits)
qed simp_all

text \<open>
  C20: \<^verbatim>\<open>volmig watch\<close> runs as long as the migration does: when the object is read as
  \<open>answers 0\<close>, \<open>answers 1\<close>, and so on, the command never ends exactly when no answer is an
  error or shows the phase Completed or Failed. Otherwise it ends with the first such answer, after
  that many reads, and its exit status is 0 exactly when the migration was completed.
\<close>

theorem watch_outcome:
  assumes "getClient c f = None" and "\<And>h. c_getVR c h (f_namespace f) name = answers (gets h)"
  shows "(runWatch c f name [] = None \<longleftrightarrow> (\<forall>k. \<not> final_answer (answers k))) \<and>
    (\<forall>n. final_answer (answers n) \<and> (\<forall>k < n. \<not> final_answer (answers k)) \<longrightarrow>
      (\<exists>h. runWatch c f name [] = Some (exit_status (answers n), h) \<and> gets h = Suc n))"
proof -
  obtain s where start: "runWatch c f name [] = watchLoop c f name nothingSeen [EvPrint s]"
    using assms(1) by (simp add: runWatch_def Print_def perform_def)
  have first: "\<exists>h. runWatch c f name [] = Some (exit_status (answers n), h) \<and> gets h = Suc n"
    if "final_answer (answers n)" "\<And>k. k < n \<Longrightarrow> \<not> final_answer (answers k)" for n
    unfolding start by (rule watchLoop_returns [OF assms(2) that]) (simp_all add: gets_def)
  have "runWatch c f name [] = None \<longleftrightarrow> (\<forall>k. \<not> final_answer (answers k))"
  proof
    assume none: "runWatch c f name [] = None"
    show "\<forall>k. \<not> final_answer (answers k)"
    proof (rule ccontr)
      assume "\<not> (\<forall>k. \<not> final_answer (answers k))"
      then have "\<exists>n. final_answer (answers n) \<and> (\<forall>k < n. \<not> final_answer (answers k))"
        using exists_least_iff [of "\<lambda>k. final_answer (answers k)"] by simp
      with first none show False by fastforce
    qed
  next
    assume never: "\<forall>k. \<not> final_answer (answers k)"
    show "runWatch c f name [] = None"
    proof (cases "runWatch c f name []")
      case (Some r)
      then show ?thesis
        using watchLoop_ended [OF _ assms(2), of nothingSeen "[EvPrint s]" r] never by (simp add: start)
    qed
  qed
  with first show ?thesis by simp
qed

text \<open>A client whose object is read as syncing twice and as failed from then on.\<close>

definition demoFlags :: flags where
  "demoFlags = \<lparr>f_kubeconfig = '''', f_namespace = ''d'', f_statefulSetName = ''web'', f_volumeName = ''data'',
     f_newSize = ''1Gi'', f_storageClass = '''', f_watch = False, f_allNamespaces = False,
     f_outputFormat = '''', f_followStatus = False\<rparr>"

definition failingAnswers :: "nat \<Rightarrow> go_error + VolumeResize" where
  "failingAnswers k = Inr (demoVR (if k < 2 then demoSyncing else demoSyncing\<lparr>st_phase := PhaseFailed\<rparr>))"

definition failingClient :: client where
  "failingClient = demoClient\<lparr>c_getVR := \<lambda>h ns n. failingAnswers (gets h)\<rparr>"

lemma failing_client:
  "getClient failingClient demoFlags = None"
  "c_getVR failingClient h (f_namespace demoFlags) name = failingAnswers (gets h)"
  "final_answer (failingAnswers 2)" "k < 2 \<Longrightarrow> \<not> final_answer (failingAnswers k)"
  "exit_status (failingAnswers 2) = 1"
  by (simp_all add: getClient_def getKubeConfig_def failingClient_def demoClient_def cluster_client_def
      failingAnswers_def final_answer_def exit_status_def demoVR_def demoSyncing_def phase_defs
      phaseCompleted_def phaseFailed_def)

theorem watch_outcome_witness:
  "\<exists>h. runWatch failingClient demoFlags ''r'' [] = Some (1, h) \<and> gets h = 3"
  using watch_outcome [OF failing_client(1,2), of "''r''"] failing_client(3-5) by force

text \<open>
  The objects a history has read, and those of them whose status it printed: the clock is read for
  the status line right after the object.
\<close>

fun read_object :: "event \<Rightarrow> VolumeResize option" where
  "read_object (EvGetVR _ _ (Inr vr)) = Some vr"
| "read_object _ = None"

fun is_now :: "event \<Rightarrow> bool" where
  "is_now (EvNow _) \<longleftrightarrow> True"
| "is_now _ \<longleftrightarrow> False"

definition observed :: "history \<Rightarrow> VolumeResize list" where
  "observed h = List.map_filter read_object h"

fun shownAfter :: "VolumeResize option \<Rightarrow> history \<Rightarrow> VolumeResize list" where
  "shownAfter p [] = []"
| "shownAfter p (e # h) =
     (case p of Some vr \<Rightarrow> if is_now e then [vr] else [] | None \<Rightarrow> []) @ shownAfter (read_object e) h"

abbreviation shownIn :: "history \<Rightarrow> VolumeResize list" where
  "shownIn h \<equiv> shownAfter None h"

lemma observed_simps [simp]:
  "observed [] = []"
  "observed (e # h) = (case read_object e of None \<Rightarrow> observed h | Some vr \<Rightarrow> vr # observed h)"
  by (simp_all add: observed_def split: option.split)

lemma observed_append [simp]: "observed (h @ g) = observed h @ observed g"
  by (simp add: observed_def map_filter_def)

lemma shownAfter_append: "\<not> (g \<noteq> [] \<and> is_now (hd g)) \<Longrightarrow> shownAfter p (h @ g) = shownAfter p h @ shownIn g"
proof (induction h arbitrary: p)
  case Nil
  then show ?case by (cases g) (auto split: option.split)
qed simp

lemma changes_snoc:
  "tl (remdups_adj (a # ys @ [y])) = tl (remdups_adj (a # ys)) @ (if last (a # ys) = y then [] else [y])"
proof (cases ys rule: rev_cases)
  case Nil
  then show ?thesis by simp
next
  case (snoc zs z)
  then have "remdups_adj (a # ys @ [y]) = remdups_adj (a # ys) @ (if z = y then [] else [y])"
    using remdups_adj_append_two [of "a # zs" z y] by simp
  moreover have "remdups_adj (a # ys) \<noteq> []" by simp
  ultimately show ?thesis
    using snoc by (simp add: tl_append2)
qed

text \<open>Up to a history the watch has shown the changes and remembers the last status.\<close>

definition shows_changes :: "seen \<Rightarrow> history \<Rightarrow> bool" where
  "shows_changes prev h \<longleftrightarrow> prev = last (nothingSeen # map view (observed h)) \<and>
     map view (shownIn h) = tl (remdups_adj (nothingSeen # map view (observed h)))"

lemma closing_shows: "observed (closing r) = []" "shownAfter p (closing r) = []"
  by (auto simp: closing_def split: sum.split option.split)

lemma watchRound_shows:
  assumes "shows_changes prev h"
  shows "case c_getVR c h (f_namespace f) name of
      Inl e \<Rightarrow> shows_changes prev (trace (watchRound c f name prev) h)
    | Inr vr \<Rightarrow> shows_changes (view vr) (trace (watchRound c f name prev) h)"
proof -
  define r where "r = c_getVR c h (f_namespace f) name"
  obtain now where t: "trace (watchRound c f name prev) h = h @ [EvGetVR (f_namespace f) name r] @
    (case r of Inl e \<Rightarrow> []
     | Inr vr \<Rightarrow> if view vr = prev then [] else [EvNow now, EvPrint (statusLine c now vr)]) @ closing r"
    using watchRound_trace unfolding r_def by blast
  then have seen: "observed (trace (watchRound c f name prev) h) = observed h @ (case r of Inl e \<Rightarrow> [] | Inr vr \<Rightarrow> [vr])"
    and shown: "shownIn (trace (watchRound c f name prev) h) =
      shownIn h @ (case r of Inl e \<Rightarrow> [] | Inr vr \<Rightarrow> if view vr = prev then [] else [vr])"
    by (auto simp: shownAfter_append closing_shows split: sum.split)
  have prev: "prev = last (nothingSeen # map view (observed h))"
    and past: "map view (shownIn h) = tl (remdups_adj (nothingSeen # map view (observed h)))"
    using assms by (simp_all only: shows_changes_def)
  show ?thesis
  proof (cases r)
    case (Inl e)
    then show ?thesis
      by (simp only: shows_changes_def seen shown r_def [symmetric] sum.case append_Nil2 past) (rule conjI [OF prev refl])
  next
    case (Inr vr)
    have "map view (shownIn h @ (if view vr = prev then [] else [vr])) =
      tl (remdups_adj (nothingSeen # map view (observed h @ [vr])))"
      using changes_snoc [of nothingSeen "map view (observed h)" "view vr"] past by (auto simp: prev)
    with Inr show ?thesis
      by (simp only: shows_changes_def seen shown r_def [symmetric] sum.case) simp
  qed
qed

text \<open>
  What a watch prints is what it saw, without repetitions: the statuses it shows, as phase,
  message and replica, are those of the objects it read, each printed when it differs from the one
  before, and the first one when there is anything in it.
\<close>

theorem watch_shows_changes:
  assumes "runWatch c f name [] = Some (code, h)"
  shows "map view (shownIn h) = tl (remdups_adj (nothingSeen # map view (observed h)))"
proof (cases "getClient c f")
  case (Some e)
  with assms show ?thesis
    by (auto simp: runWatch_def exitWithError_def PrintErr_def result_trace)
next
  case None
  then obtain s where loop: "watchLoop c f name nothingSeen [EvPrint s] = Some (code, h)"
    using assms by (auto simp: runWatch_def Print_def result_trace)
  have "\<exists>p. shows_changes p (snd (code, h))"
  proof (rule watchLoop_invariant [OF loop, where I = shows_changes])
    show "shows_changes nothingSeen [EvPrint s]"
      by (simp add: shows_changes_def)
  next
    fix prev h prev' assume "shows_changes prev h" "result (watchRound c f name prev) h = Inr prev'"
    then show "shows_changes prev' (trace (watchRound c f name prev) h)"
      using watchRound_shows [of prev h c f name] watchRound_result [of c f name prev h]
      by (auto split: if_splits sum.splits)
  next
    fix prev h assume "shows_changes prev h"
    from watchRound_shows [OF this, of c f name] show "\<exists>p. shows_changes p (trace (watchRound c f name prev) h)"
      by (cases "c_getVR c h (f_namespace f) name") (simp_all only: sum.case, blast+)
  qed
  then show ?thesis by (auto simp: shows_changes_def)
qed

lemma failing_watch: "\<exists>h. runWatch failingClient demoFlags ''r'' [] = Some (1, h) \<and> gets h = 3"
proof -
  obtain s where "runWatch failingClient demoFlags ''r'' [] = watchLoop failingClient demoFlags ''r'' nothingSeen [EvPrint s]"
    using failing_client(1) by (simp add: runWatch_def Print_def perform_def)
  moreover have "\<exists>h. watchLoop failingClient demoFlags ''r'' nothingSeen [EvPrint s] =
      Some (exit_status (failingAnswers 2), h) \<and> gets h = Suc 2"
    by (rule watchLoop_returns [OF failing_client(2-4)]) (simp_all add: gets_def)
  ultimately show ?thesis
    by (auto simp: failing_client(5))
qed

theorem watch_shows_changes_witness:
  "\<exists>h. gets h = 3 \<and> map view (shownIn h) = tl (remdups_adj (nothingSeen # map view (observed h)))"
  using failing_watch watch_shows_changes by blast

subsection \<open>Commands that only look\<close>

definition observes :: "event \<Rightarrow> bool" where
  "observes e \<longleftrightarrow> is_read e \<or> (\<exists>s. e = EvPrint s \<or> e = EvPrintErr s)"

lemma observes_simps [simp]:
  "observes (EvPrint s)" "observes (EvPrintErr s)" "observes (EvNow t)" "observes (EvSleep d)"
  "observes (EvGetVR ns n r)" "observes (EvListVR ns' l)"
  by (simp_all add: observes_def)

lemma exitWithError_observes: "only observes (exitWithError msg e)"
  by (auto simp: exitWithError_def PrintErr_def)

lemma openResize_observes: "only observes (openResize c f name)"
  by (auto simp: openResize_def GetVR_def intro!: only_bind only_sum only_option exitWithError_observes)

lemma listRows_observes: "only observes (listRows c f vrs)"
  by (induction vrs) (auto simp: Now_def intro!: only_bind)

lemma runList_observes: "only observes (runList c f)"
  by (auto simp: runList_def ListVR_def Print_def intro!: only_bind only_sum only_option exitWithError_observes listRows_observes)

lemma runDescribe_observes: "only observes (runDescribe c f name)"
  by (auto simp: runDescribe_def Print_def intro!: only_bind only_sum openResize_observes)

lemma showStatus_observes: "only observes (showStatus c f name)"
  by (auto simp: showStatus_def Print_def intro!: only_bind only_sum openResize_observes)

lemma watchRound_observes: "only observes (watchRound c f name prev)"
  by (auto simp: watchRound_def call_defs showChanges_eq printStatus_def
      intro!: only_bind only_sum exitWithError_observes)

lemma runWatch_observes:
  "case runWatch c f name h of None \<Rightarrow> True | Some (code, h') \<Rightarrow> \<exists>t. h' = h @ t \<and> list_all observes t"
proof (cases "getClient c f")
  case (Some e)
  then show ?thesis
    by (simp add: runWatch_def exitWithError_def PrintErr_def result_trace)
next
  case None
  then obtain s where start: "runWatch c f name h = watchLoop c f name nothingSeen (h @ [EvPrint s])"
    by (simp add: runWatch_def Print_def result_trace)
  let ?ok = "\<lambda>g. \<exists>t. g = h @ t \<and> list_all observes t"
  have round: "?ok (trace (watchRound c f name prev) g)" if "?ok g" for prev g
    using that watchRound_observes [of c f name prev] unfolding only_def
    by (metis append.assoc list_all_append)
  have "?ok (snd r)" if "watchLoop c f name nothingSeen (h @ [EvPrint s]) = Some r" for r
    by (rule watchLoop_invariant [OF that, where I = "\<lambda>prev. ?ok"]) (simp_all add: round)
  then show ?thesis
    by (auto simp: start split: option.split)
qed

lemma runStatus_observes:
  "case runStatus c f name h of None \<Rightarrow> True | Some (code, h') \<Rightarrow> \<exists>t. h' = h @ t \<and> list_all observes t"
proof -
  obtain t where t: "trace (showStatus c f name) h = h @ t" "list_all observes t"
    using showStatus_observes unfolding only_def by blast
  show ?thesis
    using t runWatch_observes [where c = c and f = f and name = name and h = "h @ t"]
    by (auto simp: runStatus_def result_trace split: sum.split option.split)
qed

text \<open>
  Looking changes nothing: whatever they find, \<^verbatim>\<open>list\<close>, \<^verbatim>\<open>describe\<close>, \<^verbatim>\<open>status\<close> and
  \<^verbatim>\<open>watch\<close> only read from the API server, read the clock, sleep and print; so does every round of a
  watch that never ends.
\<close>

theorem looking_changes_nothing:
  "only observes (runList c f) \<and> only observes (runDescribe c f name) \<and> only observes (watchRound c f name prev) \<and>
   (case runStatus c f name h of None \<Rightarrow> True | Some (code, h') \<Rightarrow> \<exists>t. h' = h @ t \<and> list_all observes t) \<and>
   (case runWatch c f name h of None \<Rightarrow> True | Some (code, h') \<Rightarrow> \<exists>t. h' = h @ t \<and> list_all observes t)"
  by (intro conjI runList_observes runDescribe_observes watchRound_observes runStatus_observes runWatch_observes)

subsection \<open>Deleting\<close>

text \<open>
  \<^verbatim>\<open>volmig delete\<close> deletes only the object that it has just read under the given name,
  and its exit status is 0 exactly when the API server has accepted the deletion.
\<close>

theorem delete_after_read:
  "\<exists>t. trace (runDelete c f name) h = h @ t \<and>
    {(ns, n) | ns n d. EvDeleteVR ns n d \<in> set t} =
      {(vrNamespace vr, vrName vr) | vr. EvGetVR (f_namespace f) name (Inr vr) \<in> set t} \<and>
    (result (runDelete c f name) h = 0 \<longleftrightarrow> (\<exists>ns n. EvDeleteVR ns n None \<in> set t))"
  by (auto simp: runDelete_def openResize_def call_defs exitWithError_def split: option.split sum.split)

subsection \<open>Creating\<close>

lemma newResize_spec:
  "vrVolumes (newResize f name q) = [\<lparr>vt_name = f_volumeName f, vt_newSize = q,
     vt_storageClass = (if f_storageClass f \<noteq> '''' then Some (f_storageClass f) else None)\<rparr>]"
  "vrSTS (newResize f name q) = f_statefulSetName f" "vrPhase (newResize f name q) = ''''"
  "vrName (newResize f name q) = name" "vrNamespace (newResize f name q) = f_namespace f"
  by (simp_all add: newResize_def zeroStatus_def)

lemma newResize_new: "new_resize (newResize f name q)"
  by (simp add: new_resize_def plannable_def newResize_spec)

lemma createResize_trace:
  "\<exists>t. trace (createResize c f name) h = h @ t \<and>
     (\<forall>vr res. EvCreateVR vr res \<in> set t \<longrightarrow>
        (\<exists>q e. l_parseQuantity c (f_newSize f) = Inr q \<and> vr = newResize f name q \<and>
           EvGetVR (f_namespace f) name (Inl e) \<in> set t)) \<and>
     length (filter (\<lambda>e. \<not> observes e) t) \<le> 1"
  by (auto simp: createResize_def submitResize_def call_defs exitWithError_def observes_def split: option.split sum.split)


lemma createResize_only_new:
  assumes "EvCreateVR vr res \<in> set (trace (createResize c f name) [])"
  obtains q where "vr = newResize f name q"
  using createResize_trace [of c f name "[]"] assms by auto


text \<open>A server that does not know the object yet and stores it with the operator's finalizer.\<close>

definition storingClient :: client where
  "storingClient = demoClient\<lparr>c_getVR := \<lambda>h ns n. Inl notFound, c_createVR := \<lambda>h v. Inr (demoVR zeroStatus)\<rparr>"

lemma storing_client:
  "EvCreateVR (newResize demoFlags ''r'' ''1Gi'') (Inr (demoVR zeroStatus))
     \<in> set (trace (createResize storingClient demoFlags ''r'') [])"
  "vr_spec (demoVR zeroStatus) = vr_spec (newResize demoFlags ''r'' ''1Gi'')" "vrPhase (demoVR zeroStatus) = ''''"
  by (simp_all add: createResize_def submitResize_def call_defs getClient_def getKubeConfig_def storingClient_def
      demoClient_def cluster_client_def demoFlags_def newResize_def demoVR_def zeroStatus_def)



end
