(* ===== verification/Command_Line.thy ===== *)
theory Command_Line
  imports Commands
begin

section \<open>The command line of volmig (cmd/volmig/main.go and the declarations in cmd/volmig/cmd)\<close>

text \<open>
  The program declares its commands and flags to cobra, which reads the command line: it refuses it, answers
  it by itself (a help text, say), or sets the variables of the flags and runs a command with the remaining
  arguments. The declarations are tables here; cobra is a parameter, of which is asked that it obeys
  the tables.
\<close>

subsection \<open>Tables\<close>

datatype flag_value = Text string | Switch bool

record flag_decl =
  fd_name :: string
  fd_short :: string
  fd_default :: flag_value
  fd_usage :: string

definition flag :: "string \<Rightarrow> string \<Rightarrow> flag_value \<Rightarrow> string \<Rightarrow> flag_decl" where
  "flag name short val usage = \<lparr>fd_name = name, fd_short = short, fd_default = val, fd_usage = usage\<rparr>"

text \<open>A command; the long text by lines, \<open>cm_args\<close> the number of arguments if it is checked.\<close>

record command =
  cm_use :: string
  cm_short :: string
  cm_long :: "string list"
  cm_args :: "nat option"
  cm_flags :: "flag_decl list"
  cm_required :: "string list"

definition rootCmd :: command where
  "rootCmd = \<lparr>
     cm_use = ''volmig'',
     cm_short = ''CLI tool for managing VolumeResize migrations'',
     cm_long = [''volmig is a CLI tool for creating and managing VolumeResize objects'',
       ''that migrate StatefulSet PVCs to new sizes.'',
       '''',
       ''Example:'',
       ''  # Create a volume resize for a StatefulSet'',
       ''  volmig create my-resize --statefulset weaviate --volume weaviate-data --size 500Mi'',
       '''',
       ''  # Watch migration progress'',
       ''  volmig watch my-resize'',
       '''',
       ''  # List all volume resizes'',
       ''  volmig list''],
     cm_args = None,
     cm_flags = [],
     cm_required = []\<rparr>"

definition createCmd :: command where
  "createCmd = \<lparr>
     cm_use = ''create <name>'',
     cm_short = ''Create a VolumeResize for a StatefulSet'',
     cm_long = [''Create a VolumeResize custom resource to migrate StatefulSet PVCs to a new size.'',
       '''',
       ''Examples:'',
       ''  # Resize weaviate-data volume to 500Mi'',
       ''  volmig create resize-weaviate --statefulset weaviate --volume weaviate-data --size 500Mi'',
       '''',
       ''  # Resize with a different storage class'',
       ''  volmig create resize-db --statefulset postgres --volume data --size 10Gi --storage-class fast-ssd'',
       '''',
       ''  # Create and watch progress'',
       ''  volmig create resize-weaviate --statefulset weaviate --volume weaviate-data --size 500Mi --watch''],
     cm_args = Some 1,
     cm_flags = [flag ''statefulset'' ''s'' (Text '''') ''name of the StatefulSet to resize (required)'',
       flag ''volume'' ''v'' (Text '''') ''name of the volume to resize (required)'',
       flag ''size'' '''' (Text '''') ''target size for the volume (required, e.g., 500Mi, 10Gi)'',
       flag ''storage-class'' '''' (Text '''') ''storage class for the new PVC (optional, defaults to original)'',
       flag ''watch'' ''w'' (Switch False) ''watch migration progress after creation''],
     cm_required = [''statefulset'', ''volume'', ''size'']\<rparr>"

definition deleteCmd :: command where
  "deleteCmd = \<lparr>
     cm_use = ''delete <name>'',
     cm_short = ''Delete a VolumeResize resource'',
     cm_long = [''Delete a VolumeResize resource by name.'',
       '''',
       ''Examples:'',
       ''  # Delete a volume resize'',
       ''  volmig delete resize-weaviate'',
       '''',
       ''  # Delete in specific namespace'',
       ''  volmig delete resize-weaviate -n production''],
     cm_args = Some 1,
     cm_flags = [],
     cm_required = []\<rparr>"

definition describeCmd :: command where
  "describeCmd = \<lparr>
     cm_use = ''describe <name>'',
     cm_short = ''Show detailed information about a VolumeResize'',
     cm_long = [''Show detailed information about a VolumeResize resource including'',
       ''its spec, status, and per-volume migration progress.'',
       '''',
       ''Examples:'',
       ''  # Describe a volume resize'',
       ''  volmig describe resize-weaviate'',
       '''',
       ''  # Describe in specific namespace'',
       ''  volmig describe resize-weaviate -n production''],
     cm_args = Some 1,
     cm_flags = [],
     cm_required = []\<rparr>"

definition listCmd :: command where
  "listCmd = \<lparr>
     cm_use = ''list'',
     cm_short = ''List VolumeResize resources'',
     cm_long = [''List all VolumeResize resources in a namespace or across all namespaces.'',
       '''',
       ''Examples:'',
       ''  # List in current namespace'',
       ''  volmig list'',
       '''',
       ''  # List in all namespaces'',
       ''  volmig list -A'',
       '''',
       ''  # List with extended info (volumes, age)'',
       ''  volmig list -o wide'',
       '''',
       ''  # List in specific namespace'',
       ''  volmig list -n production''],
     cm_args = None,
     cm_flags = [flag ''all-namespaces'' ''A'' (Switch False) ''list across all namespaces'',
       flag ''output'' ''o'' (Text '''') ''output format (wide)''],
     cm_required = []\<rparr>"

definition statusCmd :: command where
  "statusCmd = \<lparr>
     cm_use = ''status <name>'',
     cm_short = ''Show quick status of a VolumeResize'',
     cm_long = [''Show a quick status overview of a VolumeResize migration including'',
       ''phase, progress, and per-replica status.'',
       '''',
       ''Examples:'',
       ''  # Get status of a volume resize'',
       ''  volmig status resize-weaviate'',
       '''',
       ''  # Follow status updates until completion'',
       ''  volmig status resize-weaviate --follow'',
       '''',
       ''  # Get status in specific namespace'',
       ''  volmig status resize-weaviate -n production''],
     cm_args = Some 1,
     cm_flags = [flag ''follow'' ''f'' (Switch False) ''follow status updates until completion''],
     cm_required = []\<rparr>"

definition versionCmd :: command where
  "versionCmd = \<lparr>
     cm_use = ''version'',
     cm_short = ''Print version information'',
     cm_long = [],
     cm_args = None,
     cm_flags = [],
     cm_required = []\<rparr>"

definition watchCmd :: command where
  "watchCmd = \<lparr>
     cm_use = ''watch <name>'',
     cm_short = ''Watch VolumeResize migration progress'',
     cm_long = [''Watch the progress of a VolumeResize migration until completion or failure.'',
       '''',
       ''Examples:'',
       ''  # Watch a specific volume resize'',
       ''  volmig watch resize-weaviate'',
       '''',
       ''  # Watch in a specific namespace'',
       ''  volmig watch resize-weaviate -n production''],
     cm_args = Some 1,
     cm_flags = [],
     cm_required = []\<rparr>"

text \<open>In the order of the files of the package.\<close>

definition commands :: "command list" where
  "commands = [createCmd, deleteCmd, describeCmd, listCmd, statusCmd, versionCmd, watchCmd]"

text \<open>The first word of the use line names a command.\<close>

definition cm_name :: "command \<Rightarrow> string" where
  "cm_name cmd = takeWhile (\<lambda>c. c \<noteq> CHR '' '') (cm_use cmd)"

subsection \<open>The flags of all commands\<close>

text \<open>\<^verbatim>\<open>filepath.Join\<close>, which leaves out empty elements and simplifies the path.\<close>

fun pathStep :: "bool \<Rightarrow> string list \<Rightarrow> string \<Rightarrow> string list" where
  "pathStep rooted stack w =
     (if w = '''' \<or> w = ''.'' then stack
      else if w = ''..'' then
        (case stack of
           [] \<Rightarrow> if rooted then [] else [w]
         | d # rest \<Rightarrow> if d = ''..'' then w # stack else rest)
      else w # stack)"

definition cleanPath :: "string \<Rightarrow> string" where
  "cleanPath p =
     (let rooted = (take 1 p = ''/'');
          stack = foldl (pathStep rooted) [] (splitAt (\<lambda>c. c = CHR ''/'') p);
          body = joinWith ''/'' (rev stack)
      in if rooted then ''/'' @ body else if body = '''' then ''.'' else body)"

definition joinPath :: "string list \<Rightarrow> string" where
  "joinPath ws = (let ws = filter (\<lambda>w. w \<noteq> '''') ws in if ws = [] then '''' else cleanPath (joinWith ''/'' ws))"

text \<open>The home directory is the environment's.\<close>

definition persistentFlags :: "string \<Rightarrow> flag_decl list" where
  "persistentFlags home =
     [if home \<noteq> '''' then flag ''kubeconfig'' '''' (Text (joinPath [home, ''.kube'', ''config''])) ''path to kubeconfig file''
      else flag ''kubeconfig'' '''' (Text '''') ''path to kubeconfig file'',
      flag ''namespace'' ''n'' (Text ''default'') ''kubernetes namespace'']"

text \<open>What a command line may set for a command.\<close>

definition flagsOf :: "string \<Rightarrow> command \<Rightarrow> flag_decl list" where
  "flagsOf home cmd = persistentFlags home @ cm_flags cmd"

text \<open>The variables: every flag is bound when the program starts, and has its default unless it is given.\<close>

definition allFlags :: "string \<Rightarrow> flag_decl list" where
  "allFlags home = persistentFlags home @ concat (map cm_flags commands)"

definition flagValue :: "flag_decl list \<Rightarrow> (string \<rightharpoonup> flag_value) \<Rightarrow> string \<Rightarrow> flag_value" where
  "flagValue ds given n = (case given n of Some v \<Rightarrow> v | None \<Rightarrow> (case find (\<lambda>d. fd_name d = n) ds of
     Some d \<Rightarrow> fd_default d | None \<Rightarrow> Text ''''))"

definition text_value :: "flag_value \<Rightarrow> string" where
  "text_value v = (case v of Text t \<Rightarrow> t | Switch b \<Rightarrow> '''')"

definition switch_value :: "flag_value \<Rightarrow> bool" where
  "switch_value v = (case v of Text t \<Rightarrow> False | Switch b \<Rightarrow> b)"

definition variables :: "string \<Rightarrow> (string \<rightharpoonup> flag_value) \<Rightarrow> flags" where
  "variables home given =
     (let text = (\<lambda>n. text_value (flagValue (allFlags home) given n)); switch = (\<lambda>n. switch_value (flagValue (allFlags home) given n))
      in \<lparr>f_kubeconfig = text ''kubeconfig'', f_namespace = text ''namespace'', f_statefulSetName = text ''statefulset'',
          f_volumeName = text ''volume'', f_newSize = text ''size'', f_storageClass = text ''storage-class'',
          f_watch = switch ''watch'', f_allNamespaces = switch ''all-namespaces'', f_outputFormat = text ''output'',
          f_followStatus = switch ''follow''\<rparr>)"

subsection \<open>main\<close>

text \<open>What cobra makes of a command line, and how the process ends.\<close>

datatype invocation = Refused go_error | Answered | Runs command "string \<rightharpoonup> flag_value" "string list"

datatype ending = Exit int | IndexOutOfRange

text \<open>The name a command reads from \<^verbatim>\<open>args[0]\<close>.\<close>

definition withName :: "string list \<Rightarrow> (string \<Rightarrow> (int \<times> history) option) \<Rightarrow> history \<Rightarrow> (ending \<times> history) option" where
  "withName args k h = (case args of [] \<Rightarrow> Some (IndexOutOfRange, h) | name # _ \<Rightarrow> map_option (apfst Exit) (k name))"

definition runCommand :: "client \<Rightarrow> string \<times> string \<times> string \<Rightarrow> command \<Rightarrow> flags \<Rightarrow> string list \<Rightarrow> history \<Rightarrow> (ending \<times> history) option" where
  "runCommand c build cmd f args h =
     (if cmd = createCmd then withName args (\<lambda>name. runCreate c f name h) h
      else if cmd = deleteCmd then withName args (\<lambda>name. Some (run_state (runDelete c f name) h)) h
      else if cmd = describeCmd then withName args (\<lambda>name. Some (run_state (runDescribe c f name) h)) h
      else if cmd = listCmd then Some (apfst Exit (run_state (runList c f) h))
      else if cmd = statusCmd then withName args (\<lambda>name. runStatus c f name h) h
      else if cmd = versionCmd then (case build of (version, commit, date) \<Rightarrow> Some (apfst Exit (run_state (runVersion version commit date) h)))
      else withName args (\<lambda>name. runWatch c f name h) h)"

text \<open>The variables of \<^verbatim>\<open>version.go\<close>, for a program built without others.\<close>

definition devBuild :: "string \<times> string \<times> string" where
  "devBuild = (''dev'', ''unknown'', ''unknown'')"

text \<open>\<open>Execute\<close> returns an error only when cobra refuses the command line; a command ends the process itself.\<close>

definition volmig :: "(string list \<Rightarrow> invocation) \<Rightarrow> client \<Rightarrow> string \<times> string \<times> string \<Rightarrow> string \<Rightarrow> string list \<Rightarrow> history \<Rightarrow> (ending \<times> history) option" where
  "volmig cobra c build home args h =
     (case cobra args of
        Refused err \<Rightarrow> Some (Exit 1, h)
      | Answered \<Rightarrow> Some (Exit 0, h)
      | Runs cmd given rest \<Rightarrow> runCommand c build cmd (variables home given) rest h)"

subsection \<open>The tables are consistent\<close>

text \<open>
  The syntax of a command line of which the words are known: \<open>--name value\<close> and \<open>-n value\<close>, a switch
  without a value, anything else an argument.
\<close>

fun readWords :: "flag_decl list \<Rightarrow> string list \<Rightarrow> ((string \<times> flag_value) list \<times> string list) option" where
  "readWords ds [] = Some ([], [])"
| "readWords ds (w # ws) =
     (if take 1 w = ''-'' then
        (case find (\<lambda>d. w = ''--'' @ fd_name d \<or> fd_short d \<noteq> '''' \<and> w = ''-'' @ fd_short d) ds of
           None \<Rightarrow> None
         | Some d \<Rightarrow>
             (case fd_default d of
                Switch b \<Rightarrow> map_option (apfst (\<lambda>g. (fd_name d, Switch True) # g)) (readWords ds ws)
              | Text t \<Rightarrow> (case ws of [] \<Rightarrow> None | v # vs \<Rightarrow> map_option (apfst (\<lambda>g. (fd_name d, Text v) # g)) (readWords ds vs))))
      else map_option (apsnd (\<lambda>as. w # as)) (readWords ds ws))"

text \<open>What the tables ask of a command line.\<close>

definition accepts_line :: "string \<Rightarrow> command \<Rightarrow> (string \<rightharpoonup> flag_value) \<Rightarrow> string list \<Rightarrow> bool" where
  "accepts_line home cmd given rest \<longleftrightarrow> list_all (\<lambda>n. given n \<noteq> None) (cm_required cmd) \<and>
     (case cm_args cmd of None \<Rightarrow> True | Some k \<Rightarrow> length rest = k)"

definition readLine :: "string \<Rightarrow> string list \<Rightarrow> invocation" where
  "readLine home ws =
     (case ws of
        [] \<Rightarrow> Answered
      | w # ws \<Rightarrow>
          (case find (\<lambda>cmd. cm_name cmd = w) commands of
             None \<Rightarrow> Refused (errorf ''unknown command'')
           | Some cmd \<Rightarrow>
               (case readWords (flagsOf home cmd) ws of
                  None \<Rightarrow> Refused (errorf ''unknown flag'')
                | Some (given, rest) \<Rightarrow>
                    if accepts_line home cmd (map_of given) rest then Runs cmd (map_of given) rest
                    else Refused (errorf ''arguments''))))"

text \<open>The examples in the help texts, word by word.\<close>

definition examples :: "command \<Rightarrow> string list list" where
  "examples cmd = map (\<lambda>l. splitAt (\<lambda>c. c = CHR '' '') (drop 9 l)) (filter (\<lambda>l. take 9 l = ''  volmig '') (cm_long cmd))"

definition consistentFlags :: "string \<Rightarrow> command \<Rightarrow> bool" where
  "consistentFlags home cmd \<longleftrightarrow> (let ds = flagsOf home cmd; shorts = filter (\<lambda>n. n \<noteq> '''') (map fd_short ds) in
     distinct (''help'' # map fd_name ds) \<and> distinct (''h'' # shorts) \<and> list_all (\<lambda>n. length n = 1) shorts \<and>
     list_all (\<lambda>n. n \<in> set (map fd_name (cm_flags cmd))) (cm_required cmd))"

definition isRun :: "invocation \<Rightarrow> bool" where
  "isRun i \<longleftrightarrow> (case i of Runs cmd given rest \<Rightarrow> True | _ \<Rightarrow> False)"

lemma persistentFlags_code [code]:
  "persistentFlags home = [flag ''kubeconfig'' '''' (Text (if home = '''' then '''' else joinPath [home, ''.kube'', ''config'']))
     ''path to kubeconfig file'', flag ''namespace'' ''n'' (Text ''default'') ''kubernetes namespace'']"
  by (simp add: persistentFlags_def)

lemma flags_consistent: "list_all (consistentFlags home) commands"
  by (simp add: consistentFlags_def flagsOf_def persistentFlags_def flag_def commands_def createCmd_def deleteCmd_def
      describeCmd_def listCmd_def statusCmd_def versionCmd_def watchCmd_def)

lemma examples_run: "list_all (\<lambda>cmd. list_all (\<lambda>ws. isRun (readLine home ws)) (examples cmd)) (rootCmd # commands)"
  by code_simp


subsection \<open>What a command line can do\<close>

text \<open>What is asked of cobra: a command is run only with what the tables allow.\<close>

definition sameKind :: "flag_value \<Rightarrow> flag_value \<Rightarrow> bool" where
  "sameKind v w \<longleftrightarrow> (case v of Text s \<Rightarrow> (case w of Text t \<Rightarrow> True | Switch b \<Rightarrow> False)
     | Switch b \<Rightarrow> (case w of Text t \<Rightarrow> False | Switch d \<Rightarrow> True))"

definition obeys_tables :: "string \<Rightarrow> (string list \<Rightarrow> invocation) \<Rightarrow> bool" where
  "obeys_tables home cobra \<longleftrightarrow> (\<forall>args cmd given rest. cobra args = Runs cmd given rest \<longrightarrow>
     cmd \<in> set commands \<and> accepts_line home cmd given rest \<and>
     (\<forall>n v. given n = Some v \<longrightarrow> (\<exists>d \<in> set (flagsOf home cmd). fd_name d = n \<and> sameKind v (fd_default d))))"

text \<open>What a run of a command with the variables \<open>f\<close> may do to the cluster.\<close>

definition may_do :: "command \<Rightarrow> flags \<Rightarrow> string list \<Rightarrow> event \<Rightarrow> bool" where
  "may_do cmd f rest e \<longleftrightarrow> observes e \<or>
     cmd = createCmd \<and> (\<exists>q r. e = EvCreateVR (newResize f (hd rest) q) r) \<or>
     cmd = deleteCmd \<and> (\<exists>ns n r. e = EvDeleteVR ns n r)"

lemma may_do_simps [simp]:
  "may_do createCmd f (name # rest) (EvCreateVR (newResize f name q) r)" "may_do deleteCmd f rest (EvDeleteVR ns n d)"
  by (auto simp: may_do_def)

lemma observes_may_do [simp]: "observes e \<Longrightarrow> may_do cmd f rest e"
  by (simp add: may_do_def)

lemma only_may_do: "only observes m \<Longrightarrow> only (may_do cmd f rest) m"
  by (erule only_mono) (rule observes_may_do)

lemma createResize_may_do: "only (may_do createCmd f (name # rest)) (createResize c f name)"
proof -
  have submit: "only (may_do createCmd f (name # rest)) (submitResize c f name q)" for q
    unfolding submitResize_def CreateVR_def Print_def
    by (auto intro!: only_bind only_sum only_may_do [OF exitWithError_observes])
  show ?thesis
    unfolding createResize_def GetVR_def
    by (auto intro!: only_bind only_sum only_option only_may_do [OF exitWithError_observes] submit)
qed

lemma runDelete_may_do: "only (may_do deleteCmd f rest) (runDelete c f name)"
  unfolding runDelete_def DeleteVR_def Print_def
  by (auto intro!: only_bind only_sum only_option only_may_do [OF openResize_observes] only_may_do [OF exitWithError_observes])

lemma runVersion_observes: "only observes (runVersion v g b)"
  by (auto simp: runVersion_def Print_def intro!: only_bind)

text \<open>A run from \<open>h\<close> that ended in \<open>r\<close>, if it has: it panicked nowhere and did only what it may.\<close>

definition run_within :: "(event \<Rightarrow> bool) \<Rightarrow> history \<Rightarrow> (ending \<times> history) option \<Rightarrow> bool" where
  "run_within K h r \<longleftrightarrow> (case r of None \<Rightarrow> True | Some (e, h') \<Rightarrow> e \<noteq> IndexOutOfRange \<and> (\<exists>t. h' = h @ t \<and> list_all K t))"

lemma ran_only:
  assumes "only K m"
  shows "run_within K h (Some (apfst Exit (run_state m h)))"
proof -
  obtain t where "trace m h = h @ t" "list_all K t"
    using assms unfolding only_def by blast
  then show ?thesis by (simp add: run_within_def result_trace)
qed

lemma ran_name:
  assumes "args \<noteq> []" and "case k (hd args) of None \<Rightarrow> True | Some (code, h') \<Rightarrow> \<exists>t. h' = h @ t \<and> list_all K t"
  shows "run_within K h (withName args k h)"
  using assms by (cases args) (auto simp: run_within_def withName_def split: option.splits)

lemma ran_name_only:
  assumes "args \<noteq> []" and "only K (m (hd args))"
  shows "run_within K h (withName args (\<lambda>name. Some (run_state (m name) h)) h)"
proof (rule ran_name [OF assms(1)])
  obtain t where "trace (m (hd args)) h = h @ t" "list_all K t"
    using assms(2) unfolding only_def by blast
  then show "case Some (run_state (m (hd args)) h) of None \<Rightarrow> True | Some (code, h') \<Rightarrow> \<exists>t. h' = h @ t \<and> list_all K t"
    by (simp add: result_trace)
qed

lemma ran_mono: "run_within K h r \<Longrightarrow> (\<And>e. K e \<Longrightarrow> L e) \<Longrightarrow> run_within L h r"
  unfolding run_within_def by (auto split: option.splits simp: list_all_iff)

lemma runCreate_may_do:
  "case runCreate c f name h of None \<Rightarrow> True | Some (code, h') \<Rightarrow> \<exists>t. h' = h @ t \<and> list_all (may_do createCmd f (name # rest)) t"
proof -
  have K: "list_all (may_do createCmd f (name # rest)) t" if "list_all observes t" for t
    using that by (auto simp: list_all_iff intro: observes_may_do)
  obtain t where t: "trace (createResize c f name) h = h @ t" "list_all (may_do createCmd f (name # rest)) t"
    using createResize_may_do unfolding only_def by blast
  let ?h = "h @ t @ [EvPrint nl]"
  have "case runWatch c f name ?h of None \<Rightarrow> True | Some (code, h') \<Rightarrow>
      \<exists>t. h' = h @ t \<and> list_all (may_do createCmd f (name # rest)) t"
    using runWatch_observes [where c = c and f = f and name = name and h = ?h] t(2) K by (fastforce simp: may_do_def split: option.splits)
  then show ?thesis
    using t by (auto simp: runCreate_def result_trace Print_def may_do_def split: sum.split)
qed

lemma commands_distinct: "distinct commands"
  by code_simp

lemma commands_differ:
  "list_all (\<lambda>cmd. cmd \<noteq> createCmd) [deleteCmd, describeCmd, listCmd, statusCmd, versionCmd, watchCmd]"
  "list_all (\<lambda>cmd. cmd \<noteq> deleteCmd) [describeCmd, listCmd, statusCmd, versionCmd, watchCmd]"
  "list_all (\<lambda>cmd. cmd \<noteq> describeCmd) [listCmd, statusCmd, versionCmd, watchCmd]"
  "list_all (\<lambda>cmd. cmd \<noteq> listCmd) [statusCmd, versionCmd, watchCmd]"
  "list_all (\<lambda>cmd. cmd \<noteq> statusCmd) [versionCmd, watchCmd]" "watchCmd \<noteq> versionCmd"
  using commands_distinct by (auto simp: commands_def)

lemmas runCommand_simps = runCommand_def commands_differ [simplified]

lemma run_within_observes: "run_within observes h r \<Longrightarrow> run_within (may_do cmd f rest) h r"
  by (erule ran_mono) simp

lemma runCommand_within:
  assumes "cmd \<in> set commands" and "accepts_line home cmd given rest"
  shows "run_within (may_do cmd f rest) h (runCommand c build cmd f rest h)"
proof -
  have named: "rest \<noteq> []" if "cm_args cmd = Some 1"
    using assms(2) that by (auto simp: accepts_line_def)
  consider "cmd = createCmd" | "cmd = deleteCmd" | "cmd = describeCmd" | "cmd = listCmd" | "cmd = statusCmd" | "cmd = versionCmd" | "cmd = watchCmd"
    using assms(1) by (auto simp: commands_def)
  then show ?thesis
  proof cases
    case 1
    then have "rest \<noteq> []" using named by (simp add: createCmd_def)
    then obtain name more where "rest = name # more" by (cases rest) auto
    with 1 show ?thesis
      using runCreate_may_do [where c = c and f = f and name = name and h = h and rest = more]
      by (auto simp: runCommand_def intro!: ran_name)
  next
    case 2
    then have "rest \<noteq> []" using named by (simp add: deleteCmd_def)
    with 2 show ?thesis
      by (auto simp: runCommand_simps intro!: ran_name_only runDelete_may_do)
  next
    case 3
    then have "rest \<noteq> []" using named by (simp add: describeCmd_def)
    with 3 show ?thesis
      by (auto simp: runCommand_simps intro!: run_within_observes ran_name_only runDescribe_observes)
  next
    case 4
    then show ?thesis
      by (auto simp: runCommand_simps intro!: ran_only only_may_do [OF runList_observes])
  next
    case 5
    then have "rest \<noteq> []" using named by (simp add: statusCmd_def)
    with 5 show ?thesis
      by (auto simp: runCommand_simps intro!: run_within_observes ran_name runStatus_observes)
  next
    case 6
    then show ?thesis
      by (auto simp: runCommand_simps split: prod.split intro!: ran_only only_may_do [OF runVersion_observes])
  next
    case 7
    then have "rest \<noteq> []" using named by (simp add: watchCmd_def)
    with 7 show ?thesis
      by (auto simp: runCommand_simps intro!: run_within_observes ran_name runWatch_observes)
  qed
qed

text \<open>
  C32: Whatever the command line, volmig does to the cluster only what the command it names is for: it reads,
  waits and prints, but for \<open>create\<close>, which may submit the object of its flags and its argument, and
  \<open>delete\<close>, which may delete; a command line that cobra refuses or answers has no effect and the exit
  status 1 or 0; and no command reads an argument that is not there.
\<close>

theorem volmig_does_only:
  assumes "obeys_tables home cobra"
  shows "case cobra args of
      Refused err \<Rightarrow> volmig cobra c build home args h = Some (Exit 1, h)
    | Answered \<Rightarrow> volmig cobra c build home args h = Some (Exit 0, h)
    | Runs cmd given rest \<Rightarrow> run_within (may_do cmd (variables home given) rest) h (volmig cobra c build home args h)"
proof (cases "cobra args")
  case (Runs cmd given rest)
  then have "cmd \<in> set commands" "accepts_line home cmd given rest"
    using assms unfolding obeys_tables_def by blast+
  from runCommand_within [OF this] Runs show ?thesis by (simp add: volmig_def)
qed (simp_all add: volmig_def)

lemma found_in: "find P ds = Some d \<Longrightarrow> d \<in> set ds"
  by (induction ds) (auto split: if_splits)

lemma readWords_declared:
  "readWords ds ws = Some (given, rest) \<Longrightarrow> (n, v) \<in> set given \<Longrightarrow> \<exists>d \<in> set ds. fd_name d = n \<and> sameKind v (fd_default d)"
proof (induction ws arbitrary: given rest rule: measure_induct_rule [of length])
  case (less ws)
  then obtain w us where ws: "ws = w # us" by (cases ws) auto
  let ?P = "\<lambda>d. w = ''--'' @ fd_name d \<or> fd_short d \<noteq> '''' \<and> w = ''-'' @ fd_short d"
  show ?case
  proof (cases "take 1 w = ''-''")
    case False
    with less.prems(1) obtain r where r: "readWords ds us = Some (given, r)"
      by (auto simp: ws)
    show ?thesis
      by (rule less.IH [OF _ r less.prems(2)]) (simp add: ws)
  next
    case True
    with less.prems(1) obtain d where d: "find ?P ds = Some d"
      by (cases "find ?P ds") (simp_all add: ws)
    then have declared: "d \<in> set ds"
      by (rule found_in)
    obtain g x vs where g: "given = (fd_name d, x) # g" "sameKind x (fd_default d)" "readWords ds vs = Some (g, rest)" "length vs < length ws"
    proof (cases "fd_default d")
      case (Text t)
      with True d less.prems(1) obtain u vs g where "us = u # vs" "given = (fd_name d, Text u) # g" "readWords ds vs = Some (g, rest)"
        by (cases us) (auto simp: ws)
      with Text show ?thesis by (intro that) (auto simp: ws sameKind_def)
    next
      case (Switch t)
      with True d less.prems(1) obtain g where "given = (fd_name d, Switch True) # g" "readWords ds us = Some (g, rest)"
        by (auto simp: ws)
      with Switch show ?thesis by (intro that) (auto simp: ws sameKind_def)
    qed
    with less.prems(2) declared less.IH [OF g(4,3)] show ?thesis by auto
  qed
qed

lemma readLine_obeys: "obeys_tables home (readLine home)"
  unfolding obeys_tables_def
proof (intro allI impI)
  fix args cmd given rest assume "readLine home args = Runs cmd given rest"
  then obtain w ws g where "find (\<lambda>cmd. cm_name cmd = w) commands = Some cmd" "readWords (flagsOf home cmd) ws = Some (g, rest)"
      "given = map_of g" "accepts_line home cmd given rest"
    by (auto simp: readLine_def split: list.splits option.splits if_splits prod.splits)
  then show "cmd \<in> set commands \<and> accepts_line home cmd given rest \<and>
      (\<forall>n v. given n = Some v \<longrightarrow> (\<exists>d \<in> set (flagsOf home cmd). fd_name d = n \<and> sameKind v (fd_default d)))"
    using readWords_declared found_in by (fastforce dest: map_of_SomeD)
qed

text \<open>A creation, word by word.\<close>

definition demoWords :: "string list" where
  "demoWords = [''create'', ''r'', ''-s'', ''web'', ''--volume'', ''data'', ''--size'', ''1Gi'', ''-n'', ''d'']"

theorem volmig_does_only_witness:
  "\<exists>given. readLine '''' demoWords = Runs createCmd given [''r''] \<and>
    run_within (may_do createCmd (variables '''' given) [''r'']) [] (volmig (readLine '''') storingClient devBuild '''' demoWords [])"
proof -
  have "(case readLine '''' demoWords of Runs cmd given rest \<Rightarrow> cmd = createCmd \<and> rest = [''r''] | _ \<Rightarrow> False)"
    by code_simp
  then obtain given where "readLine '''' demoWords = Runs createCmd given [''r'']"
    by (auto split: invocation.splits)
  then show ?thesis
    using volmig_does_only [OF readLine_obeys, where args = demoWords and c = storingClient and build = devBuild and home = "''''" and h = "[]"]
    by simp
qed

end
