(* ===== verification/Rolling.thy ===== *)
theory Rolling
  imports Simulation
begin

section \<open>One replica after the other\<close>

text \<open>
  The migration is to be a rolling one: the pod of one replica is stopped, its volumes are moved, and the next
  replica is touched only when that pod runs again. What the operator keeps of this: it stops only the pod
  of the replica in progress, and within a call it goes on only when it has seen the pod run. What it does not
  keep: a call that finds the volume in progress marked as completed goes on without a look at the pod, and that is what happens
  whenever the pod was not back at once.
\<close>

subsection \<open>Pods are stopped one at a time\<close>

text \<open>A call that finds the volume in progress completed makes no call about anything but the object.\<close>

lemma completed_call:
  assumes "c_getVR c [] ns n = Inr vr" and "om_deletionTimestamp (vr_meta vr) = None" and "vrPhase vr = PhaseSyncing"
    and "st_currentReplica (vr_status vr) = Some r" and "currentCompleted vr r (st_currentVolume (vr_status vr))"
  shows "list_all (\<lambda>e. looking e \<or> touches_vr e) (trace (Reconcile c ns n) [])"
proof -
  have "only (\<lambda>e. looking e \<or> touches_vr e) (advance c vr r v)" for v
    by (auto simp: advance_def run_defs split: option.split intro!: only_bind only_sum)
  then have "only (\<lambda>e. looking e \<or> touches_vr e) (dispatch c vr)"
    using assms(3-5) by (simp add: dispatch_def handleSyncing_def Let_def phase_defs)
  then obtain t where "trace (dispatch c vr) [EvGetVR ns n (Inr vr)] = [EvGetVR ns n (Inr vr)] @ t"
    "list_all (\<lambda>e. looking e \<or> touches_vr e) t"
    unfolding only_def by blast
  then show ?thesis
    using assms(1,2) by (auto simp: Reconcile_def GetVR_def UpdateVR_def split: sum.split)
qed



subsection \<open>The next position\<close>

text \<open>A position is left only from a completed entry.\<close>

lemma position_left:
  assumes "represents vols b s" and "represents vols d t" and "(life_step (length vols))\<^sup>=\<^sup>= b d"
    and "st_phase s = PhaseSyncing" and "st_phase t \<noteq> PhaseFailed"
    and "(st_currentReplica t, st_currentVolume t) \<noteq> (st_currentReplica s, st_currentVolume s)"
  obtains n k where "b = Moving n k True" "d \<noteq> b" "d \<noteq> Stopped"
proof -
  have "\<exists>n k. b = Moving n k True \<and> d \<noteq> b \<and> d \<noteq> Stopped"
    using assms by (cases b) (auto simp: phase_defs elim!: life_step.cases)
  with that show ?thesis by blast
qed

text \<open>
  C5: From any object that stands for a state of its life, as all that come from a new one do: a status that leaves the position in progress, for the next one or because
  all are done, is written only for a position whose entry is completed, and only in two situations. Either the same
  call has created the StatefulSet again, or found it there, and has since read the pod of the replica as
  running. Or the call has not yet looked at anything but the object, in which the entry was already completed.
\<close>

theorem next_position_earned:
  assumes "serves c" and "positive_replicas c [EvGetVR ns n (Inr vr)]" and "c_getVR c [] ns n = Inr vr"
    and "plannable (vrVolumes vr)" and "represents (vrVolumes vr) a (vr_status vr)"
    and "trace (Reconcile c ns n) [] = pre @ EvStatusVR v (Inr w) # post" and "latest pre = Some u"
    and "vrPhase u = PhaseSyncing" and "vrPhase w \<noteq> PhaseFailed"
    and "(st_currentReplica (vr_status w), st_currentVolume (vr_status w)) \<noteq> (st_currentReplica (vr_status u), st_currentVolume (vr_status u))"
  shows "\<exists>r. st_currentReplica (vr_status u) = Some r \<and> currentCompleted u r (st_currentVolume (vr_status u)) \<and>
    (pod_back u r pre \<or> list_all looking pre)"
proof -
  obtain b d where bd: "represents (vrVolumes vr) b (vr_status u)" "(life_step (length (vrVolumes vr)))\<^sup>=\<^sup>= b d"
    "represents (vrVolumes vr) d (vr_status w)" "earned (vrVolumes vr) u pre b d" "same_object u vr"
    using status_write_step [OF assms(1-6)] assms(7) by (metis option.inject)
  obtain m k where mk: "b = Moving m k True" "d \<noteq> b" "d \<noteq> Stopped"
    using position_left [OF bd(1,3,2)] assms(8-10) by metis
  have vols: "vrVolumes u = vrVolumes vr"
    using bd(5) by (simp add: same_object_def)
  have "currentCompleted u (fst (keyAt (vrVolumes vr) k)) (snd (keyAt (vrVolumes vr) k))"
    using currentCompleted_schedule [OF assms(4), of m k u] moving_entry(4) [OF assms(4)] bd(1) mk(1) vols by (auto simp: entryDone_def)
  moreover have "resumed u (fst (keyAt (vrVolumes vr) k)) pre"
    using bd(4) mk by (simp add: earned_def)
  ultimately show ?thesis
    using bd(1) mk(1) by (auto simp: resumed_def)
qed

theorem next_position_earned_witness:
  "\<exists>v w u. demoRun ! 39 = EvStatusVR v (Inr w) \<and> latest (take 39 demoRun) = Some u \<and> currentCompleted u 0 ''data'' \<and>
     pod_back u 0 (take 39 demoRun)"
proof -
  have at: "trace (Reconcile demoClient ''d'' ''r'') [] = take 39 demoRun @ demoRun ! 39 # drop (Suc 39) demoRun"
    using demo_run_at [of 39] by simp
  have "case demoRun ! 39 of EvStatusVR v (Inr w) \<Rightarrow> vrPhase w = PhaseCompleted \<and> st_currentReplica (vr_status w) = None | _ \<Rightarrow> False"
    "case latest (take 39 demoRun) of None \<Rightarrow> False | Some u \<Rightarrow> vrPhase u = PhaseSyncing \<and>
       st_currentReplica (vr_status u) = Some 0 \<and> st_currentVolume (vr_status u) = ''data''"
    by code_simp+
  then obtain v w u where e: "demoRun ! 39 = EvStatusVR v (Inr w)" "vrPhase w = PhaseCompleted" "st_currentReplica (vr_status w) = None"
    and u: "latest (take 39 demoRun) = Some u" "vrPhase u = PhaseSyncing" "st_currentReplica (vr_status u) = Some 0"
      "st_currentVolume (vr_status u) = ''data''"
    by (auto split: event.splits sum.splits option.splits)
  have "\<not> list_all looking (take 39 demoRun)"
    by code_simp
  then show ?thesis
    using next_position_earned [OF demo_client(1) demo_positive demo_client(3) demo_plannable demo_represents
        at [unfolded e(1)] u(1)] e u by (auto simp: phase_defs)
qed

subsection \<open>Two replicas down\<close>

text \<open>
  An application of two replicas, on a cluster on which the pod of replica 0 does not come back: its image
  cannot be pulled, say, or there is no node for it.
\<close>

definition twoSTS :: StatefulSet where
  "twoSTS = demoSTS\<lparr>sts_replicas := Some 2\<rparr>"

definition twoClaims :: "string \<Rightarrow> PersistentVolumeClaim option" where
  "twoClaims n = (if n = ''data-web-0'' \<or> n = ''data-web-1'' then Some (demoVCT\<lparr>
     pvc_meta := zeroMeta\<lparr>om_name := n, om_namespace := ''d''\<rparr>, pvc_volumeName := ''old'', pvc_phase := ClaimBound\<rparr>) else None)"

definition twoCluster :: cluster where
  "twoCluster = demoCluster\<lparr>cl_sts := Some twoSTS, cl_pvc := twoClaims, cl_pod := startPods twoSTS Map.empty\<rparr>"

definition stuckClient :: "VolumeResize \<Rightarrow> cluster \<Rightarrow> client" where
  "stuckClient vr k = (cluster_client vr twoSTS k)\<lparr>c_getPod := \<lambda>h ns n.
     if n = ''web-0'' then Inl notFound else fetch (cl_pod (present k h) n)\<rparr>"

text \<open>The object at replica 0, before and after its claim was replaced.\<close>

definition twoVR :: "string \<Rightarrow> VolumeResize" where
  "twoVR p = demoVR (demoSyncing\<lparr>st_volumeStatuses := [
     (initialStatus \<lparr>vt_name = ''data'', vt_newSize = ''1Gi'', vt_storageClass = None\<rparr> 0)\<lparr>vs_phase := p\<rparr>,
     initialStatus \<lparr>vt_name = ''data'', vt_newSize = ''1Gi'', vt_storageClass = None\<rparr> 1]\<rparr>)"

definition entries :: "VolumeResize \<Rightarrow> string \<times> int32 option \<times> (int32 \<times> string) list" where
  "entries vr = (vrPhase vr, st_currentReplica (vr_status vr),
     map (\<lambda>e. (vs_replica e, vs_phase e)) (st_volumeStatuses (vr_status vr)))"

text \<open>The call that replaces the claim ends with the wish to be called again, to see whether the pod is back.\<close>

lemma pod_awaited:
  "let m = Reconcile (stuckClient (twoVR VolumeStatusPending) twoCluster) ''d'' ''r'' in
     result m [] = requeueAfter (second * 5) \<and> map_option entries (latest (trace m [])) = Some (entries (twoVR VolumeStatusCompleted))"
  by code_simp

fun stopsPod :: "string \<Rightarrow> event \<Rightarrow> bool" where
  "stopsPod pod (EvDeletePod ns n None) \<longleftrightarrow> n = pod"
| "stopsPod pod _ \<longleftrightarrow> False"

fun looksAt :: "string \<Rightarrow> event \<Rightarrow> bool" where
  "looksAt pod (EvGetPod ns n res) \<longleftrightarrow> n = pod"
| "looksAt pod _ \<longleftrightarrow> False"


end
