(* ===== verification/Leftovers.thy ===== *)
theory Leftovers
  imports Simulation
begin

section \<open>What an earlier migration leaves behind\<close>

text \<open>
  The backup of the StatefulSet is found by a name made of that of the VolumeResize alone, it is taken as it is
  when it is there, and nothing ever deletes it. So a VolumeResize that is deleted and later created anew, under the same name, for
  another StatefulSet or one that has changed since, finds the backup of the earlier one: the StatefulSet that is
  deleted is not the one that is restored.
\<close>

subsection \<open>The backup stays\<close>

text \<open>No call removes a ConfigMap from the cluster.\<close>

lemma backup_stays: "cl_cm k n \<noteq> None \<Longrightarrow> cl_cm (present k h) n \<noteq> None"
proof (induction h rule: rev_induct)
  case (snoc e h)
  then have "cl_cm (present k h) n \<noteq> None" by simp
  then have "cl_cm (happens e (present k h)) n \<noteq> None"
    by (cases "(e, present k h)" rule: happens.cases) auto
  then show ?case by (simp add: present_def)
qed (simp add: present_def)

subsection \<open>The earlier StatefulSet is restored\<close>

text \<open>Every look for the backup in a run found one, whose text is \<open>json\<close>.\<close>

definition backup_reads :: "VolumeResize \<Rightarrow> string \<Rightarrow> event \<Rightarrow> bool" where
  "backup_reads vr json e \<longleftrightarrow> (case e of
     EvGetCM ns n res \<Rightarrow> (case res of Inl err \<Rightarrow> False | Inr cm \<Rightarrow> goLookup (cm_data cm) ConfigMapKeySTSSpec = Some json)
   | _ \<Rightarrow> True)"


text \<open>
  The cluster on which the StatefulSet \<^verbatim>\<open>web\<close> was migrated by an object \<^verbatim>\<open>r\<close>, some time later: the ConfigMap is still there, the
  StatefulSet is now \<^verbatim>\<open>db\<close>, and a new object \<^verbatim>\<open>r\<close> names it.
\<close>

definition dbSTS :: StatefulSet where
  "dbSTS = demoSTS\<lparr>sts_meta := zeroMeta\<lparr>om_name := ''db'', om_namespace := ''d'', om_uid := ''8''\<rparr>\<rparr>"

definition dbClaim :: "string \<Rightarrow> PersistentVolumeClaim option" where
  "dbClaim n = (if n = ''data-db-0'' then Some (demoVCT\<lparr>
     pvc_meta := zeroMeta\<lparr>om_name := n, om_namespace := ''d''\<rparr>, pvc_volumeName := ''old'', pvc_phase := ClaimBound\<rparr>) else None)"

definition laterCluster :: cluster where
  "laterCluster = \<lparr>cl_sts = Some dbSTS, cl_pvc = dbClaim, cl_pv = (\<lambda>n. Some (demoPV n)),
     cl_pod = startPods dbSTS Map.empty, cl_cm = [''r-sts-backup'' \<mapsto> backupConfigMap (demoVR demoSyncing) ''json'']\<rparr>"

definition laterVR :: VolumeResize where
  "laterVR = (demoVR demoSyncing)\<lparr>vr_spec := \<lparr>spec_statefulSetName = ''db'',
     spec_volumes = [\<lparr>vt_name = ''data'', vt_newSize = ''1Gi'', vt_storageClass = None\<rparr>]\<rparr>\<rparr>"

text \<open>The ConfigMap is the one that the migration of \<^verbatim>\<open>web\<close> has left.\<close>

lemma backup_left:
  "map_option (\<lambda>cm. goLookup (cm_data cm) ConfigMapKeySTSSpec) (cl_cm (present demoCluster demoRun) ''r-sts-backup'') = Some (Some ''json'')"
  by code_simp

definition laterRun :: history where
  "laterRun = trace (Reconcile (cluster_client laterVR demoSTS laterCluster) ''d'' ''r'') []"

lemma later_calls: "map callOf laterRun =
  [Call ''GetVR'' ''r'', Call ''GetPVC'' ''data-db-0'', Call ''GetPVC'' ''data-db-0-new'',
   Call ''CreatePVC'' ''data-db-0-new'', Call ''GetPV'' ''old'', Call ''UpdatePV'' ''old'',
   Call ''GetSTS'' ''db'', Call ''GetCM'' ''r-sts-backup'', Call ''DeleteSTS'' ''db'', Call ''UpdateVR'' ''r'', Call ''StatusVR'' ''Syncing'',
   Call ''DeletePod'' ''db-0'', Call ''Now'' '''', Call ''Now'' '''', Call ''GetPod'' ''db-0'',
   Call ''GetPod'' ''r-migrator-0-data'', Call ''CreatePod'' ''r-migrator-0-data'', Call ''Now'' '''', Call ''Now'' '''',
   Call ''GetPod'' ''r-migrator-0-data'', Call ''DeletePod'' ''r-migrator-0-data'',
   Call ''GetPVC'' ''data-db-0-new'', Call ''GetPVC'' ''data-db-0'',
   Call ''GetPV'' ''pv-data-db-0-new'', Call ''UpdatePV'' ''pv-data-db-0-new'', Call ''DeletePVC'' ''data-db-0-new'',
   Call ''GetPVC'' ''data-db-0-new'', Call ''GetPV'' ''pv-data-db-0-new'', Call ''UpdatePV'' ''pv-data-db-0-new'',
   Call ''DeletePVC'' ''data-db-0'', Call ''GetPVC'' ''data-db-0'', Call ''CreatePVC'' ''data-db-0'',
   Call ''StatusVR'' ''Syncing'', Call ''GetCM'' ''r-sts-backup'', Call ''CreateSTS'' ''web'', Call ''UpdateVR'' ''r'',
   Call ''GetPod'' ''db-0'']"
  by code_simp

lemma later_reads: "list_all (backup_reads laterVR ''json'') laterRun"
  by code_simp


end
