(* ===== verification/Permissions.thy ===== *)
theory Permissions
  imports Simulation
begin

section \<open>The permissions of the operator\<close>

text \<open>
  The operator may do in the cluster what a role allows, and the role is generated from the markers
  above \<^verbatim>\<open>Reconcile\<close>. A call that the role does not allow fails on a cluster with access control
  and on no test cluster without. So the markers are part of the program, and this theory compares them
  with the calls that \<^verbatim>\<open>Reconcile\<close> makes.
\<close>

subsection \<open>The markers\<close>

record rbac_rule =
  ru_group :: string
  ru_resource :: string
  ru_verbs :: "string list"

definition rbacMarkers :: "rbac_rule list" where
  "rbacMarkers =
     [\<lparr>ru_group = ''storage.maurice.fr'', ru_resource = ''volumeresizes'',
        ru_verbs = [''get'', ''list'', ''watch'', ''create'', ''update'', ''patch'', ''delete'']\<rparr>,
      \<lparr>ru_group = ''storage.maurice.fr'', ru_resource = ''volumeresizes/status'', ru_verbs = [''get'', ''update'', ''patch'']\<rparr>,
      \<lparr>ru_group = ''storage.maurice.fr'', ru_resource = ''volumeresizes/finalizers'', ru_verbs = [''update'']\<rparr>,
      \<lparr>ru_group = ''apps'', ru_resource = ''statefulsets'', ru_verbs = [''get'', ''list'', ''watch'', ''delete'', ''create'']\<rparr>,
      \<lparr>ru_group = '''', ru_resource = ''pods'', ru_verbs = [''get'', ''list'', ''watch'', ''delete'', ''create'']\<rparr>,
      \<lparr>ru_group = '''', ru_resource = ''persistentvolumeclaims'', ru_verbs = [''get'', ''list'', ''watch'', ''delete'', ''create'']\<rparr>,
      \<lparr>ru_group = '''', ru_resource = ''persistentvolumes'', ru_verbs = [''get'', ''list'', ''watch'', ''update'']\<rparr>,
      \<lparr>ru_group = ''policy'', ru_resource = ''poddisruptionbudgets'', ru_verbs = [''get'', ''list'', ''watch'']\<rparr>,
      \<lparr>ru_group = ''storage.k8s.io'', ru_resource = ''storageclasses'', ru_verbs = [''get'', ''list'', ''watch'']\<rparr>,
      \<lparr>ru_group = '''', ru_resource = ''configmaps'', ru_verbs = [''get'', ''list'', ''watch'', ''create'', ''delete'']\<rparr>,
      \<lparr>ru_group = '''', ru_resource = ''events'', ru_verbs = [''create'', ''patch'']\<rparr>]"

text \<open>A permission: group, resource, verb.\<close>

type_synonym permission = "string \<times> string \<times> string"

definition granted :: "rbac_rule list \<Rightarrow> permission list" where
  "granted rules = concat (map (\<lambda>r. map (\<lambda>v. (ru_group r, ru_resource r, v)) (ru_verbs r)) rules)"

subsection \<open>What the calls need\<close>

text \<open>
  What the API server asks of the caller for each call. The client of the manager reads objects from
  a cache that it fills by listing and watching all objects of the kind.
\<close>

definition cached :: "string \<Rightarrow> string \<Rightarrow> string list \<Rightarrow> permission list" where
  "cached grp resource verbs = map (\<lambda>v. (grp, resource, v)) (verbs @ [''list'', ''watch''])"

fun needs :: "event \<Rightarrow> permission list" where
  "needs (EvGetVR _ _ _) = cached ''storage.maurice.fr'' ''volumeresizes'' [''get'']"
| "needs (EvUpdateVR _ _) = [(''storage.maurice.fr'', ''volumeresizes'', ''update'')]"
| "needs (EvStatusVR _ _) = [(''storage.maurice.fr'', ''volumeresizes/status'', ''update'')]"
| "needs (EvCreateVR _ _) = [(''storage.maurice.fr'', ''volumeresizes'', ''create'')]"
| "needs (EvDeleteVR _ _ _) = [(''storage.maurice.fr'', ''volumeresizes'', ''delete'')]"
| "needs (EvListVR _ _) = cached ''storage.maurice.fr'' ''volumeresizes'' []"
| "needs (EvGetSTS _ _ _) = cached ''apps'' ''statefulsets'' [''get'']"
| "needs (EvCreateSTS _ _) = [(''apps'', ''statefulsets'', ''create'')]"
| "needs (EvDeleteSTS _ _ _ _) = [(''apps'', ''statefulsets'', ''delete'')]"
| "needs (EvGetPVC _ _ _) = cached '''' ''persistentvolumeclaims'' [''get'']"
| "needs (EvCreatePVC _ _) = [('''', ''persistentvolumeclaims'', ''create'')]"
| "needs (EvDeletePVC _ _ _) = [('''', ''persistentvolumeclaims'', ''delete'')]"
| "needs (EvListPVC _ _ _ _) = cached '''' ''persistentvolumeclaims'' []"
| "needs (EvGetPV _ _) = cached '''' ''persistentvolumes'' [''get'']"
| "needs (EvUpdatePV _ _) = [('''', ''persistentvolumes'', ''update'')]"
| "needs (EvGetPod _ _ _) = cached '''' ''pods'' [''get'']"
| "needs (EvCreatePod _ _) = [('''', ''pods'', ''create'')]"
| "needs (EvDeletePod _ _ _) = [('''', ''pods'', ''delete'')]"
| "needs (EvListPods _ _ _ _) = cached '''' ''pods'' []"
| "needs (EvGetCM _ _ _) = cached '''' ''configmaps'' [''get'']"
| "needs (EvCreateCM _ _) = [('''', ''configmaps'', ''create'')]"
| "needs (EvGetSC _ _) = cached ''storage.k8s.io'' ''storageclasses'' [''get'']"
| "needs (EvListPDB _ _) = cached ''policy'' ''poddisruptionbudgets'' []"
| "needs (EvNow _) = []"
| "needs (EvSleep _) = []"
| "needs (EvWaitOrCancel _ _) = []"
| "needs (EvPrint _) = []"
| "needs (EvPrintErr _) = []"

text \<open>The permissions that some call of \<^verbatim>\<open>Reconcile\<close> needs, on some cluster.\<close>

definition needed :: "permission set" where
  "needed = {q. \<exists>c ns n. \<exists>e \<in> set (trace (Reconcile c ns n) []). q \<in> set (needs e)}"

lemma neededI: "q \<in> set (concat (map needs (trace (Reconcile c ns n) []))) \<Longrightarrow> q \<in> needed"
  unfolding needed_def by auto

text \<open>The permissions that the markers grant and no call needs.\<close>

definition spare :: "permission list" where
  "spare =
     [(''storage.maurice.fr'', ''volumeresizes'', ''create''), (''storage.maurice.fr'', ''volumeresizes'', ''patch''),
      (''storage.maurice.fr'', ''volumeresizes'', ''delete''), (''storage.maurice.fr'', ''volumeresizes/status'', ''get''),
      (''storage.maurice.fr'', ''volumeresizes/status'', ''patch''), (''storage.maurice.fr'', ''volumeresizes/finalizers'', ''update''),
      (''policy'', ''poddisruptionbudgets'', ''get''), ('''', ''configmaps'', ''delete''),
      ('''', ''events'', ''create''), ('''', ''events'', ''patch'')]"

definition exercised :: "permission list" where
  "exercised = filter (\<lambda>q. q \<notin> set spare) (granted rbacMarkers)"

lemma exercised_eq: "exercised =
  cached ''storage.maurice.fr'' ''volumeresizes'' [''get''] @ [(''storage.maurice.fr'', ''volumeresizes'', ''update'')] @
  [(''storage.maurice.fr'', ''volumeresizes/status'', ''update'')] @
  cached ''apps'' ''statefulsets'' [''get''] @ [(''apps'', ''statefulsets'', ''delete'')] @ [(''apps'', ''statefulsets'', ''create'')] @
  cached '''' ''pods'' [''get''] @ [('''', ''pods'', ''delete'')] @ [('''', ''pods'', ''create'')] @
  cached '''' ''persistentvolumeclaims'' [''get''] @
    [('''', ''persistentvolumeclaims'', ''delete'')] @ [('''', ''persistentvolumeclaims'', ''create'')] @
  cached '''' ''persistentvolumes'' [''get''] @ [('''', ''persistentvolumes'', ''update'')] @
  cached ''policy'' ''poddisruptionbudgets'' [] @ cached ''storage.k8s.io'' ''storageclasses'' [''get''] @
  cached '''' ''configmaps'' [''get''] @ [('''', ''configmaps'', ''create'')]"
  by code_simp

lemma first_needs: "set (needs (EvGetVR ns n res)) \<subseteq> set exercised"
  unfolding exercised_eq by auto

lemma handler_needs: "handler_event e \<Longrightarrow> set (needs e) \<subseteq> set exercised"
  unfolding exercised_eq by (cases e) (simp_all add: cached_def)

subsection \<open>Runs that use them\<close>

text \<open>A run that validates, and one for a volume that moves to another storage class and whose old volume is gone.\<close>

definition validatingRun :: history where
  "validatingRun = trace (Reconcile (cluster_client (demoVR (zeroStatus\<lparr>st_phase := PhaseValidating\<rparr>)) demoSTS demoCluster) ''d'' ''r'') []"

definition otherClass :: VolumeResize where
  "otherClass = (demoVR demoSyncing)\<lparr>vr_spec := \<lparr>spec_statefulSetName = ''web'',
     spec_volumes = [\<lparr>vt_name = ''data'', vt_newSize = ''1Gi'', vt_storageClass = Some ''fast''\<rparr>]\<rparr>\<rparr>"

definition otherClassRun :: history where
  "otherClassRun = trace (Reconcile (cluster_client otherClass demoSTS (demoCluster\<lparr>cl_pv := Map.empty\<rparr>)) ''d'' ''r'') []"

lemma validating_calls: "map callOf validatingRun =
  [Call ''GetVR'' ''r'', Call ''GetSTS'' ''web'', Call ''GetPVC'' ''data-web-0'', Call ''ListPDB'' ''d'', Call ''StatusVR'' ''Syncing'']"
  by code_simp

lemma otherClass_calls: "map callOf otherClassRun =
  [Call ''GetVR'' ''r'', Call ''GetPVC'' ''data-web-0'', Call ''GetPVC'' ''data-web-0-new'', Call ''CreatePVC'' ''data-web-0-new'',
   Call ''GetSC'' ''fast'', Call ''GetPV'' ''old'', Call ''StatusVR'' ''Failed'']"
  by code_simp

lemma call_needs:
  "callOf e = Call ''GetVR'' n \<Longrightarrow> needs e = cached ''storage.maurice.fr'' ''volumeresizes'' [''get'']"
  "callOf e = Call ''UpdateVR'' n \<Longrightarrow> needs e = [(''storage.maurice.fr'', ''volumeresizes'', ''update'')]"
  "callOf e = Call ''StatusVR'' n \<Longrightarrow> needs e = [(''storage.maurice.fr'', ''volumeresizes/status'', ''update'')]"
  "callOf e = Call ''GetSTS'' n \<Longrightarrow> needs e = cached ''apps'' ''statefulsets'' [''get'']"
  "callOf e = Call ''DeleteSTS'' n \<Longrightarrow> needs e = [(''apps'', ''statefulsets'', ''delete'')]"
  "callOf e = Call ''CreateSTS'' n \<Longrightarrow> needs e = [(''apps'', ''statefulsets'', ''create'')]"
  "callOf e = Call ''GetPod'' n \<Longrightarrow> needs e = cached '''' ''pods'' [''get'']"
  "callOf e = Call ''DeletePod'' n \<Longrightarrow> needs e = [('''', ''pods'', ''delete'')]"
  "callOf e = Call ''CreatePod'' n \<Longrightarrow> needs e = [('''', ''pods'', ''create'')]"
  "callOf e = Call ''GetPVC'' n \<Longrightarrow> needs e = cached '''' ''persistentvolumeclaims'' [''get'']"
  "callOf e = Call ''DeletePVC'' n \<Longrightarrow> needs e = [('''', ''persistentvolumeclaims'', ''delete'')]"
  "callOf e = Call ''CreatePVC'' n \<Longrightarrow> needs e = [('''', ''persistentvolumeclaims'', ''create'')]"
  "callOf e = Call ''GetPV'' n \<Longrightarrow> needs e = cached '''' ''persistentvolumes'' [''get'']"
  "callOf e = Call ''UpdatePV'' n \<Longrightarrow> needs e = [('''', ''persistentvolumes'', ''update'')]"
  "callOf e = Call ''ListPDB'' n \<Longrightarrow> needs e = cached ''policy'' ''poddisruptionbudgets'' []"
  "callOf e = Call ''GetSC'' n \<Longrightarrow> needs e = cached ''storage.k8s.io'' ''storageclasses'' [''get'']"
  "callOf e = Call ''GetCM'' n \<Longrightarrow> needs e = cached '''' ''configmaps'' [''get'']"
  "callOf e = Call ''CreateCM'' n \<Longrightarrow> needs e = [('''', ''configmaps'', ''create'')]"
  by (cases e; simp)+

text \<open>A kind of call that occurs in one of the runs shows that its permissions are needed.\<close>

definition occurs :: "string \<Rightarrow> bool" where
  "occurs k \<longleftrightarrow> list_ex (\<lambda>x. case x of Call k' n \<Rightarrow> k' = k)
     (map callOf demoRun @ map callOf validatingRun @ map callOf otherClassRun)"

lemma occurring:
  "list_all occurs [''GetVR'', ''UpdateVR'', ''StatusVR'', ''GetSTS'', ''DeleteSTS'', ''CreateSTS'', ''GetPod'', ''DeletePod'', ''CreatePod'',
     ''GetPVC'', ''DeletePVC'', ''CreatePVC'', ''GetPV'', ''UpdatePV'', ''ListPDB'', ''GetSC'', ''GetCM'', ''CreateCM'']"
  unfolding demo_calls validating_calls otherClass_calls occurs_def by simp

lemma occurs_in: "list_ex (\<lambda>x. case x of Call k' n \<Rightarrow> k' = k) (map callOf h) \<longleftrightarrow> (\<exists>e \<in> set h. \<exists>n. callOf e = Call k n)"
  by (induction h) (auto split: call.split)

lemma call_needed:
  assumes "\<And>e n. callOf e = Call k n \<Longrightarrow> needs e = qs" and "occurs k"
  shows "set qs \<subseteq> needed"
proof -
  obtain e c where "e \<in> set (trace (Reconcile c ''d'' ''r'') [])" "needs e = qs"
    using assms unfolding occurs_def list_ex_append occurs_in demoRun_def validatingRun_def otherClassRun_def
    by blast
  then show ?thesis
    unfolding needed_def by blast
qed

lemma exercised_needed: "set exercised \<subseteq> needed"
proof -
  note occ = occurring [unfolded list.pred_inject]
  show ?thesis
    unfolding exercised_eq set_append Un_subset_iff
    by (intro conjI; rule call_needed, erule call_needs, use occ in blast)
qed


end
