(* ===== verification/Test_Utils.thy ===== *)
theory Test_Utils
  imports Terminal "HOL-Library.Sublist"
begin

section \<open>Helpers of the end-to-end tests (test/utils/utils.go)\<close>

text \<open>
  The tests run commands, read their output line by line and edit files. A helper is a state transformer whose state is the
  history of what was asked of the operating system, with the answers; the operating system is a parameter
  that may answer anything. Warnings and the commands shown to the tester are left out, as log lines are.
\<close>

subsection \<open>The operating system\<close>

record exec_command =
  cmd_args :: "string list"
  cmd_dir :: string
  cmd_env :: "string list"

datatype os_event =
    OsGetwd "string \<times> go_error option"
  | OsChdir string "go_error option"
  | OsRun exec_command "string \<times> go_error option"
  | OsReadFile string "go_error + string"
  | OsWriteFile string string "go_error option"

type_synonym os_history = "os_event list"

type_synonym 'a tool = "(os_history, 'a) state"

record os =
  os_getwd :: "os_history \<Rightarrow> string \<times> go_error option"
  os_chdir :: "os_history \<Rightarrow> string \<Rightarrow> go_error option"
  os_environ :: "string list"
  os_lookupEnv :: "string \<Rightarrow> string option"
  os_combinedOutput :: "os_history \<Rightarrow> exec_command \<Rightarrow> string \<times> go_error option"
  os_readFile :: "os_history \<Rightarrow> string \<Rightarrow> go_error + string"
  os_writeFile :: "os_history \<Rightarrow> string \<Rightarrow> string \<Rightarrow> go_error option"

definition give :: "'a \<Rightarrow> 'a tool" where
  "give x = State_Monad.return x"

definition consult :: "(os_history \<Rightarrow> 'r) \<Rightarrow> ('r \<Rightarrow> os_event) \<Rightarrow> 'r tool" where
  "consult f ev = State (\<lambda>h. (f h, h @ [ev (f h)]))"

definition run_tool :: "'a tool \<Rightarrow> os_history \<Rightarrow> 'a \<times> os_history" where
  "run_tool m h = run_state m h"

lemma run_give [simp]: "run_tool (give x) h = (x, h)"
  by (simp add: run_tool_def give_def State_Monad.return_def)

lemma run_consult [simp]: "run_tool (consult f ev) h = (f h, h @ [ev (f h)])"
  by (simp add: run_tool_def consult_def)

lemma run_tool_bind [simp]: "run_tool (State_Monad.bind m f) h = (case run_tool m h of (a, h') \<Rightarrow> run_tool (f a) h')"
  by (simp add: run_tool_def split: prod.split)

definition Getwd :: "os \<Rightarrow> (string \<times> go_error option) tool" where
  "Getwd os = consult (os_getwd os) OsGetwd"

definition Chdir :: "os \<Rightarrow> string \<Rightarrow> go_error option tool" where
  "Chdir os d = consult (\<lambda>h. os_chdir os h d) (OsChdir d)"

definition CombinedOutput :: "os \<Rightarrow> exec_command \<Rightarrow> (string \<times> go_error option) tool" where
  "CombinedOutput os cmd = consult (\<lambda>h. os_combinedOutput os h cmd) (OsRun cmd)"

definition ReadFile :: "os \<Rightarrow> string \<Rightarrow> (go_error + string) tool" where
  "ReadFile os f = consult (\<lambda>h. os_readFile os h f) (OsReadFile f)"

definition WriteFile :: "os \<Rightarrow> string \<Rightarrow> string \<Rightarrow> go_error option tool" where
  "WriteFile os f s = consult (\<lambda>h. os_writeFile os h f s) (OsWriteFile f s)"

lemmas tool_defs = Getwd_def Chdir_def CombinedOutput_def ReadFile_def WriteFile_def

subsection \<open>Of Go's library: strings and bufio\<close>

text \<open>\<^verbatim>\<open>strings.Index\<close>: where the first occurrence begins.\<close>

fun indexOf :: "string \<Rightarrow> string \<Rightarrow> nat option" where
  "indexOf [] t = (if t = [] then Some 0 else None)"
| "indexOf (c # s) t = (if prefix t (c # s) then Some 0 else map_option Suc (indexOf s t))"

definition containsText :: "string \<Rightarrow> string \<Rightarrow> bool" where
  "containsText s t \<longleftrightarrow> indexOf s t \<noteq> None"

text \<open>\<^verbatim>\<open>strings.ReplaceAll(s, old, \<dots>)\<close> with the empty string, for an \<open>old\<close> that is not empty.\<close>

function removeAll :: "string \<Rightarrow> string \<Rightarrow> string" where
  "removeAll old [] = []"
| "removeAll old (c # s) =
     (if old \<noteq> [] \<and> prefix old (c # s) then removeAll old (drop (length old) (c # s)) else c # removeAll old s)"
  by pat_completeness auto

termination
  by (relation "measure (length \<circ> snd)") (auto simp: neq_Nil_conv)

definition trimPrefix :: "string \<Rightarrow> string \<Rightarrow> string" where
  "trimPrefix s p = (if prefix p s then drop (length p) s else s)"

definition dropCR :: "string \<Rightarrow> string" where
  "dropCR s = (if s \<noteq> [] \<and> last s = CHR 0x0D then butlast s else s)"

text \<open>
  The tokens of a \<^verbatim>\<open>bufio.Scanner\<close> on a text: its lines without their ends; nothing follows a last line end. The
  scanner stops at a line that does not fit its buffer of 64 KiB.
\<close>

definition maxScanTokenSize :: int where
  "maxScanTokenSize = 64 * 1024"

definition newline :: "char \<Rightarrow> bool" where
  "newline c \<longleftrightarrow> c = CHR 0x0A"

definition scanLines :: "string \<Rightarrow> string list" where
  "scanLines s =
     (let pieces = splitAt newline s;
          pieces = (if last pieces = [] then butlast pieces else pieces)
      in map dropCR (takeWhile (\<lambda>l. int (length l) < maxScanTokenSize) pieces))"

subsection \<open>utils.go\<close>

definition certmanagerVersion :: string where "certmanagerVersion = ''v1.19.2''"

definition certmanagerURL :: string where
  "certmanagerURL = ''https://github.com/cert-manager/cert-manager/releases/download/'' @ certmanagerVersion @ ''/cert-manager.yaml''"

definition defaultKindBinary :: string where "defaultKindBinary = ''kind''"
definition defaultKindCluster :: string where "defaultKindCluster = ''kind''"

definition GetProjectDir :: "os \<Rightarrow> (string \<times> go_error option) tool" where
  "GetProjectDir os = do {
     (wd, err) \<leftarrow> Getwd os;
     case err of
       Some e \<Rightarrow> give (wd, Some (wrapf ''failed to get current working directory'' e))
     | None \<Rightarrow> give (removeAll ''/test/e2e'' wd, None)
   }"

text \<open>The error of \<^verbatim>\<open>GetProjectDir\<close> is ignored, that of \<^verbatim>\<open>Chdir\<close> only shown.\<close>

definition Run :: "os \<Rightarrow> string list \<Rightarrow> (string \<times> go_error option) tool" where
  "Run os args = do {
     (dir, _) \<leftarrow> GetProjectDir os;
     _ \<leftarrow> Chdir os dir;
     (output, err) \<leftarrow> CombinedOutput os \<lparr>cmd_args = args, cmd_dir = dir, cmd_env = os_environ os @ [''GO111MODULE=on'']\<rparr>;
     case err of
       Some e \<Rightarrow> give (output, Some (wrapf (goQuote (joinWith '' '' args) @ '' failed with error '' @ goQuote output) e))
     | None \<Rightarrow> give (output, None)
   }"

definition kubeSystemLeases :: "string list" where
  "kubeSystemLeases = [''cert-manager-cainjector-leader-election'', ''cert-manager-controller'']"

fun deleteLeases :: "os \<Rightarrow> string list \<Rightarrow> unit tool" where
  "deleteLeases os [] = give ()"
| "deleteLeases os (lease # leases) = do {
     _ \<leftarrow> Run os [''kubectl'', ''delete'', ''lease'', lease, ''-n'', ''kube-system'', ''--ignore-not-found'', ''--force'', ''--grace-period=0''];
     deleteLeases os leases
   }"

definition UninstallCertManager :: "os \<Rightarrow> unit tool" where
  "UninstallCertManager os = do {
     _ \<leftarrow> Run os [''kubectl'', ''delete'', ''-f'', certmanagerURL];
     deleteLeases os kubeSystemLeases
   }"

definition InstallCertManager :: "os \<Rightarrow> go_error option tool" where
  "InstallCertManager os = do {
     (_, err) \<leftarrow> Run os [''kubectl'', ''apply'', ''-f'', certmanagerURL];
     case err of
       Some e \<Rightarrow> give (Some e)
     | None \<Rightarrow> do {
         (_, err) \<leftarrow> Run os [''kubectl'', ''wait'', ''deployment.apps/cert-manager-webhook'', ''--for'', ''condition=Available'',
           ''--namespace'', ''cert-manager'', ''--timeout'', ''5m''];
         give err
       }
   }"

definition GetNonEmptyLines :: "string \<Rightarrow> string list" where
  "GetNonEmptyLines output = filter (\<lambda>element. element \<noteq> []) (splitAt newline output)"

definition certManagerCRDs :: "string list" where
  "certManagerCRDs = [''certificates.cert-manager.io'', ''issuers.cert-manager.io'', ''clusterissuers.cert-manager.io'',
     ''certificaterequests.cert-manager.io'', ''orders.acme.cert-manager.io'', ''challenges.acme.cert-manager.io'']"

definition IsCertManagerCRDsInstalled :: "os \<Rightarrow> bool tool" where
  "IsCertManagerCRDsInstalled os = do {
     (output, err) \<leftarrow> Run os [''kubectl'', ''get'', ''crds''];
     case err of
       Some e \<Rightarrow> give False
     | None \<Rightarrow> give (list_ex (\<lambda>crd. list_ex (\<lambda>line. containsText line crd) (GetNonEmptyLines output)) certManagerCRDs)
   }"

definition LoadImageToKindClusterWithName :: "os \<Rightarrow> string \<Rightarrow> go_error option tool" where
  "LoadImageToKindClusterWithName os name =
     (let cluster = (case os_lookupEnv os ''KIND_CLUSTER'' of None \<Rightarrow> defaultKindCluster | Some v \<Rightarrow> v);
          kindBinary = (case os_lookupEnv os ''KIND'' of None \<Rightarrow> defaultKindBinary | Some v \<Rightarrow> v)
      in do {
        (_, err) \<leftarrow> Run os [kindBinary, ''load'', ''docker-image'', name, ''--name'', cluster];
        give err
      })"

text \<open>Writing to a buffer in memory does not fail, so that those errors of the code are left out.\<close>

definition UncommentCode :: "os \<Rightarrow> string \<Rightarrow> string \<Rightarrow> string \<Rightarrow> go_error option tool" where
  "UncommentCode os filename target prfx = do {
     r \<leftarrow> ReadFile os filename;
     case r of
       Inl err \<Rightarrow> give (Some (wrapf (''failed to read file '' @ goQuote filename) err))
     | Inr content \<Rightarrow>
         (case indexOf content target of
            None \<Rightarrow> give (Some (errorf (''unable to find the code '' @ goQuote target @ '' to be uncomment'')))
          | Some idx \<Rightarrow>
              (case scanLines target of
                 [] \<Rightarrow> give None
               | l # ls \<Rightarrow> do {
                   w \<leftarrow> WriteFile os filename (take idx content @ joinWith nl (map (\<lambda>l. trimPrefix l prfx) (l # ls)) @
                          drop (idx + length target) content);
                   case w of
                     Some err \<Rightarrow> give (Some (wrapf (''failed to write file '' @ goQuote filename) err))
                   | None \<Rightarrow> give None
                 }))
   }"

subsection \<open>What the helpers do\<close>

lemma splitAt_nonempty: "splitAt p s \<noteq> []"
  by (induction s) (auto split: list.split)

lemma splitAt_line: "\<not> list_ex p l \<Longrightarrow> splitAt p (l @ s) = (case splitAt p s of [] \<Rightarrow> [l] | x # xs \<Rightarrow> (l @ x) # xs)"
proof (induction l)
  case Nil
  then show ?case using splitAt_nonempty [of p s] by (simp split: list.split)
next
  case (Cons c l)
  then show ?case by (auto split: list.splits)
qed

lemma newline_here: "newline (CHR 0x0A)"
  by (simp add: newline_def)

lemma splitAt_join: "ls \<noteq> [] \<Longrightarrow> list_all (\<lambda>l. \<not> list_ex newline l) ls \<Longrightarrow> splitAt newline (joinWith nl ls) = ls"
proof (induction ls rule: list_nonempty_induct)
  case (single x)
  then show ?case
    using splitAt_line [of newline x "[]"] by simp
next
  case (cons x xs)
  then obtain y ys where "xs = y # ys" by (cases xs) auto
  then have "joinWith nl (x # xs) = x @ nl @ joinWith nl xs" by simp
  moreover have "splitAt newline (nl @ joinWith nl xs) = [] # xs"
    using cons by (simp add: nl_def newline_here)
  ultimately show ?case
    using cons.prems splitAt_line [of newline x "nl @ joinWith nl xs"] by simp
qed

text \<open>A line that the scanner gives back as it is.\<close>

definition scannable :: "string \<Rightarrow> bool" where
  "scannable l \<longleftrightarrow> \<not> list_ex newline l \<and> int (length l) < maxScanTokenSize \<and> (l \<noteq> [] \<longrightarrow> last l \<noteq> CHR 0x0D)"

lemma scanLines_join:
  assumes "ls \<noteq> []" and "list_all scannable ls" and "last ls \<noteq> []"
  shows "scanLines (joinWith nl ls) = ls"
proof -
  have "splitAt newline (joinWith nl ls) = ls"
    by (rule splitAt_join [OF assms(1)]) (use assms(2) in \<open>auto simp: scannable_def list_all_iff\<close>)
  moreover have "takeWhile (\<lambda>l. int (length l) < maxScanTokenSize) ls = ls" and "map dropCR ls = ls"
    using assms(2) by (auto simp: takeWhile_eq_all_conv list_all_iff scannable_def dropCR_def intro!: map_idI)
  ultimately show ?thesis
    using assms(3) by (simp only: scanLines_def Let_def if_False)
qed

text \<open>
  C37: \<open>UncommentCode\<close> undoes commenting. When the file holds some lines, each commented out by the prefix, at the first place
  where these commented lines are found, the one write puts the lines there without the prefix and keeps what is
  before and after; the error returned is that of the write. The lines must be short enough for the scanner, and none may end in a
  carriage return.
\<close>

theorem uncomment_restores:
  assumes "os_readFile os h f = Inr (pre @ target @ post)" and "indexOf (pre @ target @ post) target = Some (length pre)"
    and "target = joinWith nl (map ((@) p) ls)" and "ls \<noteq> []" and "p \<noteq> []" and "list_all (\<lambda>l. scannable (p @ l)) ls"
  shows "\<exists>w. run_tool (UncommentCode os f target p) h =
    (map_option (wrapf (''failed to write file '' @ goQuote f)) w,
     h @ [OsReadFile f (Inr (pre @ target @ post)), OsWriteFile f (pre @ joinWith nl ls @ post) w])"
proof -
  have "scanLines target = map ((@) p) ls"
    unfolding assms(3) by (rule scanLines_join) (use assms(4-6) in \<open>auto simp: list_all_iff last_map\<close>)
  moreover obtain l rest where "ls = l # rest"
    using assms(4) by (cases ls) auto
  moreover have "map (\<lambda>l. trimPrefix l p) (map ((@) p) ls) = ls"
    by (simp add: trimPrefix_def comp_def)
  ultimately show ?thesis
    using assms(1,2)
    by (intro exI [of _ "os_writeFile os (h @ [OsReadFile f (Inr (pre @ target @ post))]) f (pre @ joinWith nl ls @ post)"])
      (simp add: UncommentCode_def tool_defs split: option.split)
qed

text \<open>A file that can be read and written.\<close>

definition plainOS :: "string \<Rightarrow> os" where
  "plainOS content = \<lparr>os_getwd = (\<lambda>h. (''/repo/test/e2e'', None)), os_chdir = (\<lambda>h d. None), os_environ = [],
     os_lookupEnv = (\<lambda>v. None), os_combinedOutput = (\<lambda>h cmd. ('''', None)),
     os_readFile = (\<lambda>h f. Inr content), os_writeFile = (\<lambda>h f s. None)\<rparr>"

theorem uncomment_restores_witness:
  "\<exists>w. run_tool (UncommentCode (plainOS (''a'' @ nl @ ''#b'' @ nl @ ''#'' @ nl @ ''#c'' @ nl)) ''f'' (''#b'' @ nl @ ''#'' @ nl @ ''#c'') ''#'') [] =
    (map_option (wrapf (''failed to write file '' @ goQuote ''f'')) w,
     [] @ [OsReadFile ''f'' (Inr ((''a'' @ nl) @ (''#b'' @ nl @ ''#'' @ nl @ ''#c'') @ nl)),
      OsWriteFile ''f'' ((''a'' @ nl) @ joinWith nl [''b'', '''', ''c''] @ nl) w])"
proof (rule uncomment_restores)
  show "indexOf ((''a'' @ nl) @ (''#b'' @ nl @ ''#'' @ nl @ ''#c'') @ nl) (''#b'' @ nl @ ''#'' @ nl @ ''#c'') = Some (length (''a'' @ nl))"
    by code_simp
  show "list_all (\<lambda>l. scannable (''#'' @ l)) [''b'', '''', ''c'']"
    by code_simp
qed (simp_all add: plainOS_def)

text \<open>
  The scanner does not tell whether the last line is ended: a target that ends in a line end loses it, and the line after
  it is joined to the last one.
\<close>

lemma line_end_lost:
  "snd (run_tool (UncommentCode (plainOS (''#a'' @ nl @ ''b'')) ''f'' (''#a'' @ nl) ''#'') []) =
     [OsReadFile ''f'' (Inr (''#a'' @ nl @ ''b'')), OsWriteFile ''f'' ''ab'' None]"
  by code_simp

text \<open>A command is run in the directory of the project, and its output is returned even when it fails.\<close>

lemma Run_trace:
  assumes "os_getwd os h = (wd, None)"
  shows "\<exists>ch out. snd (run_tool (Run os args) h) = h @ [OsGetwd (wd, None), OsChdir (removeAll ''/test/e2e'' wd) ch,
      OsRun \<lparr>cmd_args = args, cmd_dir = removeAll ''/test/e2e'' wd, cmd_env = os_environ os @ [''GO111MODULE=on'']\<rparr> out] \<and>
    fst (fst (run_tool (Run os args) h)) = fst out"
  using assms by (auto simp: Run_def GetProjectDir_def tool_defs split: prod.split option.split)

end
