(* ===== verification/Spec2Isabelle.thy ===== *)
theory Spec2Isabelle
  imports Operations Ages Schema Startup Replacement Completion Migrate_Script Deep_Copy Command_Line
    Rolling Leftovers Permissions Test_Utils
begin

text \<open>
  This development models and verifies the core of \<^emph>\<open>migcontroller\<close>, a Kubernetes operator that
  shrinks the volumes of a StatefulSet, and its command line tool \<^verbatim>\<open>volmig\<close>. It is about the Go
  code under \<^verbatim>\<open>src/internal/controller\<close> and \<^verbatim>\<open>src/cmd\<close> and the resource types under
  \<^verbatim>\<open>src/api/v1alpha1\<close>.

  \<^bold>\<open>The program.\<close> A user creates a VolumeResize that names a StatefulSet, some of its volumes and
  their new, smaller sizes. The operator is called (\<^verbatim>\<open>Reconcile\<close>) whenever the object changes
  or a call asked for it. It validates the request, then goes through the replicas, and for each
  through the volumes: a temporary claim of the new size is created, the old volume is retained, the
  StatefulSet is backed up and deleted with its pods left alone, the pod of the replica is stopped, a
  migrator pod copies the data, the claim is replaced by one on the new volume, and the StatefulSet is
  created again. All state is in the cluster: the phase, the position and one entry per volume and
  replica in the status of the object, an annotation and a ConfigMap for the deleted StatefulSet.
  \<^verbatim>\<open>volmig\<close> creates and deletes the objects and shows how far they are; the two programs meet
  only in the API server.

  \<^bold>\<open>The model.\<close> The API server, the other controllers, the clock and the library functions the code
  calls (JSON, quantities, label selectors, finalizer lists) are one parameter, the record \<open>client\<close>
  of theory Client: for each call, a function from the history of the run (all earlier calls with
  their responses) to the response. A theorem over all clients is a theorem about every cluster,
  every concurrent actor and every failure. A program is a state monad over histories; a run is
  judged by the history it leaves.

  \<^bold>\<open>Theories and the code they model.\<close>
  \<^item> Prelude: Go's integers, decimal and quoted text, maps with nil, errors with wrapping, durations.
  \<^item> Api: \<^verbatim>\<open>volumeresize_types.go\<close> as records, \<^verbatim>\<open>constants.go\<close>.
  \<^item> Client: the objects of \<^verbatim>\<open>k8s.io/api\<close> reduced to the fields used, events, calls.
  \<^item> Trace_Logic, Naming, Polling, Idempotent: reasoning about runs; the interfaces, as locales, that
    several components share (names per replica, polling against a deadline, look before create),
    each interpreted on the code's functions by the component that declares them.
  \<^item> Pvc: \<^verbatim>\<open>pvc.go\<close>. Statefulset: \<^verbatim>\<open>statefulset.go\<close>. Migrator: \<^verbatim>\<open>migrator.go\<close>.
    Validation: \<^verbatim>\<open>validation.go\<close>. One definition per Go function, by its name; a long function is
    cut where its comments cut it, the pieces calling each other in the order of the code.
  \<^item> Controller: \<^verbatim>\<open>volumeresize_controller.go\<close>, \<open>Reconcile\<close> and every handler. Errors are
    values, a panic is an outcome.
  \<^item> Swap_Protocol: which past justifies which change (\<open>swap_policy\<close>), and that \<open>handleSyncing\<close>
    complies with it. Swap_Result: what has happened when the claims were swapped. Schedule: the order
    of volumes and replicas as a list, and that the code follows it. Lifecycle: the abstract machine a VolumeResize goes through, and that every accepted status
    write is a step of it. Operator: the same for whole calls and for any number of them. Replacement: that
    what the status reports was done, in one of the calls. Rolling: pods are stopped one at a time, and when a
    position may be left.
  \<^item> Simulation: one client in full, on which hypotheses are seen to hold and a migration is run.
    Operations: properties of single operations, and runs that go wrong. Leftovers: a run that finds the
    backup of an earlier one.
  \<^item> Permissions: the RBAC markers of \<^verbatim>\<open>Reconcile\<close>, and that they are what its calls need.
  \<^item> Schema: the phases the resource definition allows (the enumerations in
    \<^verbatim>\<open>volumeresize_types.go\<close>), and that the operator writes no other.
  \<^item> Progress: what the operator needs of the cluster to get on (\<open>cooperates\<close>), and that it then does.
    Completion: the same from the creation of an object to its end.
  \<^item> Deep_Copy: \<^verbatim>\<open>zz_generated.deepcopy.go\<close>, the one place where objects are modelled as structs with
    pointers in a store.
  \<^item> Migrate_Script: \<^verbatim>\<open>build/migrator/migrate.sh\<close>, the script in the migrator pod.
  \<^item> Registration: \<^verbatim>\<open>groupversion_info.go\<close> and the schemes of the two programs.
    Startup: \<^verbatim>\<open>cmd/main.go\<close>, from the parsed flags to the running manager.
  \<^item> Terminal, Floating: what the command line tool uses of Go's library to print: the width of
    UTF-8 text, \<^verbatim>\<open>text/tabwriter\<close> with the one setting used, \<^verbatim>\<open>time.Duration\<close> with its text, its
    rounding and its saturation, the rounding of 64-bit floating point numbers.
  \<^item> Volmig: \<^verbatim>\<open>root.go\<close>, \<^verbatim>\<open>delete.go\<close>, \<^verbatim>\<open>version.go\<close>, \<^verbatim>\<open>constants.go\<close> under
    \<^verbatim>\<open>cmd/volmig/cmd\<close>. Listing: \<^verbatim>\<open>list.go\<close>, \<^verbatim>\<open>describe.go\<close>. Watch: \<^verbatim>\<open>watch.go\<close>,
    \<^verbatim>\<open>status.go\<close>, \<^verbatim>\<open>create.go\<close>. A command is a function from the parsed flags to an exit status;
    what it prints is part of its history.
  \<^item> Command_Line: the declarations of commands and flags in \<^verbatim>\<open>cmd/volmig/cmd\<close>, and
    \<^verbatim>\<open>cmd/volmig/main.go\<close>.
  \<^item> Test_Utils: \<^verbatim>\<open>test/utils/utils.go\<close>, the helpers of the end-to-end tests, over an operating system that is a parameter.
  \<^item> Commands, Ages: properties of the commands. This theory: the properties that span components.

  \<^bold>\<open>What is shown.\<close> Safety of the order: no claim and no StatefulSet is deleted, no pod
  or claim created, no pod stopped and no volume touched before what justifies it is in the history, and no call is made
  that the role of the operator forbids. Refinement:
  the status follows the life cycle, so that Completed means that every entry is completed, a syncing
  object is at one position of the schedule, dead phases stay dead. Progress: calls that ask to be
  called at once cannot do so for ever, the waits end, a new object is completed on every cluster on which
  no call fails and no wait is for ever, as one concrete cluster shows, and a watch ends exactly when the
  migration does. Function: each operation, on success and on error.
  Composition: what \<^verbatim>\<open>create\<close> submits is an object the life cycle starts from, so that the flags
  of the user determine what is completed in the end; no command line makes \<^verbatim>\<open>volmig\<close> do more than the
  command it names. Memory: a copy of an object shares nothing with it. And where the code does not do what it should, a
  run that shows it: the claims are swapped without a copy, two replicas are down at once, another StatefulSet than the deleted one
  comes back, nothing is rolled back.

  \<^bold>\<open>Hypotheses on the client.\<close> \<open>keeps_object\<close>: the response to an update is the same object (name,
  namespace, spec). \<open>serves\<close>: in addition, an update of the status answers with the status that was
  sent, as far as phase, position and entries go, and one of the object leaves the stored status
  alone, as the API server does for a resource with a status subresource. \<open>positive_replicas\<close>: a StatefulSet that is read asks for at least one
  replica; what happens for none is proved too. \<open>plannable\<close>: the spec lists at least one volume
  (the CRD requires it) and none twice (it does not; the failure is proved). \<open>enforces_schema\<close>: an
  object that the API server answers an accepted write with conforms to the schema. \<open>cooperates\<close>, a
  policy on the history of one call: writes succeed, nothing vanishes that was there, the migrator does not
  fail and less than a minute passes between two steps; how long anything takes is left open. \<open>live_call\<close>, one call on an
  object that is read and not being deleted: while the object syncs the cluster cooperates, before that its writes are accepted
  and its checks end with an answer. \<open>productive\<close>: the call finds the finalizer and does not merely wait. Of the libraries:
  \<open>obeys_tables\<close>, cobra runs a command only with the flags and arguments the tables allow; \<open>builds\<close>, a scheme
  that was built knows the types that were registered.

  \<^bold>\<open>Bounds.\<close> The loops over the clock take a count of rounds, \<open>pollRounds\<close>, so that they are
  structural recursions; theory Polling proves that the count never decides, as every round sleeps.
  The loops that wait for a claim to go have the bound of 60 rounds of the code, \<open>deletionRounds\<close>.
  Replica counters are 32-bit words, compared signed. The loop of \<^verbatim>\<open>volmig watch\<close> has no bound in
  the code: it is a partial function, and when it ends is a theorem. A duration is an integer in the
  range of 64 bits; the age of an object is computed with rational numbers rounded to 53 bits.

  \<^bold>\<open>Not modelled.\<close> Log lines; the parsing of command lines, by cobra (of which is asked that it obeys the tables) and
  the flag package; the logger's flags; the deep copies of the library types (\<open>sound_library\<close> says what is
  asked of them), and that a call reads its object from a cache; rclone, of which
  the exit status is a parameter, and the step from the exit status of the script to the phase of its pod;
  what the test helpers show to the tester; the tests themselves and deployment files. A \<^verbatim>\<open>resource.Quantity\<close> is the text it has on the wire and a timestamp a number of
  nanoseconds since 1970, formatted by a parameter. Writing to the terminal does not fail. The text given
  to the tabwriter has no escape byte (0xFF, never part of UTF-8).
\<close>

section \<open>Safety of the swap\<close>



text \<open>
  C2: The StatefulSet is deleted only with the orphan policy, so that its pods keep running, only the
  one that was read under the name in the spec, and only once there is a backup ConfigMap: its creation with exactly
  this StatefulSet was accepted, or one was found under its name (what that one holds is not looked at, see theory Leftovers).
\<close>

theorem statefulset_deleted_after_backup:
  assumes "keeps_object c" and "c_getVR c [] ns n = Inr vr" and "om_deletionTimestamp (vr_meta vr) = None"
    and "st_currentVolume (vr_status vr) \<in> vt_name ` set (vrVolumes vr)"
    and "trace (Reconcile c ns n) [] = pre @ EvDeleteSTS ns' n' policy res # post"
  shows "policy = DeletePropagationOrphan \<and> orphanable c vr ns' n' pre"
  using Reconcile_justified [OF assms] by (auto simp: quiet_def)

theorem statefulset_deleted_after_backup_witness:
  "\<exists>ns res. demoRun ! 9 = EvDeleteSTS ns ''web'' DeletePropagationOrphan res \<and>
     orphanable demoClient (demoVR demoSyncing) ns ''web'' (take 9 demoRun)"
proof -
  have at: "callOf (demoRun ! 9) = Call ''DeleteSTS'' ''web''"
    "trace (Reconcile demoClient ''d'' ''r'') [] = take 9 demoRun @ demoRun ! 9 # drop (Suc 9) demoRun"
    using demo_run_at [of 9] by (simp_all add: demo_calls)
  then obtain ns policy res where e: "demoRun ! 9 = EvDeleteSTS ns ''web'' policy res"
    using callOf_writes(3) by blast
  then show ?thesis
    using statefulset_deleted_after_backup [OF demo_live at(2) [unfolded e]] by auto
qed

text \<open>
  C3: The migrator pod is created only when the application's pod was seen to be gone, so that no one
  writes to the source, and with the old volume retained; it mounts the original claim of the volume
  and replica in progress as its source and their temporary claim as its destination.
\<close>

theorem migrator_created_when_quiet:
  assumes "keeps_object c" and "c_getVR c [] ns n = Inr vr" and "om_deletionTimestamp (vr_meta vr) = None"
    and "st_currentVolume (vr_status vr) \<in> vt_name ` set (vrVolumes vr)"
    and "trace (Reconcile c ns n) [] = pre @ EvCreatePod p res # post"
  shows "\<exists>r. st_currentReplica (vr_status vr) = Some r \<and> pod_gone vr r pre \<and>
    old_volume_safe vr r (st_currentVolume (vr_status vr)) pre \<and> om_namespace (pod_meta p) = vrNamespace vr \<and>
    pod_volumes p =
      [\<lparr>pvol_name = ''source'', pvol_claimName = getOriginalPVCName (st_currentVolume (vr_status vr)) (vrSTS vr) r\<rparr>,
       \<lparr>pvol_name = ''dest'', pvol_claimName = getTempPVCName (st_currentVolume (vr_status vr)) (vrSTS vr) r\<rparr>]"
  using Reconcile_justified [OF assms] by (auto simp: quiet_def buildMigratorPod_def Let_def)

theorem migrator_created_when_quiet_witness:
  "\<exists>p res. demoRun ! 17 = EvCreatePod p res \<and> pod_gone (demoVR demoSyncing) 0 (take 17 demoRun)"
proof -
  have at: "callOf (demoRun ! 17) = Call ''CreatePod'' ''r-migrator-0-data''"
    "trace (Reconcile demoClient ''d'' ''r'') [] = take 17 demoRun @ demoRun ! 17 # drop (Suc 17) demoRun"
    using demo_run_at [of 17] by (simp_all add: demo_calls)
  then obtain p res where e: "demoRun ! 17 = EvCreatePod p res"
    using callOf_writes(5) by blast
  then show ?thesis
    using migrator_created_when_quiet [OF demo_live at(2) [unfolded e]] demo_client(6) by auto
qed

text \<open>
  C16: The StatefulSet is created again only after the API server has accepted the status that marks
  the volume as completed, and as what the backup ConfigMap holds: with the new templates, and
  without the fields the server sets.
\<close>

theorem statefulset_restored_from_backup:
  assumes "keeps_object c" and "c_getVR c [] ns n = Inr vr" and "om_deletionTimestamp (vr_meta vr) = None"
    and "st_currentVolume (vr_status vr) \<in> vt_name ` set (vrVolumes vr)"
    and "trace (Reconcile c ns n) [] = pre @ EvCreateSTS s res # post"
  shows "\<exists>r. st_currentReplica (vr_status vr) = Some r \<and>
    persisted r (st_currentVolume (vr_status vr)) pre \<and> restorable c vr s pre"
  using Reconcile_justified [OF assms] by (auto simp: quiet_def)

theorem statefulset_restored_from_backup_witness:
  "\<exists>s res. demoRun ! 35 = EvCreateSTS s res \<and> persisted 0 ''data'' (take 35 demoRun) \<and>
     restorable demoClient (demoVR demoSyncing) s (take 35 demoRun)"
proof -
  have at: "callOf (demoRun ! 35) = Call ''CreateSTS'' ''web''"
    "trace (Reconcile demoClient ''d'' ''r'') [] = take 35 demoRun @ demoRun ! 35 # drop (Suc 35) demoRun"
    using demo_run_at [of 35] by (simp_all add: demo_calls)
  then obtain s res where e: "demoRun ! 35 = EvCreateSTS s res"
    using callOf_writes(4) by blast
  then show ?thesis
    using statefulset_restored_from_backup [OF demo_live at(2) [unfolded e]] demo_client(5,6) by auto
qed





section \<open>The life of the resource\<close>

text \<open>
  C6: The status refines the abstract machine. From an object that stands for a state, every status
  write the API server accepts in a run is one step of the machine or none: it finds a stored
  object that stands for a state the machine has come to, and leaves one that stands for the next. The step
  that marks the volume in progress as moved follows immediately on the replacement of its claim.
\<close>

theorem status_writes_refine:
  assumes "serves c" and "positive_replicas c [EvGetVR ns n (Inr vr)]" and "c_getVR c [] ns n = Inr vr"
    and "plannable (vrVolumes vr)" and "represents (vrVolumes vr) a (vr_status vr)"
    and "trace (Reconcile c ns n) [] = pre @ EvStatusVR v (Inr w) # post"
  shows "\<exists>u b d. latest pre = Some u \<and> represents (vrVolumes vr) b (vr_status u) \<and>
    life_path (length (vrVolumes vr)) a b \<and> (life_step (length (vrVolumes vr)))\<^sup>=\<^sup>= b d \<and>
    represents (vrVolumes vr) d (vr_status w) \<and>
    (\<forall>m k. b = Moving m k False \<longrightarrow> d = Moving m k True \<longrightarrow> claim_swapped (vrVolumes vr) k u pre)"
proof -
  obtain u b d where u: "latest pre = Some u" "represents (vrVolumes vr) b (vr_status u)" "life_path (length (vrVolumes vr)) a b"
    "(life_step (length (vrVolumes vr)))\<^sup>=\<^sup>= b d" "represents (vrVolumes vr) d (vr_status w)" "earned (vrVolumes vr) u pre b d"
    by (rule status_write_step [OF assms])
  have "\<forall>m k. b = Moving m k False \<longrightarrow> d = Moving m k True \<longrightarrow> claim_swapped (vrVolumes vr) k u pre"
    using u(6) unfolding earned_def by blast
  with u(1-5) show ?thesis by blast
qed

theorem status_writes_refine_witness:
  "\<exists>v w u b d. demoRun ! 33 = EvStatusVR v (Inr w) \<and> latest (take 33 demoRun) = Some u \<and>
     represents (vrVolumes (demoVR demoSyncing)) b (vr_status u) \<and> (life_step 1)\<^sup>=\<^sup>= b d \<and>
     represents (vrVolumes (demoVR demoSyncing)) d (vr_status w)"
proof -
  have at: "callOf (demoRun ! 33) = Call ''StatusVR'' ''Syncing''"
    "trace (Reconcile demoClient ''d'' ''r'') [] = take 33 demoRun @ demoRun ! 33 # drop (Suc 33) demoRun"
    using demo_run_at [of 33] by (simp_all add: demo_calls)
  have "case demoRun ! 33 of EvStatusVR v (Inr w) \<Rightarrow> True | _ \<Rightarrow> False"
    by code_simp
  then obtain v w where e: "demoRun ! 33 = EvStatusVR v (Inr w)"
    by (auto split: event.splits sum.splits)
  show ?thesis
    using status_writes_refine [OF demo_client(1) demo_positive demo_client(3) demo_plannable demo_represents
        at(2) [unfolded e]] e by (auto simp: demo_spec)
qed



text \<open>
  C8: While the phase is Syncing, the current replica and volume are a position of the schedule;
  everything before it is completed and nothing after it is.
\<close>

theorem syncing_is_at_a_position:
  assumes "new_resize vr" and "reaches ns n vr vr'" and "vrPhase vr' = PhaseSyncing"
  shows "\<exists>replicas k r. k < replicas * length (vrVolumes vr) \<and>
    map key (st_volumeStatuses (vr_status vr')) = schedule (vrVolumes vr) replicas \<and>
    st_currentReplica (vr_status vr') = Some r \<and>
    (r, st_currentVolume (vr_status vr')) = schedule (vrVolumes vr) replicas ! k \<and>
    list_all (\<lambda>vs. vs_phase vs = VolumeStatusCompleted) (take k (st_volumeStatuses (vr_status vr'))) \<and>
    list_all (\<lambda>vs. vs_phase vs \<noteq> VolumeStatusCompleted) (drop (Suc k) (st_volumeStatuses (vr_status vr')))"
proof -
  obtain b where "represents (vrVolumes vr) b (vr_status vr')"
    using reachable_life [OF assms(2,1)] by metis
  with assms(3) obtain replicas k d where rep: "represents (vrVolumes vr) (Moving replicas k d) (vr_status vr')"
    by (cases b) (auto simp: phase_defs)
  have len: "length (st_volumeStatuses (vr_status vr')) = replicas * length (vrVolumes vr)"
    using rep by (auto dest: arg_cong [of _ _ length])
  have "k < replicas * length (vrVolumes vr)" using rep by simp
  moreover have "list_all (\<lambda>vs. vs_phase vs = VolumeStatusCompleted) (take k (st_volumeStatuses (vr_status vr')))"
    using rep len by (auto simp: list_all_length entryDone_def)
  moreover have "list_all (\<lambda>vs. vs_phase vs \<noteq> VolumeStatusCompleted) (drop (Suc k) (st_volumeStatuses (vr_status vr')))"
    using rep len by (auto simp: list_all_length entryDone_def)
  ultimately show ?thesis
    using rep by (intro exI [of _ replicas] exI [of _ k] exI [of _ "fst (keyAt (vrVolumes vr) k)"]) auto
qed

theorem syncing_is_at_a_position_witness:
  "\<exists>replicas k r. k < replicas * 1 \<and>
    map key (st_volumeStatuses (vr_status (fst (demoLife 2)))) = schedule (vrVolumes (demoVR zeroStatus)) replicas \<and>
    st_currentReplica (vr_status (fst (demoLife 2))) = Some r \<and>
    (r, st_currentVolume (vr_status (fst (demoLife 2)))) = schedule (vrVolumes (demoVR zeroStatus)) replicas ! k"
  using syncing_is_at_a_position [OF demo_new demo_reaches(2) demo_phases(2)] unfolding demo_spec by blast

text \<open>
  The phase Replacing is never reached, nor any phase outside the life cycle, and the spec the
  migration works from never changes: \<open>handleReplacing\<close> is dead code for objects that begin new.
\<close>

theorem replacing_unreachable:
  assumes "new_resize vr" and "reaches ns n vr vr'"
  shows "vrPhase vr' \<noteq> PhaseReplacing \<and> vr_spec vr' = vr_spec vr \<and>
    vrPhase vr' \<in> {'''', PhasePending, PhaseValidating, PhaseSyncing, PhaseCompleted, PhaseFailed}"
proof -
  obtain b where "represents (vrVolumes vr) b (vr_status vr')" "vr_spec vr' = vr_spec vr"
    using reachable_life [OF assms(2,1)] by metis
  then show ?thesis
    by (cases b) (auto simp: phase_defs)
qed

theorem replacing_unreachable_witness: "vrPhase (fst (demoLife 2)) \<noteq> PhaseReplacing"
  using replacing_unreachable [OF demo_new demo_reaches(2)] by blast

section \<open>Progress\<close>

text \<open>A call that asks to be called again at once, from an object that is live and has its finalizer.\<close>

definition requeued :: "string \<Rightarrow> string \<Rightarrow> VolumeResize \<Rightarrow> VolumeResize \<Rightarrow> bool" where
  "requeued ns n vr w \<longleftrightarrow> (\<exists>c a. serves c \<and> positive_replicas c [EvGetVR ns n (Inr vr)] \<and> c_getVR c [] ns n = Inr vr \<and>
     plannable (vrVolumes vr) \<and> represents (vrVolumes vr) a (vr_status vr) \<and>
     om_deletionTimestamp (vr_meta vr) = None \<and> l_containsFinalizer c (om_finalizers (vr_meta vr)) FinalizerName \<and>
     result (Reconcile c ns n) [] = requeue \<and> latest (trace (Reconcile c ns n) []) = Some w)"

lemma requeued_advances:
  assumes "requeued ns n vr w"
  obtains a b where "represents (vrVolumes vr) a (vr_status vr)" "represents (vrVolumes vr) b (vr_status w)"
    "life_advance (length (vrVolumes vr)) a b" "plannable (vrVolumes vr)" "vr_spec w = vr_spec vr"
proof -
  obtain c a where c: "serves c" "positive_replicas c [EvGetVR ns n (Inr vr)]" "c_getVR c [] ns n = Inr vr"
    and p: "plannable (vrVolumes vr)" and a: "represents (vrVolumes vr) a (vr_status vr)"
    and alive: "om_deletionTimestamp (vr_meta vr) = None" "l_containsFinalizer c (om_finalizers (vr_meta vr)) FinalizerName"
    and out: "result (Reconcile c ns n) [] = requeue" "latest (trace (Reconcile c ns n) []) = Some w"
    using assms by (auto simp: requeued_def)
  have "settled (vrVolumes vr) a (result (Reconcile c ns n) []) (trace (Reconcile c ns n) [])"
    by (rule Reconcile_compliant(3) [OF c p a alive])
  then obtain b where b: "represents (vrVolumes vr) b (vr_status w)" "life_advance (length (vrVolumes vr)) a b"
    using out by (auto simp: settled_def)
  have "trace (Reconcile c ns n) [] \<noteq> []"
    using Reconcile_trace [of c ns n] by auto
  with Reconcile_point [OF c p a, of _ "[]"] out(2) have "vr_spec w = vr_spec vr"
    by (fastforce simp: same_object_def)
  with a b p show ?thesis by (rule that)
qed


text \<open>
  C22: From an object that stands for a state of the life cycle the reconciler does not panic with a
  nil pointer or an index out of range, whatever the cluster answers. The one panic left is the
  write into a claim template of the backup that has no request map.
\<close>

theorem only_nil_map_panics:
  assumes "serves c" and "positive_replicas c [EvGetVR ns n (Inr vr)]" and "c_getVR c [] ns n = Inr vr"
    and "plannable (vrVolumes vr)" and "represents (vrVolumes vr) a (vr_status vr)"
  shows "result (Reconcile c ns n) [] = nilMapPanic \<or> (\<exists>r e. result (Reconcile c ns n) [] = Returned r e)"
  using Reconcile_compliant(2) [OF assms] by (cases "result (Reconcile c ns n) []") auto

theorem only_nil_map_panics_witness:
  "result (Reconcile demoClient ''d'' ''r'') [] = nilMapPanic \<or>
   (\<exists>r e. result (Reconcile demoClient ''d'' ''r'') [] = Returned r e)"
  by (rule only_nil_map_panics [OF demo_client(1) demo_positive demo_client(3) demo_plannable demo_represents])

section \<open>Calls that must do nothing, or one thing\<close>

text \<open>
  In the phases Completed and Failed, and in any phase the operator does not know, a call
  reads the object and ends: no write, no requeue, with any client.
\<close>

theorem terminal_phases_do_nothing:
  assumes "c_getVR c [] ns n = Inr vr" and "om_deletionTimestamp (vr_meta vr) = None"
    and "l_containsFinalizer c (om_finalizers (vr_meta vr)) FinalizerName"
    and "vrPhase vr \<notin> {'''', PhasePending, PhaseValidating, PhaseSyncing, PhaseReplacing}"
  shows "run_state (Reconcile c ns n) [] = (finished, [EvGetVR ns n (Inr vr)])"
  using assms by (simp add: Reconcile_def GetVR_def perform_def dispatch_def Let_def ret_def)

theorem terminal_phases_do_nothing_witness:
  "run_state (Reconcile (cluster_client (demoVR (zeroStatus\<lparr>st_phase := PhaseFailed\<rparr>)) demoSTS demoCluster) ''d'' ''r'') [] =
     (finished, [EvGetVR ''d'' ''r'' (Inr (demoVR (zeroStatus\<lparr>st_phase := PhaseFailed\<rparr>)))])"
  by (rule terminal_phases_do_nothing)
    (simp_all add: cluster_client_def storedVR_def demoVR_def zeroMeta_def phase_defs)

text \<open>
  A live object without the finalizer gets it before anything else is done for it: the call
  makes this one update, with nothing else changed in the object, and asks to be called again.
\<close>

theorem finalizer_first:
  assumes "c_getVR c [] ns n = Inr vr" and "om_deletionTimestamp (vr_meta vr) = None"
    and "\<not> l_containsFinalizer c (om_finalizers (vr_meta vr)) FinalizerName"
  shows "\<exists>res. run_state (Reconcile c ns n) [] =
    (case res of Inl err \<Rightarrow> failWith err | Inr _ \<Rightarrow> requeue,
     [EvGetVR ns n (Inr vr),
      EvUpdateVR (vr\<lparr>vr_meta := (vr_meta vr)\<lparr>om_finalizers := l_addFinalizer c (om_finalizers (vr_meta vr)) FinalizerName\<rparr>\<rparr>) res])"
  using assms by (auto simp: Reconcile_def GetVR_def UpdateVR_def perform_def ret_def withMeta_def split: sum.split)

definition bareVR :: VolumeResize where
  "bareVR = (demoVR zeroStatus)\<lparr>vr_meta := zeroMeta\<lparr>om_name := ''r'', om_namespace := ''d''\<rparr>\<rparr>"

theorem finalizer_first_witness:
  "\<exists>res. trace (Reconcile (cluster_client bareVR demoSTS demoCluster) ''d'' ''r'') [] =
     [EvGetVR ''d'' ''r'' (Inr bareVR),
      EvUpdateVR (bareVR\<lparr>vr_meta := (vr_meta bareVR)\<lparr>om_finalizers := [FinalizerName]\<rparr>\<rparr>) res]"
proof -
  have "c_getVR (cluster_client bareVR demoSTS demoCluster) [] ''d'' ''r'' = Inr bareVR"
    and "om_deletionTimestamp (vr_meta bareVR) = None"
    and "\<not> l_containsFinalizer (cluster_client bareVR demoSTS demoCluster) (om_finalizers (vr_meta bareVR)) FinalizerName"
    and "l_addFinalizer (cluster_client bareVR demoSTS demoCluster) (om_finalizers (vr_meta bareVR)) FinalizerName = [FinalizerName]"
    by (simp_all add: cluster_client_def storedVR_def bareVR_def zeroMeta_def)
  with finalizer_first [of "cluster_client bareVR demoSTS demoCluster" "''d''" "''r''" bareVR] show ?thesis
    by (auto simp: trace_def)
qed

text \<open>
  Outside the phase Syncing a call on a live object changes nothing in the cluster: apart from
  reads it only updates the object itself. Validation in particular is free of side effects.
\<close>

theorem no_changes_outside_syncing:
  assumes "c_getVR c [] ns n = Inr vr" and "om_deletionTimestamp (vr_meta vr) = None" and "vrPhase vr \<noteq> PhaseSyncing"
  shows "list_all (\<lambda>e. is_read e \<or> touches_vr e) (trace (Reconcile c ns n) [])"
proof -
  have "only (\<lambda>e. is_read e \<or> touches_vr e) (dispatch c vr)"
    by (rule only_mono [OF dispatch_status_only [OF assms(3)]]) (auto simp: status_only_def quiet_def)
  then obtain t where "trace (dispatch c vr) [EvGetVR ns n (Inr vr)] = [EvGetVR ns n (Inr vr)] @ t"
    "list_all (\<lambda>e. is_read e \<or> touches_vr e) t"
    unfolding only_def by blast
  then show ?thesis
    using assms(1,2) by (auto simp: Reconcile_def GetVR_def UpdateVR_def split: sum.split)
qed

theorem no_changes_outside_syncing_witness:
  "list_all (\<lambda>e. is_read e \<or> touches_vr e)
     (trace (Reconcile (cluster_client (demoVR (zeroStatus\<lparr>st_phase := PhaseValidating\<rparr>)) demoSTS demoCluster) ''d'' ''r'') [])"
  by (rule no_changes_outside_syncing [where vr = "demoVR (zeroStatus\<lparr>st_phase := PhaseValidating\<rparr>)"])
    (simp_all add: cluster_client_def storedVR_def demoVR_def zeroMeta_def zeroStatus_def phase_defs)

end
